(* ===== verification/Prelude.thy ===== *)
theory Prelude
  imports Main "HOL-Library.State_Monad"
begin

text \<open>
  What every theory of the development shares: the fixed-width integer conversions that C
  performs silently, truncating division, the state monad used for code with effects together
  with its weakest-precondition calculus, and generic facts about lists.

  A C function with effects is a value of type \<open>('s, 'a) state\<close>; an early \<open>return\<close> is a
  branch whose last action is \<open>return\<close>. All machine integers are HOL integers, and every place
  where C converts or wraps says so with one of \<open>i32\<close>, \<open>u32\<close>, \<open>i64\<close>, \<open>u64\<close>.
\<close>

named_theorems wp_simps \<open>weakest preconditions of the monad's operations\<close>
named_theorems cint_simps \<open>range facts and idempotence of the integer conversions\<close>

section \<open>Machine integers\<close>

definition u8 :: "int \<Rightarrow> int" where
  "u8 x = x mod 2 ^ 8"

definition u32 :: "int \<Rightarrow> int" where
  "u32 x = x mod 2 ^ 32"

definition u64 :: "int \<Rightarrow> int" where
  "u64 x = x mod 2 ^ 64"

definition i8 :: "int \<Rightarrow> int" where
  "i8 x = (x + 2 ^ 7) mod 2 ^ 8 - 2 ^ 7"

definition i32 :: "int \<Rightarrow> int" where
  "i32 x = (x + 2 ^ 31) mod 2 ^ 32 - 2 ^ 31"

definition i64 :: "int \<Rightarrow> int" where
  "i64 x = (x + 2 ^ 63) mod 2 ^ 64 - 2 ^ 63"

text \<open>Truth values are the integers 0 and 1, and any non-zero integer is true.\<close>

definition b2i :: "bool \<Rightarrow> int" where
  "b2i b = (if b then 1 else 0)"

lemma b2i_simps [simp]: "b2i True = 1" "b2i False = 0"
  by (simp_all add: b2i_def)

lemma b2i_eq_0 [simp]: "b2i b = 0 \<longleftrightarrow> \<not> b"
  by (simp add: b2i_def)

definition in_i32 :: "int \<Rightarrow> bool" where
  "in_i32 x \<longleftrightarrow> - (2 ^ 31) \<le> x \<and> x < 2 ^ 31"

definition in_i64 :: "int \<Rightarrow> bool" where
  "in_i64 x \<longleftrightarrow> - (2 ^ 63) \<le> x \<and> x < 2 ^ 63"

lemma i32_id [cint_simps]: "- (2 ^ 31) \<le> x \<Longrightarrow> x < 2 ^ 31 \<Longrightarrow> i32 x = x"
  by (simp add: i32_def)

lemma i32_in [cint_simps]: "in_i32 x \<Longrightarrow> i32 x = x"
  by (simp add: in_i32_def i32_id)

lemma i64_id [cint_simps]: "- (2 ^ 63) \<le> x \<Longrightarrow> x < 2 ^ 63 \<Longrightarrow> i64 x = x"
  by (simp add: i64_def)

lemma i8_id [cint_simps]: "- 128 \<le> x \<Longrightarrow> x < 128 \<Longrightarrow> i8 x = x"
  by (simp add: i8_def)

lemma u32_id [cint_simps]: "0 \<le> x \<Longrightarrow> x < 2 ^ 32 \<Longrightarrow> u32 x = x"
  by (simp add: u32_def)

lemma u64_id [cint_simps]: "0 \<le> x \<Longrightarrow> x < 2 ^ 64 \<Longrightarrow> u64 x = x"
  by (simp add: u64_def)

lemma i32_range [cint_simps]: "- (2 ^ 31) \<le> i32 x" "i32 x < 2 ^ 31"
  by (simp_all add: i32_def)

lemma in_i32_i32 [simp]: "in_i32 (i32 x)"
  using i32_range [of x] by (simp add: in_i32_def)

lemma i64_range [cint_simps]: "- (2 ^ 63) \<le> i64 x" "i64 x < 2 ^ 63"
  by (simp_all add: i64_def)

lemma u32_range [cint_simps]: "0 \<le> u32 x" "u32 x < 2 ^ 32"
  by (simp_all add: u32_def)

lemma u64_range [cint_simps]: "0 \<le> u64 x" "u64 x < 2 ^ 64"
  by (simp_all add: u64_def)

lemma u8_range [cint_simps]: "0 \<le> u8 x" "u8 x < 256"
  by (simp_all add: u8_def)

text \<open>C's division and remainder truncate towards zero.\<close>

definition c_div :: "int \<Rightarrow> int \<Rightarrow> int" where
  "c_div a b = sgn a * sgn b * (\<bar>a\<bar> div \<bar>b\<bar>)"

definition c_mod :: "int \<Rightarrow> int \<Rightarrow> int" where
  "c_mod a b = a - b * c_div a b"

lemma c_div_nonneg [simp]: "0 \<le> a \<Longrightarrow> 0 < b \<Longrightarrow> c_div a b = a div b"
  by (cases "a = 0") (simp_all add: c_div_def)

lemma c_mod_nonneg [simp]: "0 \<le> a \<Longrightarrow> 0 < b \<Longrightarrow> c_mod a b = a mod b"
  by (simp add: c_mod_def minus_mult_div_eq_mod)

lemma c_div_mod: "b * c_div a b + c_mod a b = a"
  by (simp add: c_mod_def)

section \<open>The state monad\<close>

definition gets :: "('s \<Rightarrow> 'a) \<Rightarrow> ('s, 'a) state" where
  "gets f = State (\<lambda>s. (f s, s))"

definition modify :: "('s \<Rightarrow> 's) \<Rightarrow> ('s, unit) state" where
  "modify f = State (\<lambda>s. ((), f s))"

abbreviation ret :: "'a \<Rightarrow> ('s, 'a) state" where
  "ret \<equiv> State_Monad.return"

definition skip_m :: "('s, unit) state" where
  "skip_m = ret ()"

definition when_m :: "bool \<Rightarrow> ('s, unit) state \<Rightarrow> ('s, unit) state" where
  "when_m b m = (if b then m else skip_m)"

lemma run_gets [simp]: "run_state (gets f) s = (f s, s)"
  by (simp add: gets_def)

lemma run_modify [simp]: "run_state (modify f) s = ((), f s)"
  by (simp add: modify_def)

lemma run_skip_m [simp]: "run_state skip_m s = ((), s)"
  by (simp add: skip_m_def)

lemma run_when_m [simp]: "run_state (when_m b m) s = (if b then run_state m s else ((), s))"
  by (simp add: when_m_def)

lemma run_if_m [simp]: "run_state (if b then m else n) s = (if b then run_state m s else run_state n s)"
  by simp

lemma state_bind_cong [fundef_cong]:
  "m = m' \<Longrightarrow> (\<And>a. f a = f' a) \<Longrightarrow> State_Monad.bind m f = State_Monad.bind m' f'"
  by (rule arg_cong2 [where f = State_Monad.bind]) (auto intro: ext)

text \<open>\<open>SLIST_FOREACH\<close> without an early exit: the body runs on every element in order.\<close>

fun foreach_m :: "'a list \<Rightarrow> ('a \<Rightarrow> ('s, unit) state) \<Rightarrow> ('s, unit) state" where
  "foreach_m [] f = skip_m"
| "foreach_m (x # xs) f = do { f x; foreach_m xs f }"

text \<open>A loop over a list whose body may end it with a value (\<open>return\<close> or \<open>break\<close>).\<close>

fun until_m :: "'a list \<Rightarrow> ('a \<Rightarrow> ('s, 'b option) state) \<Rightarrow> ('s, 'b option) state" where
  "until_m [] f = ret None"
| "until_m (x # xs) f = do {
     r \<leftarrow> f x;
     case r of Some v \<Rightarrow> ret (Some v) | None \<Rightarrow> until_m xs f }"

section \<open>Weakest preconditions\<close>

definition wp :: "('s, 'a) state \<Rightarrow> ('a \<Rightarrow> 's \<Rightarrow> bool) \<Rightarrow> 's \<Rightarrow> bool" where
  "wp m Q s = (case run_state m s of (a, s') \<Rightarrow> Q a s')"

lemma wpI: "(\<And>a s'. run_state m s = (a, s') \<Longrightarrow> Q a s') \<Longrightarrow> wp m Q s"
  by (simp add: wp_def split: prod.split)

lemma wpD: "wp m Q s \<Longrightarrow> run_state m s = (a, s') \<Longrightarrow> Q a s'"
  by (simp add: wp_def)

lemma wp_iff: "wp m Q s \<longleftrightarrow> Q (fst (run_state m s)) (snd (run_state m s))"
  by (simp add: wp_def split: prod.split)

lemma wp_return [wp_simps]: "wp (ret a) Q = Q a"
  by (rule ext) (simp add: wp_def)

lemma wp_bind [wp_simps]: "wp (State_Monad.bind m f) Q = wp m (\<lambda>a. wp (f a) Q)"
  by (rule ext) (simp add: wp_def split: prod.split)

lemma wp_get [wp_simps]: "wp State_Monad.get Q = (\<lambda>s. Q s s)"
  by (rule ext) (simp add: wp_def)

lemma wp_gets [wp_simps]: "wp (gets f) Q = (\<lambda>s. Q (f s) s)"
  by (rule ext) (simp add: wp_def)

lemma wp_modify [wp_simps]: "wp (modify f) Q = (\<lambda>s. Q () (f s))"
  by (rule ext) (simp add: wp_def)

lemma wp_skip_m [wp_simps]: "wp skip_m Q = Q ()"
  by (rule ext) (simp add: wp_def)

lemma wp_when_m [wp_simps]: "wp (when_m b m) Q = (\<lambda>s. if b then wp m Q s else Q () s)"
  by (rule ext) (simp add: wp_def)

lemma wp_if [wp_simps]: "wp (if b then m else n) Q = (\<lambda>s. if b then wp m Q s else wp n Q s)"
  by (rule ext) simp

lemma wp_foreach_m [wp_simps]:
  "wp (foreach_m [] f) Q = Q ()"
  "wp (foreach_m (x # xs) f) Q = wp (f x) (\<lambda>_. wp (foreach_m xs f) Q)"
  by (simp_all add: wp_simps)

lemma wp_mono: "wp m Q s \<Longrightarrow> (\<And>a s'. Q a s' \<Longrightarrow> R a s') \<Longrightarrow> wp m R s"
  by (simp add: wp_def split: prod.splits)

lemma wp_seq: "wp m Q s \<Longrightarrow> (\<And>a s'. Q a s' \<Longrightarrow> wp (f a) R s') \<Longrightarrow> wp (State_Monad.bind m f) R s"
  by (simp add: wp_bind wp_mono)

lemma wp_conj: "wp m Q s \<Longrightarrow> wp m R s \<Longrightarrow> wp m (\<lambda>a s'. Q a s' \<and> R a s') s"
  by (simp add: wp_def split: prod.splits)

text \<open>
  An operation keeps a predicate on the state. \<open>keeps\<close> composes along the monad's operations, so
  an invariant is proved once per primitive and lifted to whole handlers by \<open>intro\<close>.
\<close>

definition keeps :: "('s \<Rightarrow> bool) \<Rightarrow> ('s, 'a) state \<Rightarrow> bool" where
  "keeps P m \<longleftrightarrow> (\<forall>s. P s \<longrightarrow> P (snd (run_state m s)))"

lemma keepsI: "(\<And>s a s'. P s \<Longrightarrow> run_state m s = (a, s') \<Longrightarrow> P s') \<Longrightarrow> keeps P m"
  by (metis keeps_def surjective_pairing)

lemma keepsD: "keeps P m \<Longrightarrow> P s \<Longrightarrow> run_state m s = (a, s') \<Longrightarrow> P s'"
  by (metis keeps_def snd_conv)

named_theorems keeps_intros \<open>invariance along the monad's operations\<close>

lemma keeps_return [keeps_intros]: "keeps P (ret a)"
  by (simp add: keeps_def)

lemma keeps_bind [keeps_intros]:
  "keeps P m \<Longrightarrow> (\<And>a. keeps P (f a)) \<Longrightarrow> keeps P (State_Monad.bind m f)"
  by (simp add: keeps_def split: prod.split) (metis snd_conv)

lemma keeps_gets [keeps_intros]: "keeps P (gets f)"
  by (simp add: keeps_def)

lemma keeps_get [keeps_intros]: "keeps P State_Monad.get"
  by (simp add: keeps_def)

lemma keeps_skip_m [keeps_intros]: "keeps P skip_m"
  by (simp add: keeps_def)

lemma keeps_modify [keeps_intros]: "(\<And>s. P s \<Longrightarrow> P (f s)) \<Longrightarrow> keeps P (modify f)"
  by (simp add: keeps_def)

lemma keeps_if [keeps_intros]: "keeps P m \<Longrightarrow> keeps P n \<Longrightarrow> keeps P (if b then m else n)"
  by simp

lemma keeps_when_m [keeps_intros]: "keeps P m \<Longrightarrow> keeps P (when_m b m)"
  by (simp add: when_m_def keeps_skip_m)

lemma keeps_option [keeps_intros]:
  "keeps P m \<Longrightarrow> (\<And>x. keeps P (n x)) \<Longrightarrow> keeps P (case v of None \<Rightarrow> m | Some x \<Rightarrow> n x)"
  by (simp split: option.split)

lemma keeps_prod [keeps_intros]:
  "(\<And>x y. keeps P (m x y)) \<Longrightarrow> keeps P (case v of (x, y) \<Rightarrow> m x y)"
  by (simp split: prod.split)

lemma keeps_let [keeps_intros]: "keeps P (m v) \<Longrightarrow> keeps P (let x = v in m x)"
  by simp

lemma keeps_foreach_m [keeps_intros]: "(\<And>x. keeps P (f x)) \<Longrightarrow> keeps P (foreach_m xs f)"
  by (induction xs) (simp_all add: keeps_intros)

lemma keeps_until_m [keeps_intros]: "(\<And>x. keeps P (f x)) \<Longrightarrow> keeps P (until_m xs f)"
  by (induction xs) (auto intro!: keeps_intros)

section \<open>Memory\<close>

text \<open>\<open>memcpy\<close> of \<open>d\<close> to offset \<open>k\<close> of a block.\<close>

definition poke :: "nat \<Rightarrow> string \<Rightarrow> string \<Rightarrow> string" where
  "poke k d b = take k b @ d @ drop (k + length d) b"

section \<open>Lists\<close>

lemma length_drop_less: "0 < n \<Longrightarrow> xs \<noteq> [] \<Longrightarrow> length (drop n xs) < length xs"
  by (cases xs) auto

lemma distinct_append_iff: "distinct (xs @ y # ys) \<longleftrightarrow>
    distinct (xs @ ys) \<and> y \<notin> set xs \<and> y \<notin> set ys"
  by auto

lemma remove1_middle [simp]: "y \<notin> set xs \<Longrightarrow> remove1 y (xs @ y # ys) = xs @ ys"
  by (induction xs) auto

end
