(* ===== verification/CDouble.thy ===== *)
theory CDouble
  imports Complex_Main "HOL-Library.Log_Nat" Prelude
begin

text \<open>
  C's \<open>double\<close> and \<open>float\<close>: IEEE 754 binary64 and binary32 values as exact rationals with
  infinities and NaN, every operation rounding its exact result to nearest, ties to even,
  subnormals included. The sign of zero is not represented. \<open>pow10\<close> stands for
  \<open>pow(10.0, k)\<close> with an integral \<open>k\<close>, taken as correctly rounded. Conversions to integers
  truncate; out of range, where C leaves the result undefined, they saturate as the AArch64
  instructions do, and NaN gives 0.

  The second half is the decimal text \<open>printf\<close> makes of integers and doubles.
\<close>

section \<open>Rounding\<close>

definition pow2r :: "int \<Rightarrow> rat" where
  "pow2r e = (if 0 \<le> e then 2 ^ nat e else 1 / 2 ^ nat (- e))"

definition round_half_even :: "rat \<Rightarrow> int" where
  "round_half_even x =
     (let f = \<lfloor>x\<rfloor>; r = x - of_int f
      in if r < 1 / 2 then f else if 1 / 2 < r then f + 1 else if even f then f else f + 1)"

definition binexp :: "rat \<Rightarrow> int" where
  "binexp x =
     (case quotient_of \<bar>x\<bar> of (n, d) \<Rightarrow>
        let k = bitlen n - bitlen d in if pow2r k \<le> \<bar>x\<bar> then k else k - 1)"

datatype double = Fin rat | PInf | NInf | NaN

text \<open>
  A format has \<open>p\<close> significant bits, smallest exponent \<open>emin\<close> of the last bit, and overflows at
  \<open>2 ^ emax\<close>.
\<close>

definition rnd_fmt :: "int \<Rightarrow> int \<Rightarrow> int \<Rightarrow> rat \<Rightarrow> double" where
  "rnd_fmt p emin emax x =
     (if x = 0 then Fin 0
      else let q = max (binexp x - (p - 1)) emin;
               y = of_int (round_half_even (x / pow2r q)) * pow2r q
           in if pow2r emax \<le> y then PInf else if y \<le> - pow2r emax then NInf else Fin y)"

definition rnd :: "rat \<Rightarrow> double" where
  "rnd x = rnd_fmt 53 (- 1074) 1024 x"

definition rnd_float :: "rat \<Rightarrow> double" where
  "rnd_float x = rnd_fmt 24 (- 149) 128 x"

fun to_float :: "double \<Rightarrow> double" where
  "to_float (Fin x) = rnd_float x"
| "to_float d = d"

section \<open>Arithmetic and comparison\<close>

fun d_neg :: "double \<Rightarrow> double" where
  "d_neg (Fin x) = Fin (- x)"
| "d_neg PInf = NInf"
| "d_neg NInf = PInf"
| "d_neg NaN = NaN"

fun d_add :: "double \<Rightarrow> double \<Rightarrow> double" where
  "d_add (Fin x) (Fin y) = rnd (x + y)"
| "d_add NaN _ = NaN"
| "d_add _ NaN = NaN"
| "d_add PInf NInf = NaN"
| "d_add NInf PInf = NaN"
| "d_add PInf _ = PInf"
| "d_add _ PInf = PInf"
| "d_add NInf _ = NInf"
| "d_add _ NInf = NInf"

definition d_sub :: "double \<Rightarrow> double \<Rightarrow> double" where
  "d_sub a b = d_add a (d_neg b)"

fun d_sgn :: "double \<Rightarrow> int" where
  "d_sgn (Fin x) = (if x = 0 then 0 else if 0 < x then 1 else -1)"
| "d_sgn PInf = 1"
| "d_sgn NInf = -1"
| "d_sgn NaN = 0"

definition d_inf :: "int \<Rightarrow> double" where
  "d_inf s = (if s = 0 then NaN else if 0 < s then PInf else NInf)"

fun d_mul :: "double \<Rightarrow> double \<Rightarrow> double" where
  "d_mul (Fin x) (Fin y) = rnd (x * y)"
| "d_mul NaN _ = NaN"
| "d_mul _ NaN = NaN"
| "d_mul a b = d_inf (d_sgn a * d_sgn b)"

text \<open>Division by zero gives an infinity of the dividend's sign (a positive zero divisor).\<close>

fun d_div :: "double \<Rightarrow> double \<Rightarrow> double" where
  "d_div (Fin x) (Fin y) = (if y = 0 then d_inf (d_sgn (Fin x)) else rnd (x / y))"
| "d_div NaN _ = NaN"
| "d_div _ NaN = NaN"
| "d_div (Fin x) _ = Fin 0"
| "d_div a (Fin y) = d_inf (d_sgn a * (if y < 0 then -1 else 1))"
| "d_div _ _ = NaN"

fun d_abs :: "double \<Rightarrow> double" where
  "d_abs (Fin x) = Fin \<bar>x\<bar>"
| "d_abs NInf = PInf"
| "d_abs d = d"

fun d_lt :: "double \<Rightarrow> double \<Rightarrow> bool" where
  "d_lt (Fin x) (Fin y) = (x < y)"
| "d_lt NaN _ = False"
| "d_lt _ NaN = False"
| "d_lt NInf NInf = False"
| "d_lt NInf _ = True"
| "d_lt _ PInf = True"
| "d_lt _ _ = False"

fun d_eq :: "double \<Rightarrow> double \<Rightarrow> bool" where
  "d_eq NaN _ = False"
| "d_eq _ NaN = False"
| "d_eq a b = (a = b)"

definition d_le :: "double \<Rightarrow> double \<Rightarrow> bool" where
  "d_le a b = (d_lt a b \<or> d_eq a b)"

definition d_of_int :: "int \<Rightarrow> double" where
  "d_of_int n = rnd (of_int n)"

definition pow10 :: "int \<Rightarrow> double" where
  "pow10 k = (if 0 \<le> k then rnd (10 ^ nat k) else rnd (1 / 10 ^ nat (- k)))"

fun d_floor :: "double \<Rightarrow> double" where
  "d_floor (Fin x) = Fin (of_int \<lfloor>x\<rfloor>)"
| "d_floor d = d"

definition rat_trunc :: "rat \<Rightarrow> int" where
  "rat_trunc x = (if 0 \<le> x then \<lfloor>x\<rfloor> else - \<lfloor>- x\<rfloor>)"

definition saturate :: "int \<Rightarrow> int \<Rightarrow> int \<Rightarrow> int" where
  "saturate lo hi x = (if x < lo then lo else if hi < x then hi else x)"

fun d_to_int :: "int \<Rightarrow> int \<Rightarrow> double \<Rightarrow> int" where
  "d_to_int lo hi (Fin x) = saturate lo hi (rat_trunc x)"
| "d_to_int lo hi PInf = hi"
| "d_to_int lo hi NInf = lo"
| "d_to_int lo hi NaN = 0"

definition d_to_i64 :: "double \<Rightarrow> int" where
  "d_to_i64 d = d_to_int (- (2 ^ 63)) (2 ^ 63 - 1) d"

definition d_to_u64 :: "double \<Rightarrow> int" where
  "d_to_u64 d = d_to_int 0 (2 ^ 64 - 1) d"

definition d_to_i32 :: "double \<Rightarrow> int" where
  "d_to_i32 d = d_to_int (- (2 ^ 31)) (2 ^ 31 - 1) d"

text \<open>\<open>DBL_EPSILON\<close>, and \<open>isnormal\<close> with zero excluded: neither subnormal nor infinite nor NaN.\<close>

definition DBL_EPSILON :: double where
  "DBL_EPSILON = Fin (1 / 2 ^ 52)"

fun d_isnormal :: "double \<Rightarrow> bool" where
  "d_isnormal (Fin x) = (pow2r (- 1022) \<le> \<bar>x\<bar>)"
| "d_isnormal _ = False"

section \<open>Integers up to \<open>2 ^ 53\<close> are exact\<close>

lemma pow2r_pos [simp]: "0 < pow2r e"
  by (simp add: pow2r_def)

lemma pow2r_nz [simp]: "pow2r e \<noteq> 0"
  using pow2r_pos [of e] by linarith

lemma round_half_even_int [simp]: "round_half_even (of_int n) = n"
  by (simp add: round_half_even_def)

lemma binexp_int:
  assumes "n \<noteq> 0"
  shows "binexp (of_int n) = bitlen \<bar>n\<bar> - 1"
proof -
  have q: "quotient_of \<bar>of_int n :: rat\<bar> = (\<bar>n\<bar>, 1)"
    by (metis of_int_abs quotient_of_rat_of_int)
  have b1: "bitlen 1 = 1"
    using bitlen_pow2 [of 1 0] by (simp add: bitlen_def floorlog_def)
  have pos: "0 < \<bar>n\<bar>" using assms by simp
  then have ge: "1 \<le> bitlen \<bar>n\<bar>"
    by (simp add: bitlen_ge_iff_power)
  have "2 ^ nat (bitlen \<bar>n\<bar> - 1) \<le> \<bar>n\<bar>"
    using bitlen_bounds [OF pos] by simp
  then have "of_int (2 ^ nat (bitlen \<bar>n\<bar> - 1)) \<le> (of_int \<bar>n\<bar> :: rat)"
    by (simp only: of_int_le_iff)
  then have "pow2r (bitlen \<bar>n\<bar> - 1) \<le> \<bar>of_int n\<bar>"
    using ge by (simp add: pow2r_def)
  with q b1 show ?thesis
    by (simp add: binexp_def)
qed

lemma rnd_int [simp]:
  assumes "\<bar>n\<bar> \<le> 2 ^ 53"
  shows "rnd (of_int n) = Fin (of_int n)"
proof (cases "n = 0")
  case True
  then show ?thesis by (simp add: rnd_def rnd_fmt_def)
next
  case False
  define q where "q = max (binexp (of_int n) - 52) (- 1074)"
  have e: "binexp (of_int n) = bitlen \<bar>n\<bar> - 1"
    using False by (rule binexp_int)
  have "bitlen \<bar>n\<bar> \<le> 54"
    using assms by (simp add: bitlen_le_iff_power)
  then have q1: "q \<le> 1" using e by (simp add: q_def)
  have "\<exists>m. (of_int n :: rat) / pow2r q = of_int m"
  proof (cases "q \<le> 0")
    case True
    then have "(of_int n :: rat) / pow2r q = of_int (n * 2 ^ nat (- q))"
      by (cases "q = 0") (simp_all add: pow2r_def)
    then show ?thesis ..
  next
    case False
    with q1 have "q = 1" by simp
    with e have "bitlen \<bar>n\<bar> = 54" by (simp add: q_def)
    then have "2 ^ 53 \<le> \<bar>n\<bar>"
      using bitlen_ge_iff_power [of 54 "\<bar>n\<bar>"] by simp
    with assms have "\<bar>n\<bar> = 2 ^ 53" by simp
    then have n: "n = 2 ^ 53 \<or> n = - (2 ^ 53)" by linarith
    have "(of_int n :: rat) / pow2r q = of_int (if 0 \<le> n then 2 ^ 52 else - (2 ^ 52))"
      using n \<open>q = 1\<close> by (auto simp: pow2r_def)
    then show ?thesis ..
  qed
  then obtain m where m: "(of_int n :: rat) / pow2r q = of_int m" ..
  then have y: "of_int (round_half_even (of_int n / pow2r q)) * pow2r q = (of_int n :: rat)"
    by simp (metis m nonzero_eq_divide_eq pow2r_nz)
  have "\<bar>of_int n\<bar> \<le> (2 ^ 53 :: rat)"
    using assms by (metis of_int_abs of_int_le_iff of_int_numeral of_int_power)
  also have "\<dots> < pow2r 1024" by (simp add: pow2r_def)
  finally have "\<not> pow2r 1024 \<le> of_int n" "\<not> of_int n \<le> - pow2r 1024"
    by linarith+
  with False y show ?thesis
    unfolding rnd_def rnd_fmt_def q_def [symmetric]
    by (simp add: Let_def q_def [symmetric])
qed

lemma rnd_0 [simp]: "rnd 0 = Fin 0"
  using rnd_int [of 0] by simp

lemma d_of_int_exact [simp]: "\<bar>n\<bar> \<le> 2 ^ 53 \<Longrightarrow> d_of_int n = Fin (of_int n)"
  by (simp add: d_of_int_def)

lemma rat_trunc_int [simp]: "rat_trunc (of_int n) = n"
  by (simp add: rat_trunc_def)

lemma d_to_i64_int [simp]: "\<bar>n\<bar> \<le> 2 ^ 53 \<Longrightarrow> d_to_i64 (Fin (of_int n)) = n"
  by (auto simp: d_to_i64_def saturate_def)

lemma d_add_int: "\<bar>a + b\<bar> \<le> 2 ^ 53 \<Longrightarrow> d_add (Fin (of_int a)) (Fin (of_int b)) = Fin (of_int (a + b))"
  using rnd_int [of "a + b"] by simp

lemma d_mul_int: "\<bar>a * b\<bar> \<le> 2 ^ 53 \<Longrightarrow> d_mul (Fin (of_int a)) (Fin (of_int b)) = Fin (of_int (a * b))"
  using rnd_int [of "a * b"] by simp

lemma pow10_0 [simp]: "pow10 0 = Fin 1"
  using rnd_int [of 1] by (simp add: pow10_def)

section \<open>Decimal text\<close>

fun digit_char :: "nat \<Rightarrow> char" where
  "digit_char d = char_of (48 + d)"

fun show_nat :: "nat \<Rightarrow> string" where
  "show_nat n = (if n < 10 then [digit_char n] else show_nat (n div 10) @ [digit_char (n mod 10)])"

declare show_nat.simps [simp del]

text \<open>\<open>%d\<close>, \<open>%lld\<close>\<close>

definition show_int :: "int \<Rightarrow> string" where
  "show_int n = (if n < 0 then ''-'' @ show_nat (nat (- n)) else show_nat (nat n))"

definition pad_left :: "nat \<Rightarrow> char \<Rightarrow> string \<Rightarrow> string" where
  "pad_left w c s = replicate (w - length s) c @ s"

text \<open>\<open>%.Nf\<close> of a finite value: round the exact value to \<open>N\<close> places, ties to even.\<close>

definition fmt_fixed :: "nat \<Rightarrow> rat \<Rightarrow> string" where
  "fmt_fixed prec x =
     (let m = nat (round_half_even (\<bar>x\<bar> * 10 ^ prec));
          ip = show_nat (m div 10 ^ prec);
          fp = pad_left prec CHR ''0'' (show_nat (m mod 10 ^ prec))
      in (if x < 0 then ''-'' else []) @ ip @ (if prec = 0 then [] else ''.'' @ fp))"

fun fmt_f :: "nat \<Rightarrow> double \<Rightarrow> string" where
  "fmt_f prec (Fin x) = fmt_fixed prec x"
| "fmt_f prec PInf = ''inf''"
| "fmt_f prec NInf = ''-inf''"
| "fmt_f prec NaN = ''nan''"

text \<open>The decimal exponent of a positive value, found from \<open>k\<close> upwards or downwards.\<close>

fun dec_exp_up :: "nat \<Rightarrow> rat \<Rightarrow> nat" where
  "dec_exp_up 0 x = 0"
| "dec_exp_up (Suc fuel) x = (if x < 10 then 0 else Suc (dec_exp_up fuel (x / 10)))"

fun dec_exp_down :: "nat \<Rightarrow> rat \<Rightarrow> nat" where
  "dec_exp_down 0 x = 0"
| "dec_exp_down (Suc fuel) x = (if 1 \<le> x then 0 else Suc (dec_exp_down fuel (x * 10)))"

definition dec_exp :: "rat \<Rightarrow> int" where
  "dec_exp x = (if 1 \<le> x then int (dec_exp_up 400 x) else - int (dec_exp_down 400 x))"

definition pow10r :: "int \<Rightarrow> rat" where
  "pow10r k = (if 0 \<le> k then 10 ^ nat k else 1 / 10 ^ nat (- k))"

text \<open>\<open>%e\<close>: six places after the point, an exponent of at least two digits.\<close>

definition fmt_exp :: "rat \<Rightarrow> string" where
  "fmt_exp x =
     (let k = (if x = 0 then 0 else dec_exp \<bar>x\<bar>);
          m0 = nat (round_half_even (\<bar>x\<bar> / pow10r (k - 6)));
          (m, k') = (if m0 = 10 ^ 7 then (10 ^ 6, k + 1) else (m0, k));
          ex = pad_left 2 CHR ''0'' (show_nat (nat \<bar>k'\<bar>))
      in (if x < 0 then ''-'' else []) @ show_nat (m div 10 ^ 6) @ ''.'' @
         pad_left 6 CHR ''0'' (show_nat (m mod 10 ^ 6)) @ ''e'' @
         (if k' < 0 then ''-'' else ''+'') @ ex)"

fun fmt_e :: "double \<Rightarrow> string" where
  "fmt_e (Fin x) = fmt_exp x"
| "fmt_e d = fmt_f 0 d"

definition is_digit :: "char \<Rightarrow> bool" where
  "is_digit c \<longleftrightarrow> 48 \<le> (of_char c :: nat) \<and> (of_char c :: nat) \<le> 57"

definition digit_val :: "char \<Rightarrow> int" where
  "digit_val c = of_char c - 48"

lemma of_char_digit_char: "d < 10 \<Longrightarrow> (of_char (digit_char d) :: nat) = 48 + d"
  by simp

declare digit_char.simps [simp del]

lemma is_digit_digit_char [simp]: "d < 10 \<Longrightarrow> is_digit (digit_char d)"
  by (simp add: is_digit_def of_char_digit_char)

lemma digit_val_digit_char [simp]: "d < 10 \<Longrightarrow> digit_val (digit_char d) = int d"
  using of_nat_of_char [of "digit_char d", where 'a = int]
  by (simp add: digit_val_def of_char_digit_char)

lemma show_nat_digits: "\<forall>c \<in> set (show_nat n). is_digit c"
proof (induction n rule: show_nat.induct)
  case (1 n)
  then show ?case
    by (subst show_nat.simps) auto
qed

lemma show_nat_nonempty [simp]: "show_nat n \<noteq> []"
  by (subst show_nat.simps) simp

lemma length_show_nat: "n < 10 ^ k \<Longrightarrow> 0 < k \<Longrightarrow> length (show_nat n) \<le> k"
proof (induction k arbitrary: n)
  case 0
  then show ?case by simp
next
  case (Suc k)
  show ?case
  proof (cases "n < 10")
    case True
    then show ?thesis by (subst show_nat.simps) simp
  next
    case False
    with Suc.prems have "0 < k" by (cases k) auto
    moreover have "n div 10 < 10 ^ k"
      using Suc.prems by (simp add: less_mult_imp_div_less mult.commute)
    ultimately have "length (show_nat (n div 10)) \<le> k"
      using Suc.IH by blast
    with False show ?thesis by (subst show_nat.simps) simp
  qed
qed

text \<open>The first digit is 0 only for the number 0: no leading zeros.\<close>

lemma hd_show_nat: "0 < n \<Longrightarrow> hd (show_nat n) \<noteq> CHR ''0''"
proof (induction n rule: show_nat.induct)
  case (1 n)
  show ?case
  proof (cases "n < 10")
    case True
    have "(of_char (digit_char n) :: nat) \<noteq> of_char CHR ''0''"
      using True "1.prems" by (simp only: of_char_digit_char) simp
    then have "digit_char n \<noteq> CHR ''0''" by metis
    with True show ?thesis by (subst show_nat.simps) simp
  next
    case False
    then have "0 < n div 10" by simp
    with False "1.IH" have "hd (show_nat (n div 10)) \<noteq> CHR ''0''" by simp
    with False show ?thesis by (subst show_nat.simps) simp
  qed
qed

end
