(* ===== verification/OS.thy ===== *)
theory OS
  imports CDouble
begin

text \<open>
  The operating system and the Java runtime as the environment of the program. Every call that
  leaves the program is a value of \<open>syscall\<close>; the answer to it is given by an oracle, a function
  of the whole history of calls (the newest first, the call itself included). The oracle is a
  parameter of every theorem, so a theorem about the code holds for every behaviour of the
  environment, unless it names a restriction of the oracle as a hypothesis. The history itself is
  kept in \<open>w_trace\<close>, so that theorems can say what the program asked for and in which order.

  Addresses are the oracle's own: \<open>getaddrinfo\<close> answers with a family and the name of an address,
  which \<open>bind\<close> and \<open>connect\<close> pass back, with the port the code writes into it. \<open>SConnectPeer\<close> connects
  a datagram socket to the sender of the last datagram.

  Four constructors are no system calls: \<open>SUninit\<close> asks the environment for the contents of
  uninitialised memory the code reads, \<open>SStdout\<close> is output on standard output, and \<open>SCrash\<close> marks the
  dereference of a null pointer: what follows it in a history is without meaning. \<open>SStrerror\<close> and
  \<open>SHstrerror\<close> ask for the text of an error number.

  A failing call has a negative \<open>sr_val\<close> and sets \<open>errno\<close>. \<open>sr_data\<close> holds the bytes a call
  delivers and \<open>sr_ints\<close> its numeric results other than the return value.
\<close>

datatype timeval = Timeval (tv_sec: int) (tv_usec: int)

datatype (plugins only: code size) syscall =
    SGettimeofday
  | STime
  | SClock
  | SGetrusage
  | SGetpid
  | SRandom
  | SGethostname
  | SUname
  | SNanosleep int
  | SMalloc string
  | SRead int nat
  | SWrite int string
  | SRecv int nat
  | SClose int
  | SSendfile int int nat nat
  | SSelect int "int list" "int list" "timeval option"
  | SSocket int int
  | SBind int int "int option"
  | SListen int int
  | SConnect int int int
  | SConnectPeer int
  | SAccept int
  | SGetaddrinfo "string option" "int option" int int
  | SFreeaddrinfo int
  | SSetsockopt int string int
  | SGetsockopt int string
  | SGetFlags int
  | SSetFlags int int
  | SGetsockname int
  | SGetpeername int
  | SOpen string string
  | SUnlink string
  | SMkstemp string
  | SFtruncate int int
  | SMmap int int
  | SMunmap int
  | SFsync int
  | SFstat int
  | SFopen string
  | SFflush
  | SDaemon
  | SSchedaffinity int
  | SSignal string
  | SPrint string
  | SStderr string
  | SJni string "string list" "int list" "double list"
  | SUninit nat
  | SStdout string
  | SCrash string
  | SStrerror int
  | SHstrerror int
  | SExit int

datatype sysret = SysRet (sr_val: int) (sr_errno: int) (sr_data: string) (sr_ints: "int list")

record world =
  w_oracle :: "syscall list \<Rightarrow> sysret"
  w_trace :: "syscall list"
  errno :: int
  h_errno :: int
  i_errno :: int

definition syscall :: "syscall \<Rightarrow> ('a world_scheme, sysret) state" where
  "syscall c = State (\<lambda>s.
     let tr = c # w_trace s; r = w_oracle s tr
     in (r, s\<lparr>w_trace := tr, errno := (if sr_val r < 0 then sr_errno r else errno s)\<rparr>))"

text \<open>A call whose only interesting result is the return value.\<close>

definition sys_val :: "syscall \<Rightarrow> ('a world_scheme, int) state" where
  "sys_val c = do { r \<leftarrow> syscall c; ret (sr_val r) }"

definition sys_do :: "syscall \<Rightarrow> ('a world_scheme, unit) state" where
  "sys_do c = do { syscall c; skip_m }"

text \<open>
  \<open>read\<close>, \<open>recv\<close> and \<open>write\<close> transfer at most the number of bytes asked for: a read that succeeds
  yields the first \<open>n\<close> bytes of what the oracle offers, a write that succeeds reports at most the
  length of its buffer.
\<close>

definition sys_read :: "int \<Rightarrow> nat \<Rightarrow> ('a world_scheme, int \<times> string) state" where
  "sys_read fd n = do {
     r \<leftarrow> syscall (SRead fd n);
     if sr_val r < 0 then ret (-1, [])
     else let d = take n (sr_data r) in ret (int (length d), d) }"

definition sys_recv :: "int \<Rightarrow> nat \<Rightarrow> ('a world_scheme, int \<times> string) state" where
  "sys_recv fd n = do {
     r \<leftarrow> syscall (SRecv fd n);
     if sr_val r < 0 then ret (-1, [])
     else let d = take n (sr_data r) in ret (int (length d), d) }"

definition sys_write :: "int \<Rightarrow> string \<Rightarrow> ('a world_scheme, int) state" where
  "sys_write fd buf = do {
     r \<leftarrow> syscall (SWrite fd buf);
     ret (if sr_val r < 0 then -1 else min (sr_val r) (int (length buf))) }"

definition nth_int :: "int list \<Rightarrow> nat \<Rightarrow> int" where
  "nth_int xs n = (if n < length xs then xs ! n else 0)"

definition gettimeofday :: "('a world_scheme, int \<times> timeval) state" where
  "gettimeofday = do {
     r \<leftarrow> syscall SGettimeofday;
     ret (sr_val r, Timeval (nth_int (sr_ints r) 0) (nth_int (sr_ints r) 1)) }"

text \<open>\<open>malloc\<close> fails when the oracle says so; the tag names what is allocated.\<close>

definition sys_malloc :: "string \<Rightarrow> ('a world_scheme, bool) state" where
  "sys_malloc what = do { r \<leftarrow> syscall (SMalloc what); ret (0 \<le> sr_val r) }"

definition set_i_errno :: "int \<Rightarrow> ('a world_scheme, unit) state" where
  "set_i_errno e = modify (\<lambda>s. s\<lparr>i_errno := e\<rparr>)"

definition set_errno :: "int \<Rightarrow> ('a world_scheme, unit) state" where
  "set_errno e = modify (\<lambda>s. s\<lparr>errno := e\<rparr>)"

definition strerror :: "int \<Rightarrow> ('a world_scheme, string) state" where
  "strerror e = do { r \<leftarrow> syscall (SStrerror e); ret (sr_data r) }"

definition hstrerror :: "int \<Rightarrow> ('a world_scheme, string) state" where
  "hstrerror e = do { r \<leftarrow> syscall (SHstrerror e); ret (sr_data r) }"

definition get_errno :: "('a world_scheme, int) state" where
  "get_errno = gets errno"

text \<open>The errno values the code distinguishes (Linux).\<close>

definition EINTR :: int where "EINTR = 4"
definition EBADF :: int where "EBADF = 9"
definition EAGAIN :: int where "EAGAIN = 11"
definition EWOULDBLOCK :: int where "EWOULDBLOCK = EAGAIN"
definition ENOMEM :: int where "ENOMEM = 12"
definition EAFNOSUPPORT :: int where "EAFNOSUPPORT = 97"
definition ENOBUFS :: int where "ENOBUFS = 105"
definition EINPROGRESS :: int where "EINPROGRESS = 115"

text \<open>Socket families and types (Linux).\<close>

definition AF_UNSPEC :: int where "AF_UNSPEC = 0"
definition AF_INET :: int where "AF_INET = 2"
definition AF_INET6 :: int where "AF_INET6 = 10"
definition SOCK_STREAM :: int where "SOCK_STREAM = 1"
definition SOCK_DGRAM :: int where "SOCK_DGRAM = 2"

lemmas errno_defs = EINTR_def EBADF_def EAGAIN_def EWOULDBLOCK_def ENOMEM_def
  EAFNOSUPPORT_def ENOBUFS_def EINPROGRESS_def
lemmas sock_defs = AF_UNSPEC_def AF_INET_def AF_INET6_def SOCK_STREAM_def SOCK_DGRAM_def

section \<open>Rules\<close>

text \<open>
  \<open>answer s c\<close> and \<open>after s c\<close> are the oracle's answer to a call and the state after it; every
  primitive is expressed by these two, so proofs step over a call without unfolding the record.
\<close>

definition answer :: "'a world_scheme \<Rightarrow> syscall \<Rightarrow> sysret" where
  "answer s c = w_oracle s (c # w_trace s)"

definition after :: "'a world_scheme \<Rightarrow> syscall \<Rightarrow> 'a world_scheme" where
  "after s c = s\<lparr>w_trace := c # w_trace s,
     errno := (if sr_val (answer s c) < 0 then sr_errno (answer s c) else errno s)\<rparr>"

lemma run_syscall [simp]: "run_state (syscall c) s = (answer s c, after s c)"
  by (simp add: syscall_def answer_def after_def Let_def)

lemma wp_syscall [wp_simps]: "wp (syscall c) Q = (\<lambda>s. Q (answer s c) (after s c))"
  by (rule ext) (simp add: wp_def)

lemma wp_sys_val [wp_simps]: "wp (sys_val c) Q = (\<lambda>s. Q (sr_val (answer s c)) (after s c))"
  by (rule ext) (simp add: sys_val_def wp_simps)

lemma wp_sys_do [wp_simps]: "wp (sys_do c) Q = (\<lambda>s. Q () (after s c))"
  by (rule ext) (simp add: sys_do_def wp_simps)

lemma run_sys_val [simp]: "run_state (sys_val c) s = (sr_val (answer s c), after s c)"
  by (simp add: sys_val_def)

lemma run_sys_do [simp]: "run_state (sys_do c) s = ((), after s c)"
  by (simp add: sys_do_def)

lemma after_trace [simp]: "w_trace (after s c) = c # w_trace s"
  by (simp add: after_def)

lemma after_oracle [simp]: "w_oracle (after s c) = w_oracle s"
  by (simp add: after_def)

lemma after_i_errno [simp]: "i_errno (after s c) = i_errno s"
  by (simp add: after_def)

lemma after_errno [simp]:
  "errno (after s c) = (if sr_val (answer s c) < 0 then sr_errno (answer s c) else errno s)"
  by (simp add: after_def)

lemma after_more [simp]: "world.more (after s c) = world.more s"
  by (simp add: after_def)

lemma wp_set_i_errno [wp_simps]: "wp (set_i_errno e) Q = (\<lambda>s. Q () (s\<lparr>i_errno := e\<rparr>))"
  by (rule ext) (simp add: set_i_errno_def wp_simps)

lemma wp_set_errno [wp_simps]: "wp (set_errno e) Q = (\<lambda>s. Q () (s\<lparr>errno := e\<rparr>))"
  by (rule ext) (simp add: set_errno_def wp_simps)

lemma wp_strerror [wp_simps]: "wp (strerror e) Q = (\<lambda>s. Q (sr_data (answer s (SStrerror e))) (after s (SStrerror e)))"
  by (rule ext) (simp add: wp_def strerror_def)

lemma wp_hstrerror [wp_simps]: "wp (hstrerror e) Q = (\<lambda>s. Q (sr_data (answer s (SHstrerror e))) (after s (SHstrerror e)))"
  by (rule ext) (simp add: wp_def hstrerror_def)

lemma run_strerror [simp]: "run_state (strerror e) s = (sr_data (answer s (SStrerror e)), after s (SStrerror e))"
  by (simp add: strerror_def)

lemma wp_get_errno [wp_simps]: "wp (get_errno) Q = (\<lambda>s. Q (errno s) s)"
  by (rule ext) (simp add: get_errno_def wp_simps)

lemma run_set_i_errno [simp]: "run_state (set_i_errno e) s = ((), s\<lparr>i_errno := e\<rparr>)"
  by (simp add: set_i_errno_def)

lemma run_set_errno [simp]: "run_state (set_errno e) s = ((), s\<lparr>errno := e\<rparr>)"
  by (simp add: set_errno_def)

lemma run_get_errno [simp]: "run_state get_errno s = (errno s, s)"
  by (simp add: get_errno_def)

definition read_result :: "nat \<Rightarrow> sysret \<Rightarrow> int \<times> string" where
  "read_result n r =
     (if sr_val r < 0 then (-1, []) else (int (length (take n (sr_data r))), take n (sr_data r)))"

definition write_result :: "string \<Rightarrow> sysret \<Rightarrow> int" where
  "write_result buf r = (if sr_val r < 0 then -1 else min (sr_val r) (int (length buf)))"

lemma run_sys_read [simp]:
  "run_state (sys_read fd n) s = (read_result n (answer s (SRead fd n)), after s (SRead fd n))"
  by (simp add: sys_read_def read_result_def Let_def)

lemma run_sys_recv [simp]:
  "run_state (sys_recv fd n) s = (read_result n (answer s (SRecv fd n)), after s (SRecv fd n))"
  by (simp add: sys_recv_def read_result_def Let_def)

lemma run_sys_write [simp]:
  "run_state (sys_write fd b) s = (write_result b (answer s (SWrite fd b)), after s (SWrite fd b))"
  by (simp add: sys_write_def write_result_def)

lemma wp_sys_read [wp_simps]: "wp (sys_read fd n) Q = (\<lambda>s. Q (read_result n (answer s (SRead fd n))) (after s (SRead fd n)))"
  by (rule ext) (simp add: wp_def)

lemma wp_sys_recv [wp_simps]: "wp (sys_recv fd n) Q = (\<lambda>s. Q (read_result n (answer s (SRecv fd n))) (after s (SRecv fd n)))"
  by (rule ext) (simp add: wp_def)

lemma wp_sys_write [wp_simps]: "wp (sys_write fd b) Q = (\<lambda>s. Q (write_result b (answer s (SWrite fd b))) (after s (SWrite fd b)))"
  by (rule ext) (simp add: wp_def)

lemma write_result_bounds: "-1 \<le> write_result b r" "write_result b r \<le> int (length b)"
  by (auto simp: write_result_def)

lemma read_result_bounds:
  "read_result n r = (k, d) \<Longrightarrow> -1 \<le> k \<and> k \<le> int n \<and> (0 \<le> k \<longrightarrow> k = int (length d)) \<and> length d \<le> n"
  by (auto simp: read_result_def split: if_splits)

lemma wp_gettimeofday [wp_simps]: "wp (gettimeofday) Q = (\<lambda>s. Q (sr_val (answer s SGettimeofday), Timeval (nth_int (sr_ints (answer s SGettimeofday)) 0)
    (nth_int (sr_ints (answer s SGettimeofday)) 1)) (after s SGettimeofday))"
  by (rule ext) (simp add: gettimeofday_def wp_simps)

lemma run_gettimeofday [simp]:
  "run_state gettimeofday s =
     ((sr_val (answer s SGettimeofday),
       Timeval (nth_int (sr_ints (answer s SGettimeofday)) 0)
         (nth_int (sr_ints (answer s SGettimeofday)) 1)), after s SGettimeofday)"
  by (simp add: gettimeofday_def)

lemma wp_sys_malloc [wp_simps]: "wp (sys_malloc w) Q = (\<lambda>s. Q (0 \<le> sr_val (answer s (SMalloc w))) (after s (SMalloc w)))"
  by (rule ext) (simp add: sys_malloc_def wp_simps)

lemma run_sys_malloc [simp]:
  "run_state (sys_malloc w) s = (0 \<le> sr_val (answer s (SMalloc w)), after s (SMalloc w))"
  by (simp add: sys_malloc_def)

text \<open>The history only grows: what an operation appended is the difference of two traces.\<close>

definition extends :: "'a world_scheme \<Rightarrow> 'a world_scheme \<Rightarrow> bool" where
  "extends s s' \<longleftrightarrow> (\<exists>cs. w_trace s' = cs @ w_trace s) \<and> w_oracle s' = w_oracle s"

lemma extends_refl [simp]: "extends s s"
  by (simp add: extends_def)

lemma extends_trans: "extends s t \<Longrightarrow> extends t u \<Longrightarrow> extends s u"
  by (auto simp: extends_def)

lemma extends_after [simp]: "extends s (after s c)"
  by (simp add: extends_def)

text \<open>
  What a history leaves open: the descriptors that \<open>socket\<close>, \<open>accept\<close>, \<open>open\<close> and \<open>mkstemp\<close> returned
  and that were not closed, and the addresses \<open>getaddrinfo\<close> allocated and that were not freed.
\<close>

fun open_fds :: "(syscall list \<Rightarrow> sysret) \<Rightarrow> syscall list \<Rightarrow> int list" where
  "open_fds orc [] = []"
| "open_fds orc (c # tr) =
     (let fds = open_fds orc tr; r = sr_val (orc (c # tr)) in
      case c of
        SSocket _ _ \<Rightarrow> if 0 \<le> r then r # fds else fds
      | SAccept _ \<Rightarrow> if 0 \<le> r then r # fds else fds
      | SOpen _ _ \<Rightarrow> if 0 \<le> r then r # fds else fds
      | SMkstemp _ \<Rightarrow> if 0 \<le> r then r # fds else fds
      | SClose fd \<Rightarrow> remove1 fd fds
      | _ \<Rightarrow> fds)"

fun open_addrs :: "(syscall list \<Rightarrow> sysret) \<Rightarrow> syscall list \<Rightarrow> int list" where
  "open_addrs orc [] = []"
| "open_addrs orc (c # tr) =
     (let as = open_addrs orc tr; r = orc (c # tr) in
      case c of
        SGetaddrinfo _ _ _ _ \<Rightarrow> if sr_val r = 0 then nth_int (sr_ints r) 1 # as else as
      | SFreeaddrinfo a \<Rightarrow> remove1 a as
      | _ \<Rightarrow> as)"

definition fds_of :: "'a world_scheme \<Rightarrow> int list" where
  "fds_of s = open_fds (w_oracle s) (w_trace s)"

definition addrs_of :: "'a world_scheme \<Rightarrow> int list" where
  "addrs_of s = open_addrs (w_oracle s) (w_trace s)"

lemma fds_of_after: "fds_of (after s c) =
    (let r = sr_val (answer s c) in
     case c of
       SSocket _ _ \<Rightarrow> if 0 \<le> r then r # fds_of s else fds_of s
     | SAccept _ \<Rightarrow> if 0 \<le> r then r # fds_of s else fds_of s
     | SOpen _ _ \<Rightarrow> if 0 \<le> r then r # fds_of s else fds_of s
     | SMkstemp _ \<Rightarrow> if 0 \<le> r then r # fds_of s else fds_of s
     | SClose fd \<Rightarrow> remove1 fd (fds_of s)
     | _ \<Rightarrow> fds_of s)"
  unfolding fds_of_def answer_def by (simp add: Let_def)

lemma addrs_of_after: "addrs_of (after s c) =
    (case c of
       SGetaddrinfo _ _ _ _ \<Rightarrow>
         if sr_val (answer s c) = 0 then nth_int (sr_ints (answer s c)) 1 # addrs_of s else addrs_of s
     | SFreeaddrinfo a \<Rightarrow> remove1 a (addrs_of s)
     | _ \<Rightarrow> addrs_of s)"
  unfolding addrs_of_def answer_def by (simp add: Let_def)

lemmas after_fds = fds_of_after addrs_of_after

text \<open>The bytes a history delivered from a descriptor, and those it handed over to one.\<close>

fun received :: "(syscall list \<Rightarrow> sysret) \<Rightarrow> int \<Rightarrow> syscall list \<Rightarrow> string" where
  "received orc fd [] = []"
| "received orc fd (c # tr) = received orc fd tr @
     (case c of
        SRead f n \<Rightarrow> if f = fd then snd (read_result n (orc (c # tr))) else []
      | SRecv f n \<Rightarrow> if f = fd then snd (read_result n (orc (c # tr))) else []
      | _ \<Rightarrow> [])"

fun sent :: "(syscall list \<Rightarrow> sysret) \<Rightarrow> int \<Rightarrow> syscall list \<Rightarrow> string" where
  "sent orc fd [] = []"
| "sent orc fd (c # tr) = sent orc fd tr @
     (case c of
        SWrite f buf \<Rightarrow> if f = fd then take (nat (write_result buf (orc (c # tr)))) buf else []
      | _ \<Rightarrow> [])"

definition received_of :: "int \<Rightarrow> 'a world_scheme \<Rightarrow> string" where
  "received_of fd s = received (w_oracle s) fd (w_trace s)"

definition sent_of :: "int \<Rightarrow> 'a world_scheme \<Rightarrow> string" where
  "sent_of fd s = sent (w_oracle s) fd (w_trace s)"

lemma received_of_after: "received_of fd (after s c) = received_of fd s @
    (case c of
       SRead f n \<Rightarrow> if f = fd then snd (read_result n (answer s c)) else []
     | SRecv f n \<Rightarrow> if f = fd then snd (read_result n (answer s c)) else []
     | _ \<Rightarrow> [])"
  unfolding received_of_def answer_def by simp

lemma sent_of_after: "sent_of fd (after s c) = sent_of fd s @
    (case c of
       SWrite f buf \<Rightarrow> if f = fd then take (nat (write_result buf (answer s c))) buf else []
     | _ \<Rightarrow> [])"
  unfolding sent_of_def answer_def by simp

section \<open>Frame\<close>

text \<open>
  Operations that only make calls: the state of the program proper, the fields behind those of
  \<open>world\<close>, is as before, and the history has only grown.
\<close>

definition os_only :: "('a world_scheme, 'b) state \<Rightarrow> bool" where
  "os_only m \<longleftrightarrow> (\<forall>s. world.more (snd (run_state m s)) = world.more s \<and> extends s (snd (run_state m s)))"

named_theorems os_frame \<open>operations that only make calls\<close>

lemma os_onlyD: "os_only m \<Longrightarrow> run_state m s = (a, s') \<Longrightarrow> world.more s' = world.more s \<and> extends s s'"
  by (metis os_only_def snd_conv)

lemma os_only_wp: "os_only m \<Longrightarrow> (\<And>a s'. world.more s' = world.more s \<Longrightarrow> extends s s' \<Longrightarrow> Q a s') \<Longrightarrow> wp m Q s"
  by (auto simp: wp_def os_only_def split: prod.split) (metis snd_conv)

lemma os_only_return [os_frame]: "os_only (ret a)"
  by (simp add: os_only_def)

lemma os_only_bind [os_frame]: "os_only m \<Longrightarrow> (\<And>a. os_only (f a)) \<Longrightarrow> os_only (State_Monad.bind m f)"
  by (auto simp: os_only_def split: prod.split) (metis snd_conv extends_trans)+

lemma os_only_gets [os_frame]: "os_only (gets f)"
  by (simp add: os_only_def)

lemma os_only_skip [os_frame]: "os_only skip_m"
  by (simp add: os_only_def)

lemma os_only_if [os_frame]: "(b \<Longrightarrow> os_only m) \<Longrightarrow> (\<not> b \<Longrightarrow> os_only n) \<Longrightarrow> os_only (if b then m else n)"
  by simp

lemma os_only_when [os_frame]: "os_only m \<Longrightarrow> os_only (when_m b m)"
  by (simp add: when_m_def os_only_skip)

lemma os_only_option [os_frame]: "os_only m \<Longrightarrow> (\<And>x. os_only (n x)) \<Longrightarrow> os_only (case v of None \<Rightarrow> m | Some x \<Rightarrow> n x)"
  by (simp split: option.split)

lemma os_only_prod [os_frame]: "(\<And>x y. os_only (m x y)) \<Longrightarrow> os_only (case v of (x, y) \<Rightarrow> m x y)"
  by (simp split: prod.split)

lemma os_only_let [os_frame]: "os_only (m v) \<Longrightarrow> os_only (let x = v in m x)"
  by simp

lemma os_only_syscall [os_frame]: "os_only (syscall c)"
  by (simp add: os_only_def)

lemma os_only_calls [os_frame]:
  "os_only (sys_val c)" "os_only (sys_do c)" "os_only (sys_read fd n)" "os_only (sys_recv fd n)"
  "os_only (sys_write fd b)" "os_only gettimeofday" "os_only (sys_malloc w)" "os_only get_errno"
  by (simp_all add: os_only_def)

lemma os_only_strerror [os_frame]: "os_only (strerror e)"
  by (simp add: os_only_def)

lemma os_only_set_errno [os_frame]: "os_only (set_errno e)" "os_only (set_i_errno e)"
  by (simp_all add: os_only_def extends_def)

end
