(* ===== verification/Timer.thy ===== *)
theory Timer
  imports OS "HOL-Library.Multiset"
begin

text \<open>
  \<open>timer.c\<close>: the timers package. The active timers form a list sorted by expiry time and the
  released ones a free list; here both are HOL lists, the active one of \<open>timer\<close> records and the
  free one of addresses. The theory \<open>Timer_Heap\<close> models the same file at the level of the
  doubly linked list and shows that the pointer code implements these operations.

  A timer procedure is one of the callbacks the program installs and its client data is a pointer
  to the test or to a stream; the package itself only stores and passes them on. What a callback
  does is a parameter of \<open>tmr_run\<close>; the locales \<open>timer_procs\<close>, \<open>firing_procs\<close> and \<open>blind_procs\<close> are the
  contracts under which its runs return, fire every due timer and leave an observation alone.
\<close>

section \<open>Time values\<close>

instantiation timeval :: linorder
begin

definition less_timeval :: "timeval \<Rightarrow> timeval \<Rightarrow> bool" where
  "less_timeval a b \<longleftrightarrow> tv_sec a < tv_sec b \<or> (tv_sec a = tv_sec b \<and> tv_usec a < tv_usec b)"

definition less_eq_timeval :: "timeval \<Rightarrow> timeval \<Rightarrow> bool" where
  "less_eq_timeval a b \<longleftrightarrow> tv_sec a < tv_sec b \<or> (tv_sec a = tv_sec b \<and> tv_usec a \<le> tv_usec b)"

instance
  by intro_classes
    (auto simp: less_timeval_def less_eq_timeval_def timeval.expand)

end

text \<open>The value in microseconds, and the range \<open>gettimeofday\<close> guarantees for \<open>tv_usec\<close>.\<close>

definition tv_us :: "timeval \<Rightarrow> int" where
  "tv_us t = tv_sec t * 1000000 + tv_usec t"

definition tv_normal :: "timeval \<Rightarrow> bool" where
  "tv_normal t \<longleftrightarrow> 0 \<le> tv_usec t \<and> tv_usec t < 1000000"

lemma tv_less_us: "tv_normal a \<Longrightarrow> tv_normal b \<Longrightarrow> a < b \<longleftrightarrow> tv_us a < tv_us b"
  by (auto simp: less_timeval_def tv_us_def tv_normal_def)

lemma tv_le_us: "tv_normal a \<Longrightarrow> tv_normal b \<Longrightarrow> a \<le> b \<longleftrightarrow> tv_us a \<le> tv_us b"
  by (meson leI not_le tv_less_us)

section \<open>State\<close>

datatype timer_proc =
    Test_timer_proc
  | Client_stats_timer_proc
  | Client_reporter_timer_proc
  | Client_omit_timer_proc
  | Server_stats_timer_proc
  | Server_reporter_timer_proc
  | Server_omit_timer_proc
  | Send_timer_proc

datatype client_data = Test_ptr | Stream_ptr nat

record timer =
  tm_addr :: nat
  tm_proc :: timer_proc
  tm_data :: client_data
  tm_usecs :: int
  tm_periodic :: bool
  tm_time :: timeval

record tmr_state = world +
  timers :: "timer list"
  free_timers :: "nat list"
  tm_brk :: nat

section \<open>Operations\<close>

text \<open>The comparison \<open>timer.c\<close> spells out at every place.\<close>

definition tv_before :: "timeval \<Rightarrow> timeval \<Rightarrow> bool" where
  "tv_before a b \<longleftrightarrow> tv_sec a < tv_sec b \<or> (tv_sec a = tv_sec b \<and> tv_usec a < tv_usec b)"

fun getnow :: "timeval option \<Rightarrow> ('a world_scheme, timeval) state" where
  "getnow (Some now) = ret now"
| "getnow None = do { (_, now) \<leftarrow> gettimeofday; ret now }"

fun list_add :: "timer \<Rightarrow> timer list \<Rightarrow> timer list" where
  "list_add t [] = [t]"
| "list_add t (t2 # ts) =
     (if tv_before (tm_time t) (tm_time t2) then t # t2 # ts else t2 # list_add t ts)"

fun list_remove :: "nat \<Rightarrow> timer list \<Rightarrow> timer list" where
  "list_remove a [] = []"
| "list_remove a (t # ts) = (if tm_addr t = a then ts else t # list_remove a ts)"

definition list_resort :: "timer \<Rightarrow> timer list \<Rightarrow> timer list" where
  "list_resort t ts = list_add t (list_remove (tm_addr t) ts)"

definition add_usecs :: "timeval \<Rightarrow> int \<Rightarrow> timeval" where
  "add_usecs t usecs =
     (let sec = tv_sec t + c_div usecs 1000000; us = tv_usec t + c_mod usecs 1000000
      in if 1000000 \<le> us then Timeval (sec + c_div us 1000000) (c_mod us 1000000)
         else Timeval sec us)"

definition find_timer :: "nat \<Rightarrow> timer list \<Rightarrow> timer option" where
  "find_timer a ts = List.find (\<lambda>t. tm_addr t = a) ts"

definition tmr_alloc :: "('a tmr_state_scheme, nat option) state" where
  "tmr_alloc = do {
     fs \<leftarrow> gets free_timers;
     case fs of
       t # fs' \<Rightarrow> do { modify (\<lambda>s. s\<lparr>free_timers := fs'\<rparr>); ret (Some t) }
     | [] \<Rightarrow> do {
         ok \<leftarrow> sys_malloc ''Timer'';
         if ok then do {
           a \<leftarrow> gets tm_brk;
           modify (\<lambda>s. s\<lparr>tm_brk := Suc a\<rparr>);
           ret (Some a) }
         else ret None } }"

definition tmr_create ::
  "timeval option \<Rightarrow> timer_proc \<Rightarrow> client_data \<Rightarrow> int \<Rightarrow> bool \<Rightarrow>
    ('a tmr_state_scheme, nat option) state" where
  "tmr_create nowP timer_proc client_data usecs periodic = do {
     now \<leftarrow> getnow nowP;
     a \<leftarrow> tmr_alloc;
     case a of
       None \<Rightarrow> ret None
     | Some t \<Rightarrow> do {
         modify (\<lambda>s. s\<lparr>timers := list_add
           \<lparr>tm_addr = t, tm_proc = timer_proc, tm_data = client_data, tm_usecs = usecs,
            tm_periodic = periodic, tm_time = add_usecs now usecs\<rparr> (timers s)\<rparr>);
         ret (Some t) } }"

definition tmr_timeout :: "timeval option \<Rightarrow> ('a tmr_state_scheme, timeval option) state" where
  "tmr_timeout nowP = do {
     now \<leftarrow> getnow nowP;
     ts \<leftarrow> gets timers;
     case ts of
       [] \<Rightarrow> ret None
     | t # _ \<Rightarrow>
         let d = (tv_sec (tm_time t) - tv_sec now) * 1000000 + (tv_usec (tm_time t) - tv_usec now);
             usecs = (if d \<le> 0 then 0 else d)
         in ret (Some (Timeval (c_div usecs 1000000) (c_mod usecs 1000000))) }"

definition tmr_cancel_st :: "nat \<Rightarrow> 'a tmr_state_scheme \<Rightarrow> 'a tmr_state_scheme" where
  "tmr_cancel_st t s = s\<lparr>timers := list_remove t (timers s), free_timers := t # free_timers s\<rparr>"

definition tmr_cancel :: "nat \<Rightarrow> ('a tmr_state_scheme, unit) state" where
  "tmr_cancel t = modify (tmr_cancel_st t)"

text \<open>Give the timer at an address a new expiry time and sort it in again.\<close>

definition reschedule :: "nat \<Rightarrow> (timer \<Rightarrow> timeval) \<Rightarrow> timer list \<Rightarrow> timer list" where
  "reschedule a f ts =
     (case find_timer a ts of
        None \<Rightarrow> ts
      | Some t \<Rightarrow> list_resort (t\<lparr>tm_time := f t\<rparr>) ts)"

definition tmr_reset :: "timeval option \<Rightarrow> nat \<Rightarrow> ('a tmr_state_scheme, unit) state" where
  "tmr_reset nowP t = do {
     now \<leftarrow> getnow nowP;
     modify (\<lambda>s. s\<lparr>timers := reschedule t (\<lambda>tm. add_usecs now (tm_usecs tm)) (timers s)\<rparr>) }"

definition tmr_cleanup :: "('a tmr_state_scheme, unit) state" where
  "tmr_cleanup = modify (\<lambda>s. s\<lparr>free_timers := []\<rparr>)"

function tmr_destroy_loop :: "'a tmr_state_scheme \<Rightarrow> 'a tmr_state_scheme" where
  "tmr_destroy_loop s =
     (case timers s of [] \<Rightarrow> s | t # _ \<Rightarrow> tmr_destroy_loop (tmr_cancel_st (tm_addr t) s))"
  by pat_completeness auto
termination
  by (relation "measure (\<lambda>s. length (timers s))") (auto simp: tmr_cancel_st_def)

definition tmr_destroy :: "('a tmr_state_scheme, unit) state" where
  "tmr_destroy = do { modify tmr_destroy_loop; tmr_cleanup }"

text \<open>
  The body of \<open>tmr_run\<close>'s loop: the pointer to the next timer is read before the callback runs.
  The loop need not end (two periodic timers with a period of 0 chase each other), so it is a
  partial function; a pointer to a timer that is no longer active is \<open>None\<close> as well.
\<close>

fun succ_of :: "nat \<Rightarrow> timer list \<Rightarrow> nat option" where
  "succ_of a [] = None"
| "succ_of a (t # ts) =
     (if tm_addr t = a then (case ts of [] \<Rightarrow> None | t' # _ \<Rightarrow> Some (tm_addr t'))
      else succ_of a ts)"

definition tmr_rearm :: "timer \<Rightarrow> 'a tmr_state_scheme \<Rightarrow> 'a tmr_state_scheme" where
  "tmr_rearm t s =
     (if tm_periodic t
      then s\<lparr>timers := list_resort (t\<lparr>tm_time := add_usecs (tm_time t) (tm_usecs t)\<rparr>) (timers s)\<rparr>
      else tmr_cancel_st (tm_addr t) s)"

partial_function (option) tmr_run_loop ::
  "(timer_proc \<Rightarrow> client_data \<Rightarrow> timeval \<Rightarrow> 'a tmr_state_scheme \<Rightarrow> 'a tmr_state_scheme) \<Rightarrow>
    timeval \<Rightarrow> nat option \<Rightarrow> 'a tmr_state_scheme \<Rightarrow> 'a tmr_state_scheme option" where
  "tmr_run_loop cb now p s =
     (case p of
        None \<Rightarrow> Some s
      | Some a \<Rightarrow>
          (case find_timer a (timers s) of
             None \<Rightarrow> None
           | Some t \<Rightarrow>
               if tv_before now (tm_time t) then Some s
               else let s1 = cb (tm_proc t) (tm_data t) now s
                    in (case find_timer a (timers s1) of
                          None \<Rightarrow> None
                        | Some t1 \<Rightarrow> tmr_run_loop cb now (succ_of a (timers s)) (tmr_rearm t1 s1))))"

definition first_timer :: "timer list \<Rightarrow> nat option" where
  "first_timer ts = (case ts of [] \<Rightarrow> None | t # _ \<Rightarrow> Some (tm_addr t))"

definition tmr_run ::
  "(timer_proc \<Rightarrow> client_data \<Rightarrow> timeval \<Rightarrow> 'a tmr_state_scheme \<Rightarrow> 'a tmr_state_scheme) \<Rightarrow>
    timeval option \<Rightarrow> 'a tmr_state_scheme \<Rightarrow> 'a tmr_state_scheme option" where
  "tmr_run cb nowP s =
     (case run_state (getnow nowP) s of
        (now, s') \<Rightarrow> tmr_run_loop cb now (first_timer (timers s')) s')"

lemma tv_before_less [simp]: "tv_before a b \<longleftrightarrow> a < b"
  by (simp add: tv_before_def less_timeval_def)

section \<open>The contract of a timer queue\<close>

text \<open>
  The contract of a timer queue: a set of timers kept sorted by expiry time, each known by its
  address. \<open>items\<close> reads the timers in order. The list of this theory and the doubly linked list
  of \<open>Timer_Heap\<close> both provide it.
\<close>

locale timer_queue =
  fixes ok :: "'q \<Rightarrow> bool"
    and items :: "'q \<Rightarrow> timer list"
    and add :: "timer \<Rightarrow> 'q \<Rightarrow> 'q"
    and remove :: "nat \<Rightarrow> 'q \<Rightarrow> 'q"
  assumes items_sorted: "ok q \<Longrightarrow> sorted (map tm_time (items q))"
    and items_distinct: "ok q \<Longrightarrow> distinct (map tm_addr (items q))"
    and add_ok: "ok q \<Longrightarrow> tm_addr t \<notin> tm_addr ` set (items q) \<Longrightarrow> ok (add t q)"
    and add_items: "ok q \<Longrightarrow> tm_addr t \<notin> tm_addr ` set (items q) \<Longrightarrow>
      mset (items (add t q)) = add_mset t (mset (items q))"
    and remove_ok: "ok q \<Longrightarrow> a \<in> tm_addr ` set (items q) \<Longrightarrow> ok (remove a q)"
    and remove_items: "ok q \<Longrightarrow> a \<in> tm_addr ` set (items q) \<Longrightarrow>
      mset (items (remove a q)) = filter_mset (\<lambda>t. tm_addr t \<noteq> a) (mset (items q))"
begin

text \<open>Sorting a timer in again after its time changed.\<close>

definition resort :: "timer \<Rightarrow> 'q \<Rightarrow> 'q" where
  "resort t q = add t (remove (tm_addr t) q)"

lemma set_remove: "ok q \<Longrightarrow> a \<in> tm_addr ` set (items q) \<Longrightarrow>
    set (items (remove a q)) = {t \<in> set (items q). tm_addr t \<noteq> a}"
  using arg_cong [OF remove_items, of q a set_mset] by auto

lemma fresh_after_remove: "ok q \<Longrightarrow> a \<in> tm_addr ` set (items q) \<Longrightarrow>
    a \<notin> tm_addr ` set (items (remove a q))"
  by (auto simp: set_remove)

lemma resort_ok: "ok q \<Longrightarrow> tm_addr t \<in> tm_addr ` set (items q) \<Longrightarrow> ok (resort t q)"
  by (simp add: resort_def add_ok remove_ok fresh_after_remove)

lemma resort_items: "ok q \<Longrightarrow> tm_addr t \<in> tm_addr ` set (items q) \<Longrightarrow>
    mset (items (resort t q)) =
      add_mset t (filter_mset (\<lambda>u. tm_addr u \<noteq> tm_addr t) (mset (items q)))"
  by (simp add: resort_def add_items remove_ok remove_items fresh_after_remove)

lemma resort_addrs: "ok q \<Longrightarrow> tm_addr t \<in> tm_addr ` set (items q) \<Longrightarrow>
    tm_addr ` set (items (resort t q)) = tm_addr ` set (items q)"
  using arg_cong [OF resort_items, of q t set_mset] by (auto simp: image_iff)

text \<open>The head of the queue is the earliest timer.\<close>

lemma head_earliest: "ok q \<Longrightarrow> items q = t # ts \<Longrightarrow> u \<in> set (items q) \<Longrightarrow> tm_time t \<le> tm_time u"
  using items_sorted [of q] by auto

text \<open>
  Two queues with the same timers agree on the order of any two timers of different expiry times,
  so the order of the items is determined up to ties.
\<close>

lemma times_determined:
  "ok q \<Longrightarrow> sorted (map tm_time us) \<Longrightarrow> mset us = mset (items q) \<Longrightarrow>
     map tm_time us = map tm_time (items q)"
  by (metis items_sorted mset_map properties_for_sort)



end

definition timers_ok :: "timer list \<Rightarrow> bool" where
  "timers_ok ts \<longleftrightarrow> sorted (map tm_time ts) \<and> distinct (map tm_addr ts)"

lemma mset_list_add [simp]: "mset (list_add t ts) = add_mset t (mset ts)"
  by (induction ts) auto

lemma set_list_add [simp]: "set (list_add t ts) = insert t (set ts)"
  by (metis mset_list_add set_mset_add_mset_insert set_mset_mset)

lemma sorted_list_add: "sorted (map tm_time ts) \<Longrightarrow> sorted (map tm_time (list_add t ts))"
  by (induction ts) (auto simp: not_less intro: less_imp_le dest: less_imp_le order_trans)

lemma set_list_remove_subset: "set (list_remove a ts) \<subseteq> set ts"
  by (induction ts) auto

lemma list_remove_filter:
  "distinct (map tm_addr ts) \<Longrightarrow> list_remove a ts = filter (\<lambda>t. tm_addr t \<noteq> a) ts"
proof (induction ts)
  case (Cons t ts)
  have "tm_addr t \<notin> tm_addr ` set ts \<Longrightarrow> filter (\<lambda>u. tm_addr u \<noteq> tm_addr t) ts = ts"
    by (rule filter_True) (metis image_eqI)
  with Cons show ?case by auto
qed simp

lemma sorted_map_filter: "sorted (map f xs) \<Longrightarrow> sorted (map f (filter P xs))"
  by (induction xs) auto

lemma distinct_map_list_add:
  "distinct (map tm_addr ts) \<Longrightarrow> tm_addr t \<notin> tm_addr ` set ts \<Longrightarrow> distinct (map tm_addr (list_add t ts))"
  by (induction ts) auto

interpretation tq: timer_queue timers_ok "\<lambda>ts. ts" list_add list_remove
  rewrites "timer_queue.resort list_add list_remove = list_resort"
proof -
  show *: "timer_queue timers_ok (\<lambda>ts. ts) list_add list_remove"
    by unfold_locales
      (auto simp: timers_ok_def sorted_list_add distinct_map_list_add list_remove_filter
        sorted_map_filter distinct_map_filter)
  show "timer_queue.resort list_add list_remove = list_resort"
    by (intro ext) (simp add: timer_queue.resort_def [OF *] list_resort_def)
qed



section \<open>The timer state's invariant\<close>

text \<open>
  Every timer ever allocated is either active or free, never both, and the allocator hands out
  addresses below \<open>tm_brk\<close>.
\<close>

definition tmr_inv :: "'a tmr_state_scheme \<Rightarrow> bool" where
  "tmr_inv s \<longleftrightarrow> timers_ok (timers s) \<and> distinct (free_timers s) \<and>
     tm_addr ` set (timers s) \<inter> set (free_timers s) = {} \<and>
     (\<forall>a \<in> tm_addr ` set (timers s) \<union> set (free_timers s). a < tm_brk s)"

lemma c_div_mod_us: "c_div u 1000000 * 1000000 + c_mod u 1000000 = u"
  using c_div_mod [of 1000000 u] by (simp add: mult.commute)

lemma add_usecs_us [simp]: "tv_us (add_usecs t u) = tv_us t + u"
  using c_div_mod_us [of u] c_div_mod_us [of "tv_usec t + c_mod u 1000000"]
  by (simp add: add_usecs_def Let_def tv_us_def algebra_simps)

lemma add_usecs_normal: "tv_normal t \<Longrightarrow> 0 \<le> u \<Longrightarrow> tv_normal (add_usecs t u)"
  by (auto simp: add_usecs_def Let_def tv_normal_def)

lemma add_usecs_mono: "tv_normal t \<Longrightarrow> 0 \<le> u \<Longrightarrow> t \<le> add_usecs t u"
  using tv_le_us [of t "add_usecs t u"] add_usecs_normal [of t u] by simp

lemma tmr_inv_after [simp]: "tmr_inv (after s c) = tmr_inv s"
  by (simp add: tmr_inv_def after_def)

lemma after_timers [simp]:
  "timers (after s c) = timers s" "free_timers (after s c) = free_timers s" "tm_brk (after s c) = tm_brk s"
  by (simp_all add: after_def)

lemma find_timer_Some: "find_timer a ts = Some t \<Longrightarrow> t \<in> set ts \<and> tm_addr t = a"
  by (auto simp: find_timer_def find_Some_iff)

lemma find_timer_None: "find_timer a ts = None \<longleftrightarrow> a \<notin> tm_addr ` set ts"
  by (auto simp: find_timer_def find_None_iff image_iff)

lemma find_timer_in: "timers_ok ts \<Longrightarrow> t \<in> set ts \<Longrightarrow> find_timer (tm_addr t) ts = Some t"
  by (cases "find_timer (tm_addr t) ts")
    (auto simp: find_timer_None timers_ok_def distinct_map inj_on_def dest!: find_timer_Some)

lemma wp_getnow [wp_simps]:
  "wp (getnow (Some now)) Q s = Q now s"
  "wp (getnow None) Q s = wp gettimeofday (\<lambda>p. Q (snd p)) s"
  by (simp_all add: wp_simps case_prod_beta Let_def)

definition now_of :: "timeval option \<Rightarrow> 'a world_scheme \<Rightarrow> timeval" where
  "now_of nowP s = fst (run_state (getnow nowP) s)"

definition st_now :: "timeval option \<Rightarrow> 'a world_scheme \<Rightarrow> 'a world_scheme" where
  "st_now nowP s = (case nowP of Some _ \<Rightarrow> s | None \<Rightarrow> after s SGettimeofday)"

lemma run_getnow [simp]: "run_state (getnow nowP) s = (now_of nowP s, st_now nowP s)"
  by (cases nowP) (simp_all add: now_of_def st_now_def)

lemma now_of_Some [simp]: "now_of (Some now) s = now"
  by (simp add: now_of_def)

lemma st_now_simps [simp]: "timers (st_now nowP s) = timers s" "free_timers (st_now nowP s) = free_timers s"
  "tm_brk (st_now nowP s) = tm_brk s" "tmr_inv (st_now nowP s) = tmr_inv s"
  by (simp_all add: st_now_def split: option.split)

lemma tmr_inv_free:
  "tmr_inv s \<Longrightarrow> free_timers s = a # fs \<Longrightarrow>
     tmr_inv (s\<lparr>free_timers := fs\<rparr>) \<and> a \<notin> tm_addr ` set (timers s) \<and> a \<notin> set fs \<and> a < tm_brk s"
  by (auto simp: tmr_inv_def)

lemma tmr_inv_fresh:
  "tmr_inv s \<Longrightarrow> tmr_inv (s\<lparr>tm_brk := Suc (tm_brk s)\<rparr>) \<and> tm_brk s \<notin> tm_addr ` set (timers s) \<and>
     tm_brk s \<notin> set (free_timers s)"
  by (auto simp: tmr_inv_def less_Suc_eq)

text \<open>What an allocation leaves: the address is unknown to both lists, the rest is as before.\<close>

lemma tmr_alloc_wp:
  assumes "tmr_inv s"
  shows "wp tmr_alloc (\<lambda>r s'. tmr_inv s' \<and> timers s' = timers s \<and>
    (\<forall>a. r = Some a \<longrightarrow> a \<notin> tm_addr ` set (timers s) \<and> a \<notin> set (free_timers s') \<and> a < tm_brk s') \<and>
    (r = None \<longrightarrow> free_timers s = [])) s"
proof (cases "free_timers s")
  case Nil
  then show ?thesis
    using assms tmr_inv_fresh [of "after s (SMalloc ''Timer'')"]
    by (auto simp: tmr_alloc_def wp_simps)
next
  case (Cons a fs)
  then show ?thesis
    using assms tmr_inv_free [OF assms Cons] by (simp add: tmr_alloc_def wp_simps)
qed

lemma tmr_inv_add:
  "tmr_inv s \<Longrightarrow> tm_addr t \<notin> tm_addr ` set (timers s) \<Longrightarrow> tm_addr t \<notin> set (free_timers s) \<Longrightarrow>
     tm_addr t < tm_brk s \<Longrightarrow> tmr_inv (s\<lparr>timers := list_add t (timers s)\<rparr>)"
  by (auto simp: tmr_inv_def tq.add_ok)

lemma tmr_inv_cancel:
  assumes "tmr_inv s" "a \<in> tm_addr ` set (timers s)"
  shows "tmr_inv (tmr_cancel_st a s)"
proof -
  have ok: "timers_ok (timers s)" using assms by (simp add: tmr_inv_def)
  then have "set (list_remove a (timers s)) = {t \<in> set (timers s). tm_addr t \<noteq> a}"
    using assms tq.set_remove by blast
  then show ?thesis
    using assms tq.remove_ok [OF ok assms(2)] by (auto simp: tmr_inv_def tmr_cancel_st_def)
qed

lemma tmr_inv_resort:
  assumes "tmr_inv s" "tm_addr t \<in> tm_addr ` set (timers s)"
  shows "tmr_inv (s\<lparr>timers := list_resort t (timers s)\<rparr>)"
  using assms tq.resort_ok [of "timers s" t] tq.resort_addrs [of "timers s" t]
  by (simp add: tmr_inv_def)

lemma tmr_inv_reschedule:
  "tmr_inv s \<Longrightarrow> tmr_inv (s\<lparr>timers := reschedule a f (timers s)\<rparr>)"
  using tmr_inv_resort [of s] find_timer_Some [of a "timers s"]
  by (auto simp: reschedule_def split: option.split)

lemma wp_run: "wp m Q s \<Longrightarrow> Q (fst (run_state m s)) (snd (run_state m s))"
  by (simp add: wp_iff)

text \<open>
  \<open>tmr_create\<close> keeps the invariant of the timer lists. It fails only when the free list is empty
  and \<open>malloc\<close> fails, and then changes nothing; otherwise it returns an address that was not active,
  and the active list gains exactly one timer, which expires \<open>usecs\<close> microseconds after the current
  time.
\<close>

theorem tmr_create_correct:
  assumes "tmr_inv s"
    and run: "run_state (tmr_create nowP proc data usecs periodic) s = (r, s')"
  shows "tmr_inv s' \<and>
    (case r of
       None \<Rightarrow> timers s' = timers s \<and> free_timers s = []
     | Some a \<Rightarrow> a \<notin> tm_addr ` set (timers s) \<and>
         (\<exists>t. find_timer a (timers s') = Some t \<and> mset (timers s') = add_mset t (mset (timers s)) \<and>
            tm_proc t = proc \<and> tm_data t = data \<and> tm_usecs t = usecs \<and> tm_periodic t = periodic \<and>
            tv_us (tm_time t) = tv_us (now_of nowP s) + usecs))"
proof -
  let ?s = "st_now nowP s"
  obtain a s1 where al: "run_state tmr_alloc ?s = (a, s1)" by force
  have *: "tmr_inv s1 \<and> timers s1 = timers s \<and>
      (\<forall>b. a = Some b \<longrightarrow> b \<notin> tm_addr ` set (timers s) \<and> b \<notin> set (free_timers s1) \<and> b < tm_brk s1) \<and>
      (a = None \<longrightarrow> free_timers s = [])"
    using wpD [OF tmr_alloc_wp al] assms by simp
  show ?thesis
  proof (cases a)
    case None
    with run al * show ?thesis by (auto simp: tmr_create_def)
  next
    case (Some b)
    define t where "t = \<lparr>tm_addr = b, tm_proc = proc, tm_data = data, tm_usecs = usecs,
      tm_periodic = periodic, tm_time = add_usecs (now_of nowP s) usecs\<rparr>"
    have rs: "r = Some b" "s' = s1\<lparr>timers := list_add t (timers s1)\<rparr>"
      using run al Some by (auto simp: tmr_create_def t_def)
    have inv: "tmr_inv s'" using * Some rs tmr_inv_add [of s1 t] by (simp add: t_def)
    then have "find_timer b (timers s') = Some t"
      using find_timer_in [of "timers s'" t] rs by (simp add: tmr_inv_def t_def)
    with rs inv * Some show ?thesis by (auto simp: t_def)
  qed
qed

text \<open>
  \<open>tmr_timeout\<close> returns no timeout exactly when no timer is active, and otherwise the
  normalised time to the earliest expiry, 0 when a timer is already due: the \<open>select\<close> of the main
  loops never sleeps past a timer.
\<close>

theorem tmr_timeout_correct:
  assumes "tmr_inv s" and "tv_normal now" "\<forall>t \<in> set (timers s). tv_normal (tm_time t)"
  shows "case run_state (tmr_timeout (Some now)) s of
      (None, s') \<Rightarrow> timers s = [] \<and> s' = s
    | (Some d, s') \<Rightarrow> s' = s \<and> tv_normal d \<and>
        (\<forall>t \<in> set (timers s). tv_us d \<le> max 0 (tv_us (tm_time t) - tv_us now)) \<and>
        (\<exists>t \<in> set (timers s). tv_us d = max 0 (tv_us (tm_time t) - tv_us now))"
proof (cases "timers s")
  case Nil
  then show ?thesis by (simp add: tmr_timeout_def)
next
  case (Cons t ts)
  define d where "d = max 0 (tv_us (tm_time t) - tv_us now)"
  have run: "run_state (tmr_timeout (Some now)) s = (Some (Timeval (d div 1000000) (d mod 1000000)), s)"
    using Cons by (auto simp: tmr_timeout_def Let_def d_def tv_us_def algebra_simps max_def)
  have us: "tv_us (Timeval (d div 1000000) (d mod 1000000)) = d"
    by (simp add: tv_us_def)
  have "tv_us (tm_time t) \<le> tv_us (tm_time u)" if "u \<in> set (timers s)" for u
    using tq.head_earliest [of "timers s" t ts u] that Cons assms
    by (simp add: tmr_inv_def tv_le_us)
  then have le: "d \<le> max 0 (tv_us (tm_time u) - tv_us now)" if "u \<in> set (timers s)" for u
    using that unfolding d_def by (intro max.mono) auto
  have "\<exists>u \<in> set (timers s). d = max 0 (tv_us (tm_time u) - tv_us now)"
    unfolding d_def using Cons by auto
  moreover have "tv_normal (Timeval (d div 1000000) (d mod 1000000))"
    by (simp add: tv_normal_def)
  ultimately show ?thesis
    using le us by (auto simp: run simp flip: d_def)
qed

text \<open>
  \<open>tmr_destroy\<close> cancels every active timer and frees every timer structure.
\<close>

theorem tmr_destroy_empties: "case run_state tmr_destroy s of
   (_, s') \<Rightarrow> timers s' = [] \<and> free_timers s' = [] \<and> tm_brk s' = tm_brk s"
proof -
  have "timers (tmr_destroy_loop s) = [] \<and> tm_brk (tmr_destroy_loop s) = tm_brk s" for s :: "'a tmr_state_scheme"
    by (induction s rule: tmr_destroy_loop.induct)
      (subst (1 2) tmr_destroy_loop.simps, auto simp: tmr_cancel_st_def split: list.split)
  then show ?thesis by (simp add: tmr_destroy_def tmr_cleanup_def)
qed


section \<open>Running the due timers\<close>

definition due :: "timeval \<Rightarrow> timer \<Rightarrow> bool" where
  "due now t \<longleftrightarrow> \<not> tv_before now (tm_time t)"

text \<open>Times are normalised and a periodic timer moves forward.\<close>

definition timers_fit :: "'a tmr_state_scheme \<Rightarrow> bool" where
  "timers_fit s \<longleftrightarrow> tmr_inv s \<and>
     (\<forall>t \<in> set (timers s). tv_normal (tm_time t) \<and> (tm_periodic t \<longrightarrow> 1 \<le> tm_usecs t))"

text \<open>The work left at a time: how many microseconds each due timer is late, and one.\<close>

definition lateness :: "timeval \<Rightarrow> timer \<Rightarrow> nat" where
  "lateness now t = nat (tv_us now - tv_us (tm_time t) + 1)"

definition work :: "timeval \<Rightarrow> timer list \<Rightarrow> nat" where
  "work now ts = (\<Sum>t\<in>#mset ts. lateness now t)"

text \<open>
  A callback may reset other timers to a later time (as the omit timers do); it neither creates
  nor cancels any.
\<close>

definition postponed :: "'a tmr_state_scheme \<Rightarrow> 'a tmr_state_scheme \<Rightarrow> bool" where
  "postponed s s1 \<longleftrightarrow> tmr_inv s1 \<and>
     (\<exists>f. (\<forall>t \<in> set (timers s). tm_time t \<le> f t \<and> tv_normal (f t)) \<and>
        mset (timers s1) = image_mset (\<lambda>t. t\<lparr>tm_time := f t\<rparr>) (mset (timers s)))"

lemma postponed_refl: "timers_fit s \<Longrightarrow> tmr_inv s1 \<Longrightarrow> timers s1 = timers s \<Longrightarrow> postponed s s1"
  unfolding postponed_def by (intro conjI exI [of _ tm_time]) (auto simp: timers_fit_def)

lemma postponed_set:
  assumes "postponed s s1"
  obtains f where "\<forall>t \<in> set (timers s). tm_time t \<le> f t \<and> tv_normal (f t)"
    "set (timers s1) = (\<lambda>t. t\<lparr>tm_time := f t\<rparr>) ` set (timers s)"
proof -
  from assms obtain f where f: "\<forall>t \<in> set (timers s). tm_time t \<le> f t \<and> tv_normal (f t)"
    "mset (timers s1) = image_mset (\<lambda>t. t\<lparr>tm_time := f t\<rparr>) (mset (timers s))"
    by (auto simp: postponed_def)
  show thesis using that [OF f(1)] arg_cong [OF f(2), of set_mset] by simp
qed

lemma postponed_fit:
  assumes "timers_fit s" "postponed s s1"
  shows "timers_fit s1"
proof -
  have "tmr_inv s1" using assms by (simp add: postponed_def)
  with assms show ?thesis by (elim postponed_set) (auto simp: timers_fit_def)
qed

lemma postponed_addrs: "postponed s s1 \<Longrightarrow> tm_addr ` set (timers s1) = tm_addr ` set (timers s)"
  by (elim postponed_set) (auto simp: image_iff)

lemma lateness_mono:
  "tv_normal (tm_time t) \<Longrightarrow> tv_normal (tm_time u) \<Longrightarrow> tm_time t \<le> tm_time u \<Longrightarrow>
     lateness now u \<le> lateness now t"
  using tv_le_us [of "tm_time t" "tm_time u"] by (simp add: lateness_def)

lemma lateness_due: "tv_normal now \<Longrightarrow> tv_normal (tm_time t) \<Longrightarrow> due now t \<longleftrightarrow> 0 < lateness now t"
  using tv_less_us [of now "tm_time t"] by (auto simp: due_def lateness_def)

lemma work_remove:
  "timers_ok ts \<Longrightarrow> t \<in> set ts \<Longrightarrow>
     work now ts = lateness now t + work now (list_remove (tm_addr t) ts)"
proof (induction ts)
  case (Cons u ts)
  then show ?case
  proof (cases "u = t")
    case False
    with Cons.prems have "tm_addr u \<noteq> tm_addr t" "t \<in> set ts"
      by (auto simp: timers_ok_def image_iff)
    with Cons show ?thesis by (simp add: work_def timers_ok_def)
  qed (simp add: work_def)
qed simp

lemma work_add [simp]: "work now (list_add t ts) = lateness now t + work now ts"
  by (simp add: work_def)

text \<open>One turn of the loop leaves less work, and keeps the state in shape.\<close>

lemma postponed_work:
  assumes "timers_fit s" "postponed s s1" "t \<in> set (timers s)" "t1 \<in> set (timers s1)"
    and "tm_addr t1 = tm_addr t"
  shows "work now (timers s1) + (lateness now t - lateness now t1) \<le> work now (timers s) \<and>
    lateness now t1 \<le> lateness now t"
proof -
  obtain f where f: "\<forall>t \<in> set (timers s). tm_time t \<le> f t \<and> tv_normal (f t)"
    "mset (timers s1) = image_mset (\<lambda>t. t\<lparr>tm_time := f t\<rparr>) (mset (timers s))"
    using assms by (auto simp: postponed_def)
  let ?g = "\<lambda>t. t\<lparr>tm_time := f t\<rparr>"
  have le: "lateness now (?g u) \<le> lateness now u" if "u \<in> set (timers s)" for u
    using f(1) that assms(1) by (auto simp: timers_fit_def intro!: lateness_mono)
  have inj: "\<And>u v. u \<in> set (timers s1) \<Longrightarrow> v \<in> set (timers s1) \<Longrightarrow> tm_addr u = tm_addr v \<Longrightarrow> u = v"
    using assms(2) by (auto simp: postponed_def tmr_inv_def timers_ok_def distinct_map inj_on_def)
  have "?g t \<in> set (timers s1)"
    using arg_cong [OF f(2), of set_mset] assms(3) by auto
  then have t1: "t1 = ?g t" using inj [of t1 "?g t"] assms by simp
  have sum: "(\<Sum>u\<in>#M. lateness now (?g u)) \<le> (\<Sum>u\<in>#M. lateness now u)"
    if "set_mset M \<subseteq> set (timers s)" for M
    using that le by (induction M) (auto intro: add_mono)
  obtain M where M: "mset (timers s) = add_mset t M"
    using assms(3) by (metis multi_member_split set_mset_mset)
  then have "set_mset M \<subseteq> set (timers s)"
    by (metis set_mset_mset set_mset_add_mset_insert subset_insertI)
  then show ?thesis
    using sum [of M] le [OF assms(3)] by (simp add: work_def f(2) M t1 image_mset.compositionality comp_def)
qed

lemma rearm_work:
  assumes "timers_fit s" "t \<in> set (timers s)"
  shows "timers_fit (tmr_rearm t s) \<and> work now (timers (tmr_rearm t s)) \<le> work now (timers s) \<and>
    (0 < lateness now t \<longrightarrow> work now (timers (tmr_rearm t s)) < work now (timers s)) \<and>
    tm_addr ` set (timers s) - {tm_addr t} \<subseteq> tm_addr ` set (timers (tmr_rearm t s))"
proof -
  have inv: "tmr_inv s" and ok: "timers_ok (timers s)"
    using assms by (auto simp: timers_fit_def tmr_inv_def)
  have mem: "tm_addr t \<in> tm_addr ` set (timers s)" using assms by simp
  have w: "work now (timers s) = lateness now t + work now (list_remove (tm_addr t) (timers s))"
    using ok assms(2) by (rule work_remove)
  have rem: "set (list_remove (tm_addr t) (timers s)) = {u \<in> set (timers s). tm_addr u \<noteq> tm_addr t}"
    using ok mem by (rule tq.set_remove)
  have fit_t: "tv_normal (tm_time t)" "tm_periodic t \<Longrightarrow> 1 \<le> tm_usecs t"
    using assms by (auto simp: timers_fit_def)
  show ?thesis
  proof (cases "tm_periodic t")
    case True
    let ?t = "t\<lparr>tm_time := add_usecs (tm_time t) (tm_usecs t)\<rparr>"
    have l: "lateness now ?t \<le> lateness now t" "0 < lateness now t \<Longrightarrow> lateness now ?t < lateness now t"
      using fit_t True by (auto simp: lateness_def)
    have n: "tv_normal (tm_time ?t)" using fit_t True by (simp add: add_usecs_normal)
    have eq: "timers (tmr_rearm t s) = list_add ?t (list_remove (tm_addr t) (timers s))"
      using True by (simp add: tmr_rearm_def list_resort_def)
    have "tmr_inv (tmr_rearm t s)"
      using True tmr_inv_resort [OF inv, of ?t] mem by (simp add: tmr_rearm_def)
    then have "timers_fit (tmr_rearm t s)"
      using assms n fit_t True by (auto simp: timers_fit_def eq rem)
    then show ?thesis using l w by (auto simp: eq rem)
  next
    case False
    then have eq: "timers (tmr_rearm t s) = list_remove (tm_addr t) (timers s)"
      by (simp add: tmr_rearm_def tmr_cancel_st_def)
    have "tmr_inv (tmr_rearm t s)"
      using False tmr_inv_cancel [OF inv mem] by (simp add: tmr_rearm_def)
    then have "timers_fit (tmr_rearm t s)"
      using assms by (auto simp: timers_fit_def eq rem)
    then show ?thesis using w by (auto simp: eq rem)
  qed
qed

lemma succ_of_in: "succ_of a ts = Some b \<Longrightarrow> distinct (map tm_addr ts) \<Longrightarrow> b \<in> tm_addr ` set ts \<and> b \<noteq> a"
  by (induction ts) (auto split: if_splits list.splits)

text \<open>
  The rule for \<open>tmr_run\<close>: the loop ends, and an invariant \<open>I\<close> of the pair (next pointer, state) that
  every turn keeps holds when it does, at the end of the list or at a timer that is not due.
\<close>

lemma tmr_run_loop_rule:
  assumes fit: "timers_fit s" and now: "tv_normal now"
    and cb: "\<And>u t. timers_fit u \<Longrightarrow> I (Some (tm_addr t)) u \<Longrightarrow> t \<in> set (timers u) \<Longrightarrow> due now t \<Longrightarrow>
      postponed u (cb (tm_proc t) (tm_data t) now u)"
    and ptr: "\<And>a. p = Some a \<Longrightarrow> a \<in> tm_addr ` set (timers s)"
    and I: "I p s"
    and step: "\<And>u t t1. timers_fit u \<Longrightarrow> I (Some (tm_addr t)) u \<Longrightarrow> t \<in> set (timers u) \<Longrightarrow> due now t \<Longrightarrow>
      find_timer (tm_addr t) (timers (cb (tm_proc t) (tm_data t) now u)) = Some t1 \<Longrightarrow>
      I (succ_of (tm_addr t) (timers u)) (tmr_rearm t1 (cb (tm_proc t) (tm_data t) now u))"
  shows "\<exists>s' p'. tmr_run_loop cb now p s = Some s' \<and> timers_fit s' \<and> I p' s' \<and>
    (\<forall>a. p' = Some a \<longrightarrow> (\<exists>t. find_timer a (timers s') = Some t \<and> \<not> due now t))"
  using fit ptr I
proof (induction "work now (timers s)" arbitrary: p s rule: less_induct)
  case less
  show ?case
  proof (cases p)
    case None
    with less.prems show ?thesis by (subst tmr_run_loop.simps) auto
  next
    case (Some a)
    then obtain t where t: "t \<in> set (timers s)" "tm_addr t = a"
      using less.prems by auto
    have ok: "timers_ok (timers s)" using less.prems by (simp add: timers_fit_def tmr_inv_def)
    have ft: "find_timer a (timers s) = Some t" using find_timer_in [OF ok t(1)] t by simp
    show ?thesis
    proof (cases "due now t")
      case False
      with Some ft less.prems show ?thesis
        by (subst tmr_run_loop.simps) (auto simp: due_def)
    next
      case True
      define s1 where "s1 = cb (tm_proc t) (tm_data t) now s"
      have post: "postponed s s1" using cb [of s t] less.prems t True Some by (simp add: s1_def)
      then have fit1: "timers_fit s1" using less.prems postponed_fit by blast
      obtain t1 where t1: "find_timer a (timers s1) = Some t1"
        using postponed_addrs [OF post] t find_timer_None [of a "timers s1"]
        by (cases "find_timer a (timers s1)") auto
      then have t1': "t1 \<in> set (timers s1)" "tm_addr t1 = a" using find_timer_Some by blast+
      let ?s2 = "tmr_rearm t1 s1" and ?p2 = "succ_of a (timers s)"
      have w1: "work now (timers s1) + (lateness now t - lateness now t1) \<le> work now (timers s)"
        using postponed_work [OF less.prems(1) post t(1) t1'(1)] t(2) t1'(2) by blast
      have late: "0 < lateness now t"
        using lateness_due [OF now] True t less.prems by (auto simp: timers_fit_def)
      have rw: "timers_fit ?s2" "work now (timers ?s2) \<le> work now (timers s1)"
        "0 < lateness now t1 \<Longrightarrow> work now (timers ?s2) < work now (timers s1)"
        "tm_addr ` set (timers s1) - {a} \<subseteq> tm_addr ` set (timers ?s2)"
        using rearm_work [OF fit1 t1'(1), of now] t1' by auto
      have less_work: "work now (timers ?s2) < work now (timers s)"
        using w1 rw(2,3) late by (cases "lateness now t1 = 0") auto
      have ptr2: "b \<in> tm_addr ` set (timers ?s2)" if "?p2 = Some b" for b
        using succ_of_in [OF that] ok rw(4) postponed_addrs [OF post] by (auto simp: timers_ok_def)
      have I2: "I ?p2 ?s2"
        using step [of s t t1] less.prems t Some True t1 by (simp add: s1_def)
      have "tmr_run_loop cb now p s = tmr_run_loop cb now ?p2 ?s2"
        using Some ft True t1
        by (subst tmr_run_loop.simps) (simp add: due_def s1_def [symmetric] Let_def)
      with less.hyps [OF less_work rw(1) ptr2 I2] show ?thesis by simp
    qed
  qed
qed

section \<open>The contract of the procedures\<close>

text \<open>
  What \<open>tmr_run\<close> relies on in the procedures it calls. While \<open>J\<close> holds they may postpone timers but
  neither create nor cancel one, and after a procedure and the rearming of its timer \<open>J\<close> holds again.
\<close>

locale timer_procs =
  fixes cb :: "timer_proc \<Rightarrow> client_data \<Rightarrow> timeval \<Rightarrow> 'a tmr_state_scheme \<Rightarrow> 'a tmr_state_scheme"
    and J :: "timeval \<Rightarrow> 'a tmr_state_scheme \<Rightarrow> bool"
  assumes postpones: "timers_fit u \<Longrightarrow> tv_normal now \<Longrightarrow> J now u \<Longrightarrow> t \<in> set (timers u) \<Longrightarrow>
      postponed u (cb (tm_proc t) (tm_data t) now u)"
    and rearms: "timers_fit u \<Longrightarrow> tv_normal now \<Longrightarrow> J now u \<Longrightarrow> t \<in> set (timers u) \<Longrightarrow> due now t \<Longrightarrow>
      find_timer (tm_addr t) (timers (cb (tm_proc t) (tm_data t) now u)) = Some t1 \<Longrightarrow>
      J now (tmr_rearm t1 (cb (tm_proc t) (tm_data t) now u))"
begin

lemma rearmed_addrs:
  assumes "timers_fit u" "tv_normal now" "J now u" "t \<in> set (timers u)"
    and "find_timer (tm_addr t) (timers (cb (tm_proc t) (tm_data t) now u)) = Some t1"
  shows "tm_addr ` set (timers (tmr_rearm t1 (cb (tm_proc t) (tm_data t) now u))) \<subseteq> tm_addr ` set (timers u)"
proof -
  let ?u1 = "cb (tm_proc t) (tm_data t) now u"
  have post: "postponed u ?u1" using postpones assms(1-4) .
  have "t1 \<in> set (timers ?u1)" using find_timer_Some [OF assms(5)] by simp
  then have "tm_addr ` set (timers (tmr_rearm t1 ?u1)) \<subseteq> tm_addr ` set (timers ?u1)"
    using tq.resort_addrs [of "timers ?u1" "t1\<lparr>tm_time := add_usecs (tm_time t1) (tm_usecs t1)\<rparr>"]
      set_list_remove_subset [of "tm_addr t1" "timers ?u1"] postponed_fit [OF assms(1) post]
    by (auto simp: tmr_rearm_def tmr_cancel_st_def timers_fit_def tmr_inv_def)
  then show ?thesis using postponed_addrs [OF post] by simp
qed

text \<open>Then every run returns, with \<open>J\<close> and the timers in shape for the next one.\<close>

lemma returns:
  assumes "timers_fit s" "tv_normal now" "J now s"
  shows "\<exists>s'. tmr_run cb (Some now) s = Some s' \<and> timers_fit s' \<and> J now s' \<and>
    tm_addr ` set (timers s') \<subseteq> tm_addr ` set (timers s)"
proof -
  let ?I = "\<lambda>p u. J now u \<and> tm_addr ` set (timers u) \<subseteq> tm_addr ` set (timers s)"
  have "\<exists>s' p'. tmr_run_loop cb now (first_timer (timers s)) s = Some s' \<and> timers_fit s' \<and> ?I p' s' \<and>
    (\<forall>a. p' = Some a \<longrightarrow> (\<exists>t. find_timer a (timers s') = Some t \<and> \<not> due now t))"
  proof (rule tmr_run_loop_rule [where I = ?I and s = s and cb = cb and now = now])
    fix u t t1
    assume u: "timers_fit u" "?I (Some (tm_addr t)) u" "t \<in> set (timers u)" "due now t"
      and t1: "find_timer (tm_addr t) (timers (cb (tm_proc t) (tm_data t) now u)) = Some t1"
    have J: "J now u" using u(2) by (rule conjunct1)
    show "?I (succ_of (tm_addr t) (timers u)) (tmr_rearm t1 (cb (tm_proc t) (tm_data t) now u))"
      using rearms [OF u(1) assms(2) J u(3,4) t1] order_trans [OF rearmed_addrs [OF u(1) assms(2) J u(3) t1] conjunct2 [OF u(2)]]
      by (rule conjI)
  next
    fix u t assume u: "timers_fit u" "?I (Some (tm_addr t)) u" "t \<in> set (timers u)"
    show "postponed u (cb (tm_proc t) (tm_data t) now u)" by (rule postpones [OF u(1) assms(2) conjunct1 [OF u(2)] u(3)])
  qed (use assms in \<open>auto simp: first_timer_def split: list.splits\<close>)
  then show ?thesis by (auto simp: tmr_run_def st_now_def)
qed

end

text \<open>Procedures that leave some observation of the state alone; so do all runs of them.\<close>

locale blind_procs =
  fixes cb :: "timer_proc \<Rightarrow> client_data \<Rightarrow> timeval \<Rightarrow> 'a tmr_state_scheme \<Rightarrow> 'a tmr_state_scheme"
    and obs :: "'a tmr_state_scheme \<Rightarrow> 'b"
  assumes blind: "obs (cb p cd now u) = obs u"
    and rearm_blind: "obs (tmr_rearm t u) = obs u"
begin

lemma loop_blind: "tmr_run_loop c now p s = Some s' \<Longrightarrow> c = cb \<Longrightarrow> obs s' = obs s"
proof (induction c now p s s' rule: tmr_run_loop.raw_induct [rotated 1, consumes 1, case_names step])
  case (step loop c now p s s')
  then show ?case
    by (auto simp: Let_def blind rearm_blind split: option.splits if_splits dest!: step.IH)
qed

lemma run_blind: "tmr_run cb (Some now) s = Some s' \<Longrightarrow> obs s' = obs s"
  by (auto simp: tmr_run_def dest: loop_blind)

end

text \<open>
  \<open>tmr_run\<close> returns. Its loop re-inserts periodic timers into the list it is walking, so it
  could chase its own tail; with periods of at least a microsecond and callbacks that at most
  postpone timers it ends, for any number of missed periods, and leaves the lists in shape.
\<close>

theorem tmr_run_terminates:
  assumes "timers_fit s" "tv_normal now"
    and "\<And>p d u. timers_fit u \<Longrightarrow> postponed u (cb p d now u)"
  shows "\<exists>s'. tmr_run cb (Some now) s = Some s' \<and> timers_fit s' \<and> tm_addr ` set (timers s') \<subseteq> tm_addr ` set (timers s)"
proof -
  have "timer_procs cb (\<lambda>n _. n = now)" using assms(3) by unfold_locales simp_all
  from timer_procs.returns [OF this assms(1,2)] show ?thesis by blast
qed

text \<open>A timer sorted in anywhere leaves a pointer's tail of the list intact.\<close>

lemma list_add_split:
  "\<exists>pre' suf'. list_add t (pre @ v # suf) = pre' @ v # suf' \<and> set suf \<subseteq> set suf'"
proof (induction pre)
  case Nil
  show ?case
  proof (cases "tv_before (tm_time t) (tm_time v)")
    case True
    then show ?thesis by (intro exI [of _ "[t]"] exI [of _ suf]) simp
  next
    case False
    then show ?thesis by (intro exI [of _ "[]"] exI [of _ "list_add t suf"]) auto
  qed
next
  case (Cons u pre)
  then obtain pre' suf' where *: "list_add t (pre @ v # suf) = pre' @ v # suf'" "set suf \<subseteq> set suf'" by blast
  show ?case
  proof (cases "tv_before (tm_time t) (tm_time u)")
    case True
    then show ?thesis by (intro exI [of _ "t # u # pre"] exI [of _ suf]) simp
  next
    case False
    with * show ?thesis by (intro exI [of _ "u # pre'"] exI [of _ suf']) simp
  qed
qed

lemma succ_of_split: "distinct (map tm_addr (pre @ t # suf)) \<Longrightarrow>
    succ_of (tm_addr t) (pre @ t # suf) = first_timer suf"
  by (induction pre) (auto simp: first_timer_def split: list.split)

lemma list_remove_split: "distinct (map tm_addr (pre @ t # suf)) \<Longrightarrow>
    list_remove (tm_addr t) (pre @ t # suf) = pre @ suf"
  by (induction pre) auto

text \<open>The part of the list from a pointer on.\<close>

definition tail_at :: "nat option \<Rightarrow> timer list \<Rightarrow> timer list" where
  "tail_at p ts = dropWhile (\<lambda>t. Some (tm_addr t) \<noteq> p) ts"

lemma tail_at_None [simp]: "tail_at None ts = []"
  by (simp add: tail_at_def)

lemma tail_at_first [simp]: "tail_at (first_timer ts) ts = ts"
  by (cases ts) (simp_all add: tail_at_def first_timer_def)

lemma first_timer_in: "first_timer ts = Some a \<Longrightarrow> a \<in> tm_addr ` set ts"
  by (simp add: first_timer_def split: list.splits)

lemma tail_at_split: "distinct (map tm_addr (pre @ t # suf)) \<Longrightarrow>
    tail_at (Some (tm_addr t)) (pre @ t # suf) = t # suf"
  by (induction pre) (auto simp: tail_at_def)

lemma tail_at_le: "timers_ok ts \<Longrightarrow> t \<in> set (tail_at (Some a) ts) \<Longrightarrow>
    \<exists>v. find_timer a ts = Some v \<and> tm_time v \<le> tm_time t"
  by (induction ts) (auto simp: tail_at_def find_timer_def timers_ok_def)

lemma tail_at_rearm:
  assumes "timers_fit u" "t \<in> set (timers u)"
  shows "set (tail_at (Some (tm_addr t)) (timers u)) - {t} \<subseteq>
    set (tail_at (succ_of (tm_addr t) (timers u)) (timers (tmr_rearm t u)))"
proof -
  obtain pre suf where sp: "timers u = pre @ t # suf"
    using assms(2) by (auto simp: in_set_conv_decomp)
  have dist: "distinct (map tm_addr (pre @ t # suf))"
    using assms(1) sp by (simp add: timers_fit_def tmr_inv_def timers_ok_def)
  have ok2: "timers_ok (timers (tmr_rearm t u))"
    using rearm_work [OF assms] by (simp add: timers_fit_def tmr_inv_def)
  have "set suf \<subseteq> set (tail_at (first_timer suf) (timers (tmr_rearm t u)))"
  proof (cases suf)
    case (Cons v suf0)
    have rm: "list_remove (tm_addr t) (timers u) = pre @ v # suf0"
      using sp list_remove_split [OF dist] Cons by simp
    obtain pre' suf' where "timers (tmr_rearm t u) = pre' @ v # suf'" "set suf0 \<subseteq> set suf'"
      using rm list_add_split [of "t\<lparr>tm_time := add_usecs (tm_time t) (tm_usecs t)\<rparr>" pre v suf0]
      by (cases "tm_periodic t") (auto simp: tmr_rearm_def list_resort_def tmr_cancel_st_def)
    then show ?thesis
      using ok2 Cons tail_at_split [of pre' v suf'] by (auto simp: timers_ok_def first_timer_def)
  qed simp
  then show ?thesis
    using tail_at_split [OF dist] succ_of_split [OF dist] sp by auto
qed

text \<open>
  Procedures that leave the timers alone and do something observable: \<open>Fired t\<close> holds of the state once
  the procedure of \<open>t\<close> has run, and the other procedures keep it.
\<close>

locale firing_procs =
  fixes cb :: "timer_proc \<Rightarrow> client_data \<Rightarrow> timeval \<Rightarrow> 'a tmr_state_scheme \<Rightarrow> 'a tmr_state_scheme"
    and J :: "timeval \<Rightarrow> 'a tmr_state_scheme \<Rightarrow> bool"
    and Fired :: "timer \<Rightarrow> 'a tmr_state_scheme \<Rightarrow> bool"
  assumes quiet: "timers_fit u \<Longrightarrow> J now u \<Longrightarrow> t \<in> set (timers u) \<Longrightarrow> timers (cb (tm_proc t) (tm_data t) now u) = timers u \<and>
      free_timers (cb (tm_proc t) (tm_data t) now u) = free_timers u \<and> tm_brk (cb (tm_proc t) (tm_data t) now u) = tm_brk u"
    and keep: "timers_fit u \<Longrightarrow> J now u \<Longrightarrow> t \<in> set (timers u) \<Longrightarrow> J now (tmr_rearm t (cb (tm_proc t) (tm_data t) now u))"
    and fired: "timers_fit u \<Longrightarrow> J now u \<Longrightarrow> t \<in> set (timers u) \<Longrightarrow> Fired t (tmr_rearm t (cb (tm_proc t) (tm_data t) now u))"
    and once: "timers_fit u \<Longrightarrow> J now u \<Longrightarrow> t' \<in> set (timers u) \<Longrightarrow> Fired t u \<Longrightarrow>
      Fired t (tmr_rearm t' (cb (tm_proc t') (tm_data t') now u))"
begin

lemma quiet_postpones:
  assumes "timers_fit u" "J now u" "t \<in> set (timers u)"
  shows "timers_fit (cb (tm_proc t) (tm_data t) now u) \<and> postponed u (cb (tm_proc t) (tm_data t) now u)"
proof -
  have "tmr_inv (cb (tm_proc t) (tm_data t) now u) = tmr_inv u" using quiet [OF assms] by (simp add: tmr_inv_def)
  then show ?thesis using quiet [OF assms] assms(1) by (simp add: timers_fit_def postponed_refl)
qed

lemma quiet_found:
  assumes "timers_fit u" "J now u" "t \<in> set (timers u)"
    and "find_timer (tm_addr t) (timers (cb (tm_proc t) (tm_data t) now u)) = Some t1"
  shows "t1 = t"
  using assms(4) quiet [OF assms(1-3)] find_timer_in [of "timers u" t] assms(1,3) by (simp add: timers_fit_def tmr_inv_def)

lemma fires:
  assumes fit: "timers_fit s" and now: "tv_normal now" and J: "J now s"
  shows "\<exists>s'. tmr_run cb (Some now) s = Some s' \<and> timers_fit s' \<and> J now s' \<and> (\<forall>t \<in> set (timers s). due now t \<longrightarrow> Fired t s')"
proof -
  let ?I = "\<lambda>p u. J now u \<and> (\<forall>t \<in> set (timers s). due now t \<longrightarrow> Fired t u \<or> t \<in> set (tail_at p (timers u)))"
  have "\<exists>s' p'. tmr_run_loop cb now (first_timer (timers s)) s = Some s' \<and> timers_fit s' \<and> ?I p' s' \<and>
    (\<forall>a. p' = Some a \<longrightarrow> (\<exists>t. find_timer a (timers s') = Some t \<and> \<not> due now t))"
  proof (rule tmr_run_loop_rule [where I = ?I and s = s and cb = cb and now = now])
    fix u t t1
    assume fitu: "timers_fit u" and I: "?I (Some (tm_addr t)) u" and t: "t \<in> set (timers u)"
      and t1: "find_timer (tm_addr t) (timers (cb (tm_proc t) (tm_data t) now u)) = Some t1"
    let ?u1 = "cb (tm_proc t) (tm_data t) now u"
    have Ju: "J now u" using I by blast
    have tu: "timers ?u1 = timers u" using quiet [OF fitu Ju t] by blast
    have "t1 = t" using quiet_found [OF fitu Ju t t1] .
    moreover have "set (tail_at (Some (tm_addr t)) (timers u)) - {t} \<subseteq>
        set (tail_at (succ_of (tm_addr t) (timers u)) (timers (tmr_rearm t ?u1)))"
      using tail_at_rearm [of ?u1 t] quiet_postpones [OF fitu Ju t] tu t by simp
    ultimately show "?I (succ_of (tm_addr t) (timers u)) (tmr_rearm t1 ?u1)"
      using I keep [OF fitu Ju t] fired [OF fitu Ju t] once [OF fitu Ju t] by blast
  next
    fix u t assume "timers_fit u" "?I (Some (tm_addr t)) u" "t \<in> set (timers u)"
    then show "postponed u (cb (tm_proc t) (tm_data t) now u)" using quiet_postpones by blast
  qed (use fit now J first_timer_in in auto)
  then obtain s' p' where s': "tmr_run_loop cb now (first_timer (timers s)) s = Some s'" "timers_fit s'" "?I p' s'"
    "\<forall>a. p' = Some a \<longrightarrow> (\<exists>t. find_timer a (timers s') = Some t \<and> \<not> due now t)" by blast
  have "t \<notin> set (tail_at p' (timers s'))" if "due now t" for t
    using s'(2,4) that tail_at_le [of "timers s'" t]
    by (cases p') (fastforce simp: timers_fit_def tmr_inv_def due_def)+
  with s'(1,2,3) show ?thesis by (auto simp: tmr_run_def st_now_def)
qed

end

text \<open>Such procedures meet the contract of \<open>tmr_run\<close>.\<close>

sublocale firing_procs \<subseteq> timer_procs cb J
proof
  fix u now t
  assume u: "timers_fit u" "J now u" "t \<in> set (timers u)"
  then show "postponed u (cb (tm_proc t) (tm_data t) now u)" by (simp add: quiet_postpones)
  fix t1
  assume "find_timer (tm_addr t) (timers (cb (tm_proc t) (tm_data t) now u)) = Some t1"
  then have "t1 = t" by (rule quiet_found [OF u])
  then show "J now (tmr_rearm t1 (cb (tm_proc t) (tm_data t) now u))" using keep [OF u] by simp
qed


section \<open>Instances\<close>

definition ex_timer :: "nat \<Rightarrow> timer_proc \<Rightarrow> int \<Rightarrow> bool \<Rightarrow> int \<Rightarrow> timer" where
  "ex_timer a p u per sec = \<lparr>tm_addr = a, tm_proc = p, tm_data = Test_ptr, tm_usecs = u,
     tm_periodic = per, tm_time = Timeval sec 0\<rparr>"

definition ex_tmr :: "timer_proc list tmr_state_scheme" where
  "ex_tmr = \<lparr>w_oracle = (\<lambda>_. SysRet 0 0 [] []), w_trace = [], errno = 0, h_errno = 0, i_errno = 0,
     timers = [ex_timer 1 Client_stats_timer_proc 1000000 True 3, ex_timer 2 Test_timer_proc 9000000 False 10],
     free_timers = [0], tm_brk = 3, \<dots> = []\<rparr>"

lemma ex_tmr_fit [simp]: "timers_fit ex_tmr"
  by (auto simp: timers_fit_def ex_tmr_def ex_timer_def tmr_inv_def timers_ok_def tv_normal_def
      less_eq_timeval_def)

lemma ex_tmr_inv [simp]: "tmr_inv ex_tmr"
  using ex_tmr_fit by (simp add: timers_fit_def)

text \<open>A callback that notes which procedure ran.\<close>

definition ex_cb :: "timer_proc \<Rightarrow> client_data \<Rightarrow> timeval \<Rightarrow> timer_proc list tmr_state_scheme \<Rightarrow>
    timer_proc list tmr_state_scheme" where
  "ex_cb p d now s = tmr_state.more_update (\<lambda>l. p # l) s"

lemma ex_cb_simps [simp]: "timers (ex_cb p d now s) = timers s"
  "free_timers (ex_cb p d now s) = free_timers s" "tm_brk (ex_cb p d now s) = tm_brk s"
  "tmr_state.more (ex_cb p d now s) = p # tmr_state.more s"
  by (simp_all add: ex_cb_def)

theorem tmr_create_correct_witness:
  "\<exists>s' t. run_state (tmr_create (Some (Timeval 5 0)) Send_timer_proc Test_ptr 2500000 True) ex_tmr = (Some 0, s') \<and>
     tmr_inv s' \<and> find_timer 0 (timers s') = Some t \<and> tv_us (tm_time t) = 7500000"
proof -
  have run: "run_state (tmr_create (Some (Timeval 5 0)) Send_timer_proc Test_ptr 2500000 True) ex_tmr =
      (Some 0, snd (run_state (tmr_create (Some (Timeval 5 0)) Send_timer_proc Test_ptr 2500000 True) ex_tmr))"
    by (simp add: tmr_create_def tmr_alloc_def ex_tmr_def st_now_def)
  then show ?thesis
    using tmr_create_correct [OF ex_tmr_inv run] by (auto simp: tv_us_def)
qed

theorem tmr_timeout_correct_witness:
  "fst (run_state (tmr_timeout (Some (Timeval 2 400000))) ex_tmr) = Some (Timeval 0 600000) \<and>
   (\<exists>t \<in> set (timers ex_tmr). tv_us (Timeval 0 600000) = max 0 (tv_us (tm_time t) - tv_us (Timeval 2 400000)))"
proof -
  have run: "run_state (tmr_timeout (Some (Timeval 2 400000))) ex_tmr = (Some (Timeval 0 600000), ex_tmr)"
    by (simp add: tmr_timeout_def ex_tmr_def ex_timer_def st_now_def Let_def)
  have "\<forall>t \<in> set (timers ex_tmr). tv_normal (tm_time t)"
    by (simp add: ex_tmr_def ex_timer_def tv_normal_def)
  then show ?thesis
    using tmr_timeout_correct [OF ex_tmr_inv, of "Timeval 2 400000"] run by (simp add: tv_normal_def)
qed

theorem tmr_run_terminates_witness:
  "\<exists>s'. tmr_run ex_cb (Some (Timeval 20 0)) ex_tmr = Some s' \<and> timers_fit s' \<and>
     tm_addr ` set (timers s') \<subseteq> {1, 2}"
proof -
  have "tmr_inv (ex_cb p d now u) = tmr_inv u" for p d now u by (simp add: tmr_inv_def)
  then have "postponed u (ex_cb p d (Timeval 20 0) u)" if "timers_fit u" for p d u
    using that by (intro postponed_refl) (auto simp: timers_fit_def)
  from tmr_run_terminates [where cb = ex_cb, OF ex_tmr_fit _ this] show ?thesis
    by (simp add: tv_normal_def ex_tmr_def ex_timer_def)
qed


end
