(* ===== verification/Cjson.thy ===== *)
theory Cjson
  imports CDouble "HOL-Library.Word"
begin

text \<open>
  \<open>cjson.c\<close>, \<open>cjson.h\<close>: the JSON items and the operations that build, search, edit and copy them. An
  item is a tree: the chain of children that the code links through \<open>child\<close>, \<open>next\<close> and \<open>prev\<close> is a
  list, a \<open>char *\<close> that may be null is an option, and an operation that updates an item through a
  pointer returns the updated item. Allocation of items is taken to succeed. Printing is in
  \<open>Cjson_Print\<close>, parsing in \<open>Cjson_Parse\<close>.
\<close>

unbundle bit_operations_syntax

section \<open>Items\<close>

definition cJSON_False :: int where "cJSON_False = 0"
definition cJSON_True :: int where "cJSON_True = 1"
definition cJSON_NULL :: int where "cJSON_NULL = 2"
definition cJSON_Number :: int where "cJSON_Number = 3"
definition cJSON_String :: int where "cJSON_String = 4"
definition cJSON_Array :: int where "cJSON_Array = 5"
definition cJSON_Object :: int where "cJSON_Object = 6"
definition cJSON_IsReference :: int where "cJSON_IsReference = 256"
definition cJSON_StringIsConst :: int where "cJSON_StringIsConst = 512"

lemmas json_types = cJSON_False_def cJSON_True_def cJSON_NULL_def cJSON_Number_def cJSON_String_def
  cJSON_Array_def cJSON_Object_def

datatype cJSON = CJ
  (cj_type: int)
  (cj_valuestring: "string option")
  (cj_valueint: int)
  (cj_valuedouble: double)
  (cj_string: "string option")
  (cj_child: "cJSON list")

definition cJSON_New_Item :: cJSON where
  "cJSON_New_Item = CJ 0 None 0 (Fin 0) None []"

fun cj_set_type :: "int \<Rightarrow> cJSON \<Rightarrow> cJSON" where
  "cj_set_type t (CJ _ vs vi vd nm ch) = CJ t vs vi vd nm ch"

fun cj_set_string :: "string option \<Rightarrow> cJSON \<Rightarrow> cJSON" where
  "cj_set_string nm (CJ t vs vi vd _ ch) = CJ t vs vi vd nm ch"

fun cj_set_child :: "cJSON list \<Rightarrow> cJSON \<Rightarrow> cJSON" where
  "cj_set_child ch (CJ t vs vi vd nm _) = CJ t vs vi vd nm ch"

lemma cj_set_sel [simp]:
  "cj_type (cj_set_string nm c) = cj_type c" "cj_string (cj_set_string nm c) = nm"
  "cj_child (cj_set_string nm c) = cj_child c" "cj_valueint (cj_set_string nm c) = cj_valueint c"
  "cj_valuestring (cj_set_string nm c) = cj_valuestring c"
  "cj_valuedouble (cj_set_string nm c) = cj_valuedouble c"
  "cj_type (cj_set_child ch c) = cj_type c" "cj_string (cj_set_child ch c) = cj_string c"
  "cj_child (cj_set_child ch c) = ch"
  "cj_set_child ch' (cj_set_child ch c) = cj_set_child ch' c"
  by (cases c; simp)+

section \<open>Names\<close>

text \<open>\<open>cJSON_strcasecmp\<close> on strings without NUL; the end of a list is the terminator.\<close>

definition c_tolower :: "char \<Rightarrow> int" where
  "c_tolower c =
     (let n = of_char c :: int in if 65 \<le> n \<and> n \<le> 90 then n + 32 else n)"

fun strcasecmp :: "string \<Rightarrow> string \<Rightarrow> int" where
  "strcasecmp [] [] = 0"
| "strcasecmp [] (d # ds) = 0 - c_tolower d"
| "strcasecmp (c # cs) [] = c_tolower c"
| "strcasecmp (c # cs) (d # ds) =
     (if c_tolower c = c_tolower d then strcasecmp cs ds else c_tolower c - c_tolower d)"

fun cJSON_strcasecmp :: "string option \<Rightarrow> string option \<Rightarrow> int" where
  "cJSON_strcasecmp None s2 = (if s2 = None then 0 else 1)"
| "cJSON_strcasecmp (Some s1) None = 1"
| "cJSON_strcasecmp (Some s1) (Some s2) = strcasecmp s1 s2"

section \<open>Creation\<close>

definition cJSON_CreateNull :: cJSON where
  "cJSON_CreateNull = cj_set_type cJSON_NULL cJSON_New_Item"

definition cJSON_CreateTrue :: cJSON where
  "cJSON_CreateTrue = cj_set_type cJSON_True cJSON_New_Item"

definition cJSON_CreateFalse :: cJSON where
  "cJSON_CreateFalse = cj_set_type cJSON_False cJSON_New_Item"

definition cJSON_CreateBool :: "int \<Rightarrow> cJSON" where
  "cJSON_CreateBool b = cj_set_type (if b \<noteq> 0 then cJSON_True else cJSON_False) cJSON_New_Item"

definition cJSON_CreateNumber :: "double \<Rightarrow> cJSON" where
  "cJSON_CreateNumber num = CJ cJSON_Number None (d_to_i64 num) num None []"

text \<open>An integer argument is converted to \<open>double\<close> by the prototype.\<close>

definition cJSON_CreateInt :: "int \<Rightarrow> cJSON" where
  "cJSON_CreateInt n = cJSON_CreateNumber (d_of_int n)"

definition cJSON_CreateString :: "string \<Rightarrow> cJSON" where
  "cJSON_CreateString s = CJ cJSON_String (Some s) 0 (Fin 0) None []"

definition cJSON_CreateArray :: cJSON where
  "cJSON_CreateArray = cj_set_type cJSON_Array cJSON_New_Item"

definition cJSON_CreateObject :: cJSON where
  "cJSON_CreateObject = cj_set_type cJSON_Object cJSON_New_Item"

definition cJSON_CreateIntArray :: "int list \<Rightarrow> cJSON" where
  "cJSON_CreateIntArray ns = cj_set_child (map cJSON_CreateInt ns) cJSON_CreateArray"

definition cJSON_CreateDoubleArray :: "double list \<Rightarrow> cJSON" where
  "cJSON_CreateDoubleArray ns = cj_set_child (map cJSON_CreateNumber ns) cJSON_CreateArray"

definition cJSON_CreateStringArray :: "string list \<Rightarrow> cJSON" where
  "cJSON_CreateStringArray ss = cj_set_child (map cJSON_CreateString ss) cJSON_CreateArray"

section \<open>Search\<close>

definition cJSON_GetArraySize :: "cJSON \<Rightarrow> int" where
  "cJSON_GetArraySize a = int (length (cj_child a))"

fun nth_child :: "cJSON list \<Rightarrow> int \<Rightarrow> cJSON option" where
  "nth_child [] item = None"
| "nth_child (c # cs) item = (if 0 < item then nth_child cs (item - 1) else Some c)"

definition cJSON_GetArrayItem :: "cJSON option \<Rightarrow> int \<Rightarrow> cJSON option" where
  "cJSON_GetArrayItem a item = (case a of None \<Rightarrow> None | Some x \<Rightarrow> nth_child (cj_child x) item)"

fun find_child :: "cJSON list \<Rightarrow> string \<Rightarrow> cJSON option" where
  "find_child [] nm = None"
| "find_child (c # cs) nm =
     (if cJSON_strcasecmp (cj_string c) (Some nm) \<noteq> 0 then find_child cs nm else Some c)"

definition cJSON_GetObjectItem :: "cJSON option \<Rightarrow> string \<Rightarrow> cJSON option" where
  "cJSON_GetObjectItem obj nm = (case obj of None \<Rightarrow> None | Some x \<Rightarrow> find_child (cj_child x) nm)"

definition cJSON_HasObjectItem :: "cJSON option \<Rightarrow> string \<Rightarrow> int" where
  "cJSON_HasObjectItem obj nm = (if cJSON_GetObjectItem obj nm = None then 0 else 1)"

section \<open>Editing\<close>

definition create_reference :: "cJSON \<Rightarrow> cJSON" where
  "create_reference c =
     cj_set_type (cj_type c OR cJSON_IsReference) (cj_set_string None c)"

fun cJSON_AddItemToArray :: "cJSON \<Rightarrow> cJSON option \<Rightarrow> cJSON" where
  "cJSON_AddItemToArray a None = a"
| "cJSON_AddItemToArray a (Some c) = cj_set_child (cj_child a @ [c]) a"

fun cJSON_AddItemToObject :: "cJSON \<Rightarrow> string \<Rightarrow> cJSON option \<Rightarrow> cJSON" where
  "cJSON_AddItemToObject obj nm None = obj"
| "cJSON_AddItemToObject obj nm (Some c) = cJSON_AddItemToArray obj (Some (cj_set_string (Some nm) c))"

fun cJSON_AddItemToObjectCS :: "cJSON \<Rightarrow> string \<Rightarrow> cJSON option \<Rightarrow> cJSON" where
  "cJSON_AddItemToObjectCS obj nm None = obj"
| "cJSON_AddItemToObjectCS obj nm (Some c) =
     cJSON_AddItemToArray obj
       (Some (cj_set_type (cj_type c OR cJSON_StringIsConst) (cj_set_string (Some nm) c)))"

definition cJSON_AddItemReferenceToArray :: "cJSON \<Rightarrow> cJSON \<Rightarrow> cJSON" where
  "cJSON_AddItemReferenceToArray a c = cJSON_AddItemToArray a (Some (create_reference c))"

definition cJSON_AddItemReferenceToObject :: "cJSON \<Rightarrow> string \<Rightarrow> cJSON \<Rightarrow> cJSON" where
  "cJSON_AddItemReferenceToObject obj nm c = cJSON_AddItemToObject obj nm (Some (create_reference c))"

definition cJSON_AddNumberToObject :: "cJSON \<Rightarrow> string \<Rightarrow> double \<Rightarrow> cJSON" where
  "cJSON_AddNumberToObject obj nm n = cJSON_AddItemToObject obj nm (Some (cJSON_CreateNumber n))"

definition cJSON_AddIntToObject :: "cJSON \<Rightarrow> string \<Rightarrow> int \<Rightarrow> cJSON" where
  "cJSON_AddIntToObject obj nm n = cJSON_AddItemToObject obj nm (Some (cJSON_CreateInt n))"

definition cJSON_AddStringToObject :: "cJSON \<Rightarrow> string \<Rightarrow> string \<Rightarrow> cJSON" where
  "cJSON_AddStringToObject obj nm s = cJSON_AddItemToObject obj nm (Some (cJSON_CreateString s))"

definition cJSON_AddTrueToObject :: "cJSON \<Rightarrow> string \<Rightarrow> cJSON" where
  "cJSON_AddTrueToObject obj nm = cJSON_AddItemToObject obj nm (Some cJSON_CreateTrue)"

definition cJSON_AddFalseToObject :: "cJSON \<Rightarrow> string \<Rightarrow> cJSON" where
  "cJSON_AddFalseToObject obj nm = cJSON_AddItemToObject obj nm (Some cJSON_CreateFalse)"

text \<open>
  Unlinking the child at an index; the index counts down and a negative one is the first child.
\<close>

fun detach_child :: "cJSON list \<Rightarrow> int \<Rightarrow> (cJSON \<times> cJSON list) option" where
  "detach_child [] which = None"
| "detach_child (c # cs) which =
     (if 0 < which
      then (case detach_child cs (which - 1) of None \<Rightarrow> None | Some (d, ds) \<Rightarrow> Some (d, c # ds))
      else Some (c, cs))"

definition cJSON_DetachItemFromArray :: "cJSON \<Rightarrow> int \<Rightarrow> cJSON option \<times> cJSON" where
  "cJSON_DetachItemFromArray a which =
     (case detach_child (cj_child a) which of
        None \<Rightarrow> (None, a)
      | Some (c, cs) \<Rightarrow> (Some c, cj_set_child cs a))"

definition cJSON_DeleteItemFromArray :: "cJSON \<Rightarrow> int \<Rightarrow> cJSON" where
  "cJSON_DeleteItemFromArray a which = snd (cJSON_DetachItemFromArray a which)"

text \<open>The index of the first child of a name, counted from \<open>i\<close>.\<close>

fun child_index :: "cJSON list \<Rightarrow> string \<Rightarrow> int \<Rightarrow> int option" where
  "child_index [] nm i = None"
| "child_index (c # cs) nm i =
     (if cJSON_strcasecmp (cj_string c) (Some nm) \<noteq> 0 then child_index cs nm (i + 1) else Some i)"

definition cJSON_DetachItemFromObject :: "cJSON \<Rightarrow> string \<Rightarrow> cJSON option \<times> cJSON" where
  "cJSON_DetachItemFromObject obj nm =
     (case child_index (cj_child obj) nm 0 of
        None \<Rightarrow> (None, obj)
      | Some i \<Rightarrow> cJSON_DetachItemFromArray obj i)"

definition cJSON_DeleteItemFromObject :: "cJSON \<Rightarrow> string \<Rightarrow> cJSON" where
  "cJSON_DeleteItemFromObject obj nm = snd (cJSON_DetachItemFromObject obj nm)"

fun insert_child :: "cJSON list \<Rightarrow> int \<Rightarrow> cJSON \<Rightarrow> cJSON list option" where
  "insert_child [] which x = None"
| "insert_child (c # cs) which x =
     (if 0 < which
      then (case insert_child cs (which - 1) x of None \<Rightarrow> None | Some ds \<Rightarrow> Some (c # ds))
      else Some (x # c # cs))"

definition cJSON_InsertItemInArray :: "cJSON \<Rightarrow> int \<Rightarrow> cJSON \<Rightarrow> cJSON" where
  "cJSON_InsertItemInArray a which x =
     (case insert_child (cj_child a) which x of
        None \<Rightarrow> cJSON_AddItemToArray a (Some x)
      | Some cs \<Rightarrow> cj_set_child cs a)"

fun replace_child :: "cJSON list \<Rightarrow> int \<Rightarrow> cJSON \<Rightarrow> cJSON list" where
  "replace_child [] which x = []"
| "replace_child (c # cs) which x =
     (if 0 < which then c # replace_child cs (which - 1) x else x # cs)"

definition cJSON_ReplaceItemInArray :: "cJSON \<Rightarrow> int \<Rightarrow> cJSON \<Rightarrow> cJSON" where
  "cJSON_ReplaceItemInArray a which x = cj_set_child (replace_child (cj_child a) which x) a"

definition cJSON_ReplaceItemInObject :: "cJSON \<Rightarrow> string \<Rightarrow> cJSON \<Rightarrow> cJSON" where
  "cJSON_ReplaceItemInObject obj nm x =
     (case child_index (cj_child obj) nm 0 of
        None \<Rightarrow> obj
      | Some i \<Rightarrow> cJSON_ReplaceItemInArray obj i (cj_set_string (Some nm) x))"

section \<open>Duplication\<close>

fun cJSON_Duplicate :: "cJSON \<Rightarrow> bool \<Rightarrow> cJSON" where
  "cJSON_Duplicate (CJ t vs vi vd nm ch) recurse =
     CJ (t AND NOT cJSON_IsReference) vs vi vd nm
       (if recurse then map (\<lambda>c. cJSON_Duplicate c True) ch else [])"

section \<open>Lookups after updates\<close>

text \<open>Two names are the same key when they agree up to the case of ASCII letters.\<close>

lemma strcasecmp_refl [simp]: "strcasecmp s s = 0"
  by (induction s) auto

lemma of_char_0: "(of_char c :: int) = 0 \<longleftrightarrow> c = CHR 0x00"
  using of_char_eq_iff [of c "CHR 0x00", where 'a = int] by simp

lemma c_tolower_0: "c_tolower c = 0 \<longleftrightarrow> c = CHR 0x00"
  using of_char_0 [of c] by (auto simp: c_tolower_def Let_def)

lemma strcasecmp_0: "\<forall>c \<in> set s \<union> set t. c \<noteq> CHR 0x00 \<Longrightarrow>
    strcasecmp s t = 0 \<longleftrightarrow> map c_tolower s = map c_tolower t"
  by (induction s t rule: strcasecmp.induct) (auto simp: c_tolower_0 [simplified])

definition same_key :: "cJSON \<Rightarrow> string \<Rightarrow> bool" where
  "same_key c nm \<longleftrightarrow> cJSON_strcasecmp (cj_string c) (Some nm) = 0"

lemma find_child_append: "find_child (xs @ ys) nm =
    (case find_child xs nm of None \<Rightarrow> find_child ys nm | Some c \<Rightarrow> Some c)"
  by (induction xs) auto

lemma find_child_None: "find_child cs nm = None \<longleftrightarrow> (\<forall>c \<in> set cs. \<not> same_key c nm)"
  by (induction cs) (auto simp: same_key_def)

lemma find_child_find: "find_child cs nm = List.find (\<lambda>c. same_key c nm) cs"
  by (induction cs) (auto simp: same_key_def)

text \<open>
  What \<open>cJSON_GetObjectItem\<close> finds after \<open>cJSON_AddItemToObject\<close>. An item added under a name not in
  the object is the one found under that name, in any case, and every other name finds what it
  found before; but an item added under a name already there is not found: the first one stays in
  force.
\<close>

theorem get_after_add:
  "cJSON_GetObjectItem (Some (cJSON_AddItemToObject obj nm (Some c))) k =
     (case cJSON_GetObjectItem (Some obj) k of
        Some d \<Rightarrow> Some d
      | None \<Rightarrow> if strcasecmp nm k = 0 then Some (cj_set_string (Some nm) c) else None)"
  by (simp add: cJSON_GetObjectItem_def find_child_append split: option.split)

lemma child_index_shift: "child_index cs nm i = map_option (\<lambda>j. i + j) (child_index cs nm 0)"
proof (induction cs arbitrary: i)
  case (Cons c cs)
  show ?case
    using Cons.IH [of "i + 1"] Cons.IH [of 1]
    by (simp add: option.map_comp comp_def add.assoc)
qed simp

lemma child_index_nonneg: "child_index cs nm i = Some j \<Longrightarrow> i \<le> j"
  by (induction cs arbitrary: i) (fastforce split: if_splits)+

lemma detach_at_index: "child_index cs nm 0 = Some j \<Longrightarrow>
    \<exists>pre c suf. cs = pre @ c # suf \<and> same_key c nm \<and> (\<forall>d \<in> set pre. \<not> same_key d nm) \<and>
      detach_child cs j = Some (c, pre @ suf)"
proof (induction cs arbitrary: j)
  case (Cons c cs)
  show ?case
  proof (cases "same_key c nm")
    case True
    with Cons.prems show ?thesis
      by (intro exI [of _ "[]"] exI [of _ c] exI [of _ cs]) (auto simp: same_key_def)
  next
    case False
    with Cons.prems obtain i where i: "child_index cs nm 0 = Some i" "j = 1 + i"
      using child_index_shift [of cs nm 1] by (auto simp: same_key_def)
    then have "0 \<le> i" using child_index_nonneg by blast
    from Cons.IH [OF i(1)] obtain pre d suf where
      "cs = pre @ d # suf" "same_key d nm" "\<forall>e \<in> set pre. \<not> same_key e nm"
      "detach_child cs i = Some (d, pre @ suf)" by blast
    with False i(2) \<open>0 \<le> i\<close> show ?thesis
      by (intro exI [of _ "c # pre"] exI [of _ d] exI [of _ suf]) auto
  qed
qed simp

text \<open>
  \<open>cJSON_DetachItemFromObject\<close> returns exactly the item \<open>cJSON_GetObjectItem\<close> finds, removes that
  one and leaves the other children in their order; with no such item the object is unchanged.
\<close>

theorem detach_from_object:
  "case cJSON_DetachItemFromObject obj nm of (r, obj') \<Rightarrow>
     r = cJSON_GetObjectItem (Some obj) nm \<and>
     (case r of
        None \<Rightarrow> obj' = obj
      | Some c \<Rightarrow> \<exists>pre suf. cj_child obj = pre @ c # suf \<and> obj' = cj_set_child (pre @ suf) obj \<and>
          (\<forall>d \<in> set pre. \<not> same_key d nm))"
proof (cases "child_index (cj_child obj) nm 0")
  case None
  have "child_index cs nm i = None \<Longrightarrow> find_child cs nm = None" for cs i
    by (induction cs arbitrary: i) (auto split: if_splits)
  with None show ?thesis
    by (simp add: cJSON_DetachItemFromObject_def cJSON_GetObjectItem_def)
next
  case (Some j)
  from detach_at_index [OF this] obtain pre c suf where
    *: "cj_child obj = pre @ c # suf" "same_key c nm" "\<forall>d \<in> set pre. \<not> same_key d nm"
      "detach_child (cj_child obj) j = Some (c, pre @ suf)" by blast
  then have "find_child (cj_child obj) nm = Some c"
    by (simp add: find_child_append find_child_None [THEN iffD2]) (simp add: same_key_def)
  with * Some show ?thesis
    by (auto simp: cJSON_DetachItemFromObject_def cJSON_DetachItemFromArray_def cJSON_GetObjectItem_def)
qed

definition ex_object :: cJSON where
  "ex_object = CJ cJSON_Object None 0 (Fin 0) None
     [cj_set_string (Some ''a'') cJSON_CreateTrue, cj_set_string (Some ''b'') cJSON_CreateFalse,
      cj_set_string (Some ''c'') cJSON_CreateTrue]"

theorem detach_from_object_witness:
  "fst (cJSON_DetachItemFromObject ex_object ''B'') = Some (cj_set_string (Some ''b'') cJSON_CreateFalse)"
proof -
  have "cJSON_GetObjectItem (Some ex_object) ''B'' = Some (cj_set_string (Some ''b'') cJSON_CreateFalse)"
    by (simp add: cJSON_GetObjectItem_def ex_object_def c_tolower_def Let_def)
  then show ?thesis
    using detach_from_object [of ex_object "''B''"] by (auto simp: case_prod_beta)
qed

lemma insert_child_detach:
  "0 \<le> i \<Longrightarrow> insert_child cs i x = Some ds \<Longrightarrow> detach_child ds i = Some (x, cs)"
proof (induction cs arbitrary: i ds)
  case (Cons c cs)
  then show ?case
    by (cases "0 < i") (auto split: option.splits)
qed simp

text \<open>
  Detaching what \<open>cJSON_InsertItemInArray\<close> inserted at an index inside the array gives back the
  item and the array; at an index past the end the item was appended instead.
\<close>

theorem insert_then_detach:
  assumes "0 \<le> i"
  shows "if i < cJSON_GetArraySize a
    then cJSON_DetachItemFromArray (cJSON_InsertItemInArray a i x) i = (Some x, a)
    else cJSON_InsertItemInArray a i x = cJSON_AddItemToArray a (Some x)"
proof -
  have None_iff: "insert_child cs i x = None \<longleftrightarrow> int (length cs) \<le> i" if "0 \<le> i" for cs and i :: int
    using that
  proof (induction cs arbitrary: i)
    case (Cons c cs)
    show ?case
    proof (cases "0 < i")
      case True
      then show ?thesis using Cons.IH [of "i - 1"] by (auto split: option.splits)
    next
      case False
      then show ?thesis by simp
    qed
  qed simp
  show ?thesis
  proof (cases "insert_child (cj_child a) i x")
    case None
    moreover have "int (length (cj_child a)) \<le> i" using None None_iff [OF assms] by blast
    ultimately show ?thesis
      by (simp add: cJSON_InsertItemInArray_def cJSON_GetArraySize_def)
  next
    case (Some ds)
    with None_iff [OF assms, of "cj_child a"] insert_child_detach [OF assms Some] show ?thesis
      by (cases a) (auto simp: cJSON_InsertItemInArray_def cJSON_GetArraySize_def
          cJSON_DetachItemFromArray_def)
  qed
qed

theorem insert_then_detach_witness:
  "cJSON_DetachItemFromArray
     (cJSON_InsertItemInArray (cJSON_CreateStringArray [''a'', ''b'']) 1 cJSON_CreateNull) 1 =
   (Some cJSON_CreateNull, cJSON_CreateStringArray [''a'', ''b''])"
  using insert_then_detach [of 1 "cJSON_CreateStringArray [''a'', ''b'']" cJSON_CreateNull]
  by (simp add: cJSON_GetArraySize_def cJSON_CreateStringArray_def)

text \<open>Duplication changes only the reference flag.\<close>

fun no_refs :: "cJSON \<Rightarrow> bool" where
  "no_refs (CJ t vs vi vd nm ch) \<longleftrightarrow> t AND NOT cJSON_IsReference = t \<and> (\<forall>c \<in> set ch. no_refs c)"

text \<open>
  A recursive \<open>cJSON_Duplicate\<close> of an item without references is an identical item, and
  duplicating once more changes nothing.
\<close>

theorem duplicate_identical:
  "(no_refs c \<longrightarrow> cJSON_Duplicate c True = c) \<and>
   cJSON_Duplicate (cJSON_Duplicate c True) True = cJSON_Duplicate c True"
  by (induction c) (auto simp: map_idI and.assoc)

theorem duplicate_identical_witness:
  "cJSON_Duplicate (cJSON_CreateStringArray [''a'']) True = cJSON_CreateStringArray [''a'']"
proof -
  have "no_refs (cJSON_CreateStringArray [''a''])"
    by (simp add: cJSON_CreateStringArray_def cJSON_CreateString_def cJSON_CreateArray_def
        cJSON_New_Item_def json_types cJSON_IsReference_def)
  then show ?thesis using duplicate_identical [of "cJSON_CreateStringArray [''a'']"] by blast
qed

end
