(* ===== verification/Net.thy ===== *)
theory Net
  imports OS CDouble "HOL-Library.Word"
begin

text \<open>
  \<open>net.c\<close>: opening sockets, and reading and writing a whole buffer over a socket that transfers less
  than asked for or would block. The functions the program does not call (\<open>getsock_tcp_mss\<close>,
  \<open>set_tcp_options\<close>) are in \<open>Extras\<close>.
\<close>

unbundle bit_operations_syntax

definition NET_SOFTERROR :: int where "NET_SOFTERROR = -1"
definition NET_HARDERROR :: int where "NET_HARDERROR = -2"

definition perror :: "string \<Rightarrow> ('a world_scheme, unit) state" where
  "perror what = sys_do (SStderr what)"

section \<open>Opening sockets\<close>

text \<open>An address found by \<open>getaddrinfo\<close>: its family, and the name the oracle gave it.\<close>

record addr =
  ai_family :: int
  ai_addr :: int

definition getaddrinfo ::
  "string option \<Rightarrow> int option \<Rightarrow> int \<Rightarrow> int \<Rightarrow> ('a world_scheme, addr option) state" where
  "getaddrinfo host port family socktype = do {
     r \<leftarrow> syscall (SGetaddrinfo host port family socktype);
     ret (if sr_val r \<noteq> 0 then None
          else Some \<lparr>ai_family = nth_int (sr_ints r) 0, ai_addr = nth_int (sr_ints r) 1\<rparr>) }"

definition freeaddrinfo :: "addr \<Rightarrow> ('a world_scheme, unit) state" where
  "freeaddrinfo a = sys_do (SFreeaddrinfo (ai_addr a))"

definition close_fd :: "int \<Rightarrow> ('a world_scheme, unit) state" where
  "close_fd s = sys_do (SClose s)"

text \<open>\<open>netdial\<close> after both addresses are known.\<close>

definition netdial_connect ::
  "int \<Rightarrow> addr option \<Rightarrow> int \<Rightarrow> addr \<Rightarrow> int \<Rightarrow> ('a world_scheme, int) state" where
  "netdial_connect proto local_res local_port server_res port = do {
     s \<leftarrow> sys_val (SSocket (ai_family server_res) proto);
     if s < 0 then do {
       (case local_res of None \<Rightarrow> skip_m | Some l \<Rightarrow> freeaddrinfo l);
       freeaddrinfo server_res;
       ret (-1) }
     else do {
       bound \<leftarrow> (case local_res of
         None \<Rightarrow> ret True
       | Some l \<Rightarrow> do {
           b \<leftarrow> sys_val (SBind s (ai_addr l) (if local_port \<noteq> 0 then Some local_port else None));
           if b < 0 then do {
             close_fd s;
             freeaddrinfo l;
             freeaddrinfo server_res;
             ret False }
           else do {
             freeaddrinfo l;
             ret True } });
       if \<not> bound then ret (-1)
       else do {
         c \<leftarrow> sys_val (SConnect s (ai_addr server_res) port);
         e \<leftarrow> get_errno;
         if c < 0 \<and> e \<noteq> EINPROGRESS then do {
           close_fd s;
           freeaddrinfo server_res;
           ret (-1) }
         else do {
           freeaddrinfo server_res;
           ret s } } } }"

definition netdial ::
  "int \<Rightarrow> int \<Rightarrow> string option \<Rightarrow> int \<Rightarrow> string option \<Rightarrow> int \<Rightarrow> ('a world_scheme, int) state" where
  "netdial domain proto loc local_port server port =
     (case loc of
        Some l \<Rightarrow> do {
          local_res \<leftarrow> getaddrinfo (Some l) None domain proto;
          case local_res of
            None \<Rightarrow> ret (-1)
          | Some lr \<Rightarrow> do {
              server_res \<leftarrow> getaddrinfo server None domain proto;
              case server_res of
                None \<Rightarrow> ret (-1)
              | Some sr \<Rightarrow> netdial_connect proto (Some lr) local_port sr port } }
      | None \<Rightarrow> do {
          server_res \<leftarrow> getaddrinfo server None domain proto;
          case server_res of
            None \<Rightarrow> ret (-1)
          | Some sr \<Rightarrow> netdial_connect proto None local_port sr port })"

definition netannounce :: "int \<Rightarrow> int \<Rightarrow> string option \<Rightarrow> int \<Rightarrow> ('a world_scheme, int) state" where
  "netannounce domain proto loc port = do {
     a \<leftarrow> getaddrinfo loc (Some port) (if domain = AF_UNSPEC \<and> loc = None then AF_INET6 else domain) proto;
     case a of
       None \<Rightarrow> ret (-1)
     | Some res \<Rightarrow> do {
         s \<leftarrow> sys_val (SSocket (ai_family res) proto);
         if s < 0 then do { freeaddrinfo res; ret (-1) }
         else do {
           o1 \<leftarrow> sys_val (SSetsockopt s ''SO_REUSEADDR'' 1);
           if o1 < 0 then do { close_fd s; freeaddrinfo res; ret (-1) }
           else do {
             o2 \<leftarrow> (if ai_family res = AF_INET6 \<and> (domain = AF_UNSPEC \<or> domain = AF_INET6)
                    then sys_val (SSetsockopt s ''IPV6_V6ONLY'' (if domain = AF_UNSPEC then 0 else 1))
                    else ret 0);
             if o2 < 0 then do { close_fd s; freeaddrinfo res; ret (-1) }
             else do {
               b \<leftarrow> sys_val (SBind s (ai_addr res) None);
               if b < 0 then do { close_fd s; freeaddrinfo res; ret (-1) }
               else do {
                 freeaddrinfo res;
                 if proto = SOCK_STREAM then do {
                   l \<leftarrow> sys_val (SListen s 5);
                   if l < 0 then do { close_fd s; ret (-1) } else ret s }
                 else ret s } } } } } }"

section \<open>Whole buffers\<close>

text \<open>
  The loop of \<open>Nread\<close>: \<open>nleft\<close> bytes are still wanted. The result is the return value, for a buffer of
  \<open>count\<close> bytes, and the bytes read.
\<close>

function Nread_loop :: "int \<Rightarrow> nat \<Rightarrow> nat \<Rightarrow> ('a world_scheme, int \<times> string) state" where
  "Nread_loop fd count nleft =
     (if nleft = 0 then ret (i32 (int count - int nleft), [])
      else do {
        r \<leftarrow> sys_read fd nleft;
        e \<leftarrow> get_errno;
        if fst r < 0 then
          (if e = EINTR \<or> e = EAGAIN \<or> e = EWOULDBLOCK
           then ret (i32 (int count - int nleft), [])
           else ret (NET_HARDERROR, []))
        else if length (snd r) = 0 then ret (i32 (int count - int nleft), [])
        else do {
          rest \<leftarrow> Nread_loop fd count (nleft - length (snd r));
          ret (fst rest, snd r @ snd rest) } })"
  by pat_completeness auto
termination
  by (relation "measure (\<lambda>(fd, count, nleft). nleft)") auto

declare Nread_loop.simps [simp del]

definition Nread :: "int \<Rightarrow> nat \<Rightarrow> ('a world_scheme, int \<times> string) state" where
  "Nread fd count = Nread_loop fd count count"

text \<open>The loop of \<open>Nwrite\<close> on the part of the buffer that is still to be written.\<close>

function Nwrite_loop :: "int \<Rightarrow> nat \<Rightarrow> string \<Rightarrow> ('a world_scheme, int) state" where
  "Nwrite_loop fd count buf =
     (if buf = [] then ret (i32 (int count))
      else do {
        r \<leftarrow> sys_write fd buf;
        e \<leftarrow> get_errno;
        if r < 0 then
          (if e = EINTR \<or> e = EAGAIN \<or> e = EWOULDBLOCK then ret (i32 (int count - int (length buf)))
           else if e = ENOBUFS then ret NET_SOFTERROR
           else ret NET_HARDERROR)
        else if r = 0 then ret NET_SOFTERROR
        else Nwrite_loop fd count (drop (nat r) buf) })"
  by pat_completeness auto
termination
  by (relation "measure (\<lambda>(fd, count, buf). length buf)") (auto simp: length_drop_less)

declare Nwrite_loop.simps [simp del]

definition Nwrite :: "int \<Rightarrow> string \<Rightarrow> ('a world_scheme, int) state" where
  "Nwrite fd buf = Nwrite_loop fd (length buf) buf"

definition has_sendfile :: int where
  "has_sendfile = 1"

text \<open>\<open>sendfile\<close> transfers at most \<open>n\<close> bytes from the offset of the file.\<close>

definition sys_sendfile :: "int \<Rightarrow> int \<Rightarrow> nat \<Rightarrow> nat \<Rightarrow> ('a world_scheme, int) state" where
  "sys_sendfile tofd fromfd offset n = do {
     r \<leftarrow> syscall (SSendfile tofd fromfd offset n);
     ret (if sr_val r < 0 then -1 else min (sr_val r) (int n)) }"

function Nsendfile_loop :: "int \<Rightarrow> int \<Rightarrow> nat \<Rightarrow> nat \<Rightarrow> ('a world_scheme, int) state" where
  "Nsendfile_loop fromfd tofd count nleft =
     (if nleft = 0 then ret (i32 (int count))
      else do {
        r \<leftarrow> sys_sendfile tofd fromfd (count - nleft) nleft;
        e \<leftarrow> get_errno;
        if r < 0 then
          (if e = EINTR \<or> e = EAGAIN \<or> e = EWOULDBLOCK then
             (if count = nleft then ret NET_SOFTERROR else ret (i32 (int count - int nleft)))
           else if e = ENOBUFS \<or> e = ENOMEM then ret NET_SOFTERROR
           else ret NET_HARDERROR)
        else if r = 0 then ret NET_SOFTERROR
        else Nsendfile_loop fromfd tofd count (nleft - nat r) })"
  by pat_completeness auto
termination
  by (relation "measure (\<lambda>(fromfd, tofd, count, nleft). nleft)") auto

declare Nsendfile_loop.simps [simp del]

definition Nsendfile :: "int \<Rightarrow> int \<Rightarrow> nat \<Rightarrow> ('a world_scheme, int) state" where
  "Nsendfile fromfd tofd count = Nsendfile_loop fromfd tofd count count"

section \<open>Descriptor flags and families\<close>

definition O_NONBLOCK :: int where "O_NONBLOCK = 2048"

definition setnonblocking :: "int \<Rightarrow> bool \<Rightarrow> ('a world_scheme, int) state" where
  "setnonblocking fd nonblocking = do {
     flags \<leftarrow> sys_val (SGetFlags fd);
     if flags < 0 then do { perror ''fcntl(F_GETFL)''; ret (-1) }
     else
       let newflags = (if nonblocking then flags OR O_NONBLOCK else flags AND NOT O_NONBLOCK) in
       if newflags \<noteq> flags then do {
         r \<leftarrow> sys_val (SSetFlags fd newflags);
         if r < 0 then do { perror ''fcntl(F_SETFL)''; ret (-1) } else ret 0 }
       else ret 0 }"

definition getsockdomain :: "int \<Rightarrow> ('a world_scheme, int) state" where
  "getsockdomain sock = do {
     r \<leftarrow> syscall (SGetsockname sock);
     ret (if sr_val r < 0 then -1 else nth_int (sr_ints r) 0) }"

section \<open>Descriptors are not lost\<close>

lemma wp_getaddrinfo [wp_simps]: "wp (getaddrinfo h p f t) Q = (\<lambda>s.
    Q (if sr_val (answer s (SGetaddrinfo h p f t)) \<noteq> 0 then None
       else Some \<lparr>ai_family = nth_int (sr_ints (answer s (SGetaddrinfo h p f t))) 0,
         ai_addr = nth_int (sr_ints (answer s (SGetaddrinfo h p f t))) 1\<rparr>)
      (after s (SGetaddrinfo h p f t)))"
  by (rule ext) (simp add: getaddrinfo_def wp_simps)

lemma wp_freeaddrinfo [wp_simps]: "wp (freeaddrinfo a) Q = (\<lambda>s. Q () (after s (SFreeaddrinfo (ai_addr a))))"
  by (rule ext) (simp add: freeaddrinfo_def wp_simps)

lemma wp_close_fd [wp_simps]: "wp (close_fd fd) Q = (\<lambda>s. Q () (after s (SClose fd)))"
  by (rule ext) (simp add: close_fd_def wp_simps)

lemma wp_perror [wp_simps]: "wp (perror x) Q = (\<lambda>s. Q () (after s (SStderr x)))"
  by (rule ext) (simp add: perror_def wp_simps)

text \<open>
  Rules that step over a call keeping only what it does to the open descriptors and addresses; the
  state after it is a fresh variable, so the goals of a long handler stay small.
\<close>

definition neutral :: "syscall \<Rightarrow> bool" where
  "neutral c = (case c of SSocket _ _ \<Rightarrow> False | SAccept _ \<Rightarrow> False | SOpen _ _ \<Rightarrow> False | SMkstemp _ \<Rightarrow> False
     | SClose _ \<Rightarrow> False | SGetaddrinfo _ _ _ _ \<Rightarrow> False | SFreeaddrinfo _ \<Rightarrow> False | _ \<Rightarrow> True)"

named_theorems fd_steps \<open>stepping over calls while tracking descriptors and addresses\<close>

lemma sys_val_neutral [fd_steps]:
  "neutral c \<Longrightarrow> (\<And>r t. fds_of t = fds_of s \<Longrightarrow> addrs_of t = addrs_of s \<Longrightarrow> Q r t) \<Longrightarrow> wp (sys_val c) Q s"
  by (cases c) (auto simp: neutral_def wp_simps after_fds)

lemma sys_val_socket [fd_steps]:
  "(\<And>r t. fds_of t = (if 0 \<le> r then r # fds_of s else fds_of s) \<Longrightarrow> addrs_of t = addrs_of s \<Longrightarrow> Q r t) \<Longrightarrow>
     wp (sys_val (SSocket f p)) Q s"
  by (simp add: wp_simps after_fds)

lemma close_fd_step [fd_steps]:
  "(\<And>t. fds_of t = remove1 fd (fds_of s) \<Longrightarrow> addrs_of t = addrs_of s \<Longrightarrow> Q () t) \<Longrightarrow> wp (close_fd fd) Q s"
  by (simp add: wp_simps after_fds)

lemma freeaddrinfo_step [fd_steps]:
  "(\<And>t. fds_of t = fds_of s \<Longrightarrow> addrs_of t = remove1 (ai_addr a) (addrs_of s) \<Longrightarrow> Q () t) \<Longrightarrow>
     wp (freeaddrinfo a) Q s"
  by (simp add: wp_simps after_fds)

lemma getaddrinfo_step [fd_steps]:
  "(\<And>t. fds_of t = fds_of s \<Longrightarrow> addrs_of t = addrs_of s \<Longrightarrow> Q None t) \<Longrightarrow>
   (\<And>a t. fds_of t = fds_of s \<Longrightarrow> addrs_of t = ai_addr a # addrs_of s \<Longrightarrow> Q (Some a) t) \<Longrightarrow>
     wp (getaddrinfo h p f t) Q s"
  by (simp add: wp_simps after_fds)

lemma get_errno_step [fd_steps]:
  "(\<And>e t. fds_of t = fds_of s \<Longrightarrow> addrs_of t = addrs_of s \<Longrightarrow> Q e t) \<Longrightarrow> wp get_errno Q s"
  by (simp add: wp_simps)

lemmas wp_control = wp_bind wp_return wp_if wp_skip_m wp_when_m

text \<open>
  C36: \<open>netannounce\<close> loses nothing: on every failure no descriptor stays open and no address stays
  allocated, and on success exactly the descriptor it returns is open.
\<close>

theorem netannounce_no_leak:
  "case run_state (netannounce domain proto loc port) s of (r, s') \<Rightarrow>
     addrs_of s' = addrs_of s \<and> fds_of s' = (if r < 0 then fds_of s else r # fds_of s)"
proof -
  have "wp (netannounce domain proto loc port)
      (\<lambda>r s'. addrs_of s' = addrs_of s \<and> fds_of s' = (if r < 0 then fds_of s else r # fds_of s)) s"
    unfolding netannounce_def wp_control
    by (rule getaddrinfo_step; auto simp: wp_control neutral_def intro!: fd_steps)
  then show ?thesis by (simp add: wp_def)
qed

lemma netdial_connect_wp:
  assumes "fds_of s = fds"
    and "addrs_of s = ai_addr sr # (case lr of None \<Rightarrow> as | Some l \<Rightarrow> ai_addr l # as)"
  shows "wp (netdial_connect proto lr lport sr port)
    (\<lambda>r s'. fds_of s' = (if r < 0 then fds else r # fds) \<and> addrs_of s' = as) s"
  using assms
  by (cases lr) (auto simp: netdial_connect_def wp_control neutral_def intro!: fd_steps)

text \<open>
  C37: \<open>netdial\<close> never loses a descriptor. It loses an address in one case: when a local address is
  given, and was found, and the lookup of the server fails, the local address stays allocated.
\<close>

theorem netdial_leak:
  "case run_state (netdial domain proto loc lport server port) s of (r, s') \<Rightarrow>
     fds_of s' = (if r < 0 then fds_of s else r # fds_of s) \<and>
     addrs_of s' =
       (case loc of
          None \<Rightarrow> addrs_of s
        | Some l \<Rightarrow>
            let c1 = SGetaddrinfo (Some l) None domain proto; c2 = SGetaddrinfo server None domain proto in
            if sr_val (answer s c1) = 0 \<and> sr_val (answer (after s c1) c2) \<noteq> 0
            then nth_int (sr_ints (answer s c1)) 1 # addrs_of s
            else addrs_of s)"
proof -
  define c1 where "c1 = SGetaddrinfo loc None domain proto"
  define c2 where "c2 = SGetaddrinfo server None domain proto"
  have w: "wp (netdial_connect proto lr lport sr port)
      (\<lambda>r s'. fds_of s' = (if r < 0 then fds_of s else r # fds_of s) \<and> addrs_of s' = addrs_of s) t"
    if "fds_of t = fds_of s"
      "addrs_of t = ai_addr sr # (case lr of None \<Rightarrow> addrs_of s | Some l \<Rightarrow> ai_addr l # addrs_of s)"
    for lr sr t
    using netdial_connect_wp that by blast
  show ?thesis
  proof (cases loc)
    case None
    have "wp (netdial domain proto None lport server port)
      (\<lambda>r s'. fds_of s' = (if r < 0 then fds_of s else r # fds_of s) \<and> addrs_of s' = addrs_of s) s"
      by (auto simp: netdial_def wp_simps after_fds intro!: w)
    with None show ?thesis by (simp add: wp_def)
  next
    case (Some l)
    define lost where "lost \<longleftrightarrow> sr_val (answer s c1) = 0 \<and> sr_val (answer (after s c1) c2) \<noteq> 0"
    have "wp (netdial domain proto (Some l) lport server port)
      (\<lambda>r s'. fds_of s' = (if r < 0 then fds_of s else r # fds_of s) \<and>
         addrs_of s' = (if lost then nth_int (sr_ints (answer s c1)) 1 # addrs_of s else addrs_of s)) s"
    proof (cases "sr_val (answer s c1) = 0 \<and> sr_val (answer (after s c1) c2) = 0")
      case True
      then have "\<not> lost" by (simp add: lost_def)
      with True Some show ?thesis
        by (auto simp: netdial_def wp_simps after_fds c1_def c2_def intro!: w)
    next
      case False
      then show ?thesis
        using Some by (auto simp: netdial_def wp_simps after_fds c1_def c2_def lost_def)
    qed
    with Some show ?thesis
      unfolding wp_def lost_def c1_def c2_def Let_def
      by (cases "run_state (netdial domain proto (Some l) lport server port) s") simp
  qed
qed

section \<open>Reading and writing whole buffers\<close>

lemma i32_length: "n \<le> 2147483647 \<Longrightarrow> i32 (int n) = int n"
  by (simp add: cint_simps)

text \<open>The last call of a history was a read of \<open>fd\<close> that delivered nothing: end of file, or an error.\<close>

definition read_dry :: "int \<Rightarrow> 'a world_scheme \<Rightarrow> bool" where
  "read_dry fd s \<longleftrightarrow> (\<exists>n tr. w_trace s = SRead fd n # tr \<and>
     fst (read_result n (w_oracle s (w_trace s))) \<le> 0)"

lemma read_dry_after: "fst (read_result n (answer s (SRead fd n))) \<le> 0 \<Longrightarrow> read_dry fd (after s (SRead fd n))"
  by (auto simp: read_dry_def answer_def)

definition Nread_post :: "int \<Rightarrow> nat \<Rightarrow> nat \<Rightarrow> 'a world_scheme \<Rightarrow> int \<times> string \<Rightarrow> 'a world_scheme \<Rightarrow> bool" where
  "Nread_post fd count nleft s = (\<lambda>(r, d) s'.
     received_of fd s' = received_of fd s @ d \<and> length d \<le> nleft \<and>
     (r = NET_HARDERROR \<or> r = int (count - nleft + length d)) \<and>
     (r \<noteq> int count \<longrightarrow> read_dry fd s'))"

lemma Nread_loop_wp:
  "nleft \<le> count \<Longrightarrow> count \<le> 2147483647 \<Longrightarrow>
     wp (Nread_loop fd count nleft) (Nread_post fd count nleft s) s"
proof (induction fd count nleft arbitrary: s rule: Nread_loop.induct)
  case (1 fd count nleft)
  have i: "i32 (int count - int nleft) = int (count - nleft)"
    using "1.prems" by (simp add: cint_simps of_nat_diff)
  show ?case
  proof (cases "nleft = 0")
    case True
    then show ?thesis
      using "1.prems" by (simp add: Nread_loop.simps wp_simps Nread_post_def cint_simps)
  next
    case False
    define rr where "rr = read_result nleft (answer s (SRead fd nleft))"
    define s1 where "s1 = after s (SRead fd nleft)"
    have recv: "received_of fd s1 = received_of fd s @ snd rr"
      by (simp add: s1_def rr_def received_of_after)
    have rb: "length (snd rr) \<le> nleft" "0 \<le> fst rr \<Longrightarrow> fst rr = int (length (snd rr))"
      "fst rr < 0 \<Longrightarrow> snd rr = []"
      by (auto simp: rr_def read_result_def)
    have dry: "fst rr \<le> 0 \<Longrightarrow> read_dry fd s1"
      by (simp add: s1_def rr_def read_dry_after)
    show ?thesis
    proof (cases "fst rr \<le> 0")
      case True
      then have "snd rr = []" using rb by (cases "fst rr = 0") auto
      then show ?thesis
        using False True dry recv i
        by (subst Nread_loop.simps)
          (simp add: wp_simps rr_def [symmetric] s1_def [symmetric] Nread_post_def)
    next
      case go: False
      then have pos: "snd rr \<noteq> []" using rb(2) by auto
      have IH: "wp (Nread_loop fd count (nleft - length (snd rr)))
          (Nread_post fd count (nleft - length (snd rr)) s1) s1"
        using "1.IH" [of rr] False go pos "1.prems" by simp
      have "wp (Nread_loop fd count (nleft - length (snd rr)))
          (\<lambda>p. Nread_post fd count nleft s (fst p, snd rr @ snd p)) s1"
        by (rule wp_mono [OF IH])
          (use recv rb(1) "1.prems" in \<open>auto simp: Nread_post_def case_prod_beta\<close>)
      then show ?thesis
        using False go pos
        by (subst Nread_loop.simps) (simp add: wp_simps rr_def [symmetric] s1_def [symmetric])
    qed
  qed
qed

lemma Nread_result:
  assumes "run_state (Nread fd count) s = ((r, d), s')" "count \<le> 2147483647"
  shows "received_of fd s' = received_of fd s @ d" "length d \<le> count"
    "r = NET_HARDERROR \<or> r = int (length d)" "r \<noteq> int count \<Longrightarrow> read_dry fd s'"
  using Nread_loop_wp [of count count fd s] assms
  by (auto simp: Nread_def wp_def Nread_post_def)

text \<open>
  C25: \<open>Nread\<close> delivers the bytes of the stream in order, none lost and none twice, however the
  transfers are cut: the result counts exactly the bytes it appended, never more than asked for,
  and it is short only when the last read found end of file, nothing available yet, or an error.
\<close>

theorem Nread_exact:
  assumes "count \<le> 2147483647"
  shows "case run_state (Nread fd count) s of ((r, d), s') \<Rightarrow>
    received_of fd s' = received_of fd s @ d \<and> length d \<le> count \<and>
    (r = NET_HARDERROR \<or> r = int (length d)) \<and> (r \<noteq> int count \<longrightarrow> read_dry fd s')"
  using Nread_loop_wp [of count count fd s] assms
  by (simp add: Nread_def wp_def Nread_post_def case_prod_beta)

definition Nwrite_post :: "int \<Rightarrow> nat \<Rightarrow> string \<Rightarrow> 'a world_scheme \<Rightarrow> int \<Rightarrow> 'a world_scheme \<Rightarrow> bool" where
  "Nwrite_post fd count buf s = (\<lambda>r s'.
     \<exists>k \<le> length buf. sent_of fd s' = sent_of fd s @ take k buf \<and>
       (r = int (count - length buf + k) \<or> (r = NET_SOFTERROR \<or> r = NET_HARDERROR) \<and> k < length buf))"

lemma Nwrite_loop_wp:
  "length buf \<le> count \<Longrightarrow> count \<le> 2147483647 \<Longrightarrow>
     wp (Nwrite_loop fd count buf) (Nwrite_post fd count buf s) s"
proof (induction fd count buf arbitrary: s rule: Nwrite_loop.induct)
  case (1 fd count buf)
  have i: "i32 (int count - int (length buf)) = int (count - length buf)"
    using "1.prems" by (simp add: cint_simps of_nat_diff)
  show ?case
  proof (cases "buf = []")
    case True
    then show ?thesis
      using "1.prems" by (simp add: Nwrite_loop.simps wp_simps Nwrite_post_def cint_simps)
  next
    case False
    define r where "r = write_result buf (answer s (SWrite fd buf))"
    define s1 where "s1 = after s (SWrite fd buf)"
    have sent: "sent_of fd s1 = sent_of fd s @ take (nat r) buf"
      by (simp add: s1_def r_def sent_of_after)
    have rb: "r \<le> int (length buf)" using write_result_bounds by (simp add: r_def)
    show ?thesis
    proof (cases "r \<le> 0")
      case True
      then have "sent_of fd s1 = sent_of fd s @ take 0 buf" using sent by simp
      moreover have "0 < length buf" using False by simp
      ultimately have "Nwrite_post fd count buf s x s1"
        if "x = int (count - length buf) \<or> x = NET_SOFTERROR \<or> x = NET_HARDERROR" for x
        using that unfolding Nwrite_post_def by (intro exI [of _ 0]) auto
      then show ?thesis
        using False True i
        by (subst Nwrite_loop.simps) (simp add: wp_simps r_def [symmetric] s1_def [symmetric])
    next
      case go: False
      define k where "k = nat r"
      have k: "0 < k" "k \<le> length buf" using go rb by (auto simp: k_def)
      have IH: "wp (Nwrite_loop fd count (drop k buf)) (Nwrite_post fd count (drop k buf) s1) s1"
        using "1.IH" [of r] False go "1.prems" by (simp add: k_def)
      have "wp (Nwrite_loop fd count (drop k buf)) (Nwrite_post fd count buf s) s1"
      proof (rule wp_mono [OF IH])
        fix x s' assume "Nwrite_post fd count (drop k buf) s1 x s'"
        then obtain j where j: "j \<le> length buf - k" "sent_of fd s' = sent_of fd s1 @ take j (drop k buf)"
          "x = int (count - (length buf - k) + j) \<or> (x = NET_SOFTERROR \<or> x = NET_HARDERROR) \<and> j < length buf - k"
          by (auto simp: Nwrite_post_def)
        have "take k buf @ take j (drop k buf) = take (k + j) buf" by (simp add: take_add)
        with j k sent "1.prems" show "Nwrite_post fd count buf s x s'"
          unfolding Nwrite_post_def by (intro exI [of _ "k + j"]) (auto simp: k_def)
      qed
      then show ?thesis
        using False go
        by (subst Nwrite_loop.simps) (simp add: wp_simps r_def [symmetric] s1_def [symmetric] k_def)
    qed
  qed
qed

lemma Nwrite_result:
  assumes "run_state (Nwrite fd buf) s = (r, s')" "length buf \<le> 2147483647"
  shows "\<exists>k \<le> length buf. sent_of fd s' = sent_of fd s @ take k buf \<and>
    (r = int k \<or> (r = NET_SOFTERROR \<or> r = NET_HARDERROR) \<and> k < length buf)"
  using Nwrite_loop_wp [of buf "length buf" fd s] assms
  by (auto simp: Nwrite_def wp_def Nwrite_post_def)

text \<open>
  C26: \<open>Nwrite\<close> hands over a prefix of its buffer, in order, whatever each \<open>write\<close> accepts; a result that
  is not an error is the length of that prefix. On a soft or hard error the prefix may be anything
  short of the whole: bytes already on their way are not reported.
\<close>

theorem Nwrite_exact:
  assumes "length buf \<le> 2147483647"
  shows "case run_state (Nwrite fd buf) s of (r, s') \<Rightarrow>
    \<exists>k \<le> length buf. sent_of fd s' = sent_of fd s @ take k buf \<and>
      (r = int k \<or> (r = NET_SOFTERROR \<or> r = NET_HARDERROR) \<and> k < length buf)"
  using Nwrite_loop_wp [of buf "length buf" fd s] assms
  by (simp add: Nwrite_def wp_def Nwrite_post_def case_prod_beta)

text \<open>
  \<open>setnonblocking\<close> asks only for the change of \<open>O_NONBLOCK\<close>: whatever flags the descriptor has, the
  flags set afterwards differ from them in that bit alone, and nothing is set when the bit is
  already as wanted.
\<close>

theorem setnonblocking_exact:
  "case run_state (setnonblocking fd nb) s of (r, s') \<Rightarrow>
     let flags = sr_val (answer s (SGetFlags fd)) in
     if flags < 0 then r = -1 \<and> w_trace s' = SStderr ''fcntl(F_GETFL)'' # SGetFlags fd # w_trace s
     else if bit flags 11 = nb then r = 0 \<and> w_trace s' = SGetFlags fd # w_trace s
     else \<exists>new tr. w_trace s' = tr @ SSetFlags fd new # SGetFlags fd # w_trace s \<and> length tr \<le> 1 \<and>
       (\<forall>i. bit new i = (if i = 11 then nb else bit flags i))"
proof -
  define flags where "flags = sr_val (answer s (SGetFlags fd))"
  have b: "bit O_NONBLOCK i = (i = 11)" for i
  proof -
    have o: "O_NONBLOCK = 2 ^ 11" by (simp add: O_NONBLOCK_def)
    show ?thesis unfolding o bit_exp_iff by auto
  qed
  have on: "flags OR O_NONBLOCK = flags \<longleftrightarrow> bit flags 11"
    unfolding bit_eq_iff [of "flags OR O_NONBLOCK"] bit_or_iff b by auto
  have off: "flags AND NOT O_NONBLOCK = flags \<longleftrightarrow> \<not> bit flags 11"
    unfolding bit_eq_iff [of "flags AND NOT O_NONBLOCK"] bit_and_iff bit_not_iff b by auto
  show ?thesis
    using on off
    by (cases nb) (auto simp: setnonblocking_def perror_def Let_def flags_def [symmetric]
        bit_or_iff bit_and_iff bit_not_iff b)
qed

section \<open>Frame\<close>

lemma os_only_Nread_loop: "os_only (Nread_loop fd count n)"
  by (induction fd count n rule: Nread_loop.induct) (subst Nread_loop.simps, auto intro!: os_frame)

lemma os_only_Nwrite_loop: "os_only (Nwrite_loop fd count b)"
  by (induction fd count b rule: Nwrite_loop.induct) (subst Nwrite_loop.simps, auto intro!: os_frame)

lemma os_only_sendfile: "os_only (sys_sendfile tofd fromfd offset n)"
  by (auto simp: sys_sendfile_def intro!: os_frame)

lemma os_only_Nsendfile_loop: "os_only (Nsendfile_loop ffd tfd count n)"
  by (induction ffd tfd count n rule: Nsendfile_loop.induct)
    (subst Nsendfile_loop.simps, auto intro!: os_frame os_only_sendfile)

lemma os_only_net [os_frame]:
  "os_only (Nread fd n)" "os_only (Nwrite fd b)" "os_only (Nsendfile ffd tfd k)" "os_only (perror x)"
  "os_only (getaddrinfo h p f ty)" "os_only (freeaddrinfo a)" "os_only (close_fd fd)" "os_only (getsockdomain fd)"
  by (auto simp: Nread_def Nwrite_def Nsendfile_def perror_def getaddrinfo_def freeaddrinfo_def close_fd_def
      getsockdomain_def os_only_Nread_loop os_only_Nwrite_loop os_only_Nsendfile_loop intro!: os_frame)

lemma os_only_sockets [os_frame]:
  "os_only (netdial dm pr lc lp sv po)" "os_only (netannounce dm pr lc po)" "os_only (setnonblocking fd nb)"
  by (auto simp: netdial_def netdial_connect_def netannounce_def setnonblocking_def Let_def intro!: os_frame)

section \<open>Instances\<close>

text \<open>A peer that has sent ''hello'' in pieces of at most two bytes and then closed.\<close>

definition ex_world :: "(syscall list \<Rightarrow> sysret) \<Rightarrow> world" where
  "ex_world orc = \<lparr>w_oracle = orc, w_trace = [], errno = 0, h_errno = 0, i_errno = 0\<rparr>"

theorem Nread_exact_witness:
  "case run_state (Nread 3 4) (ex_world (\<lambda>tr. SysRet 2 0 ''ab'' [])) of ((r, d), s') \<Rightarrow>
     received_of 3 s' = d \<and> (r = NET_HARDERROR \<or> r = int (length d))"
  using Nread_exact [of 4 3 "ex_world (\<lambda>tr. SysRet 2 0 ''ab'' [])"]
  by (auto simp: received_of_def ex_world_def)

theorem Nwrite_exact_witness:
  "\<exists>r s'. run_state (Nwrite 3 ''abcd'') (ex_world (\<lambda>tr. SysRet 2 0 [] [])) = (r, s') \<and>
     (\<exists>k. sent_of 3 s' = take k ''abcd'')"
proof -
  obtain r s' where run: "run_state (Nwrite 3 ''abcd'') (ex_world (\<lambda>tr. SysRet 2 0 [] [])) = (r, s')" by force
  have "sent_of 3 (ex_world (\<lambda>tr. SysRet 2 0 [] [])) = []" by (simp add: sent_of_def ex_world_def)
  with Nwrite_exact [of "''abcd''" 3 "ex_world (\<lambda>tr. SysRet 2 0 [] [])"] run show ?thesis
    by (simp del: take.simps) blast
qed

end
