(* ===== verification/Util.thy ===== *)
theory Util
  imports Timer Cjson Net
begin

text \<open>
  \<open>iperf_util.c\<close>: cookies, time arithmetic, processor use, the system description and the
  \<open>printf\<close>-like constructor of JSON objects. The static variables of \<open>cpu_util\<close> are part of the
  state. \<open>delay\<close> and \<open>timeval_to_double\<close> have no caller; the latter is modelled because it is wrong.
\<close>

record util_state = tmr_state +
  cu_last :: timeval
  cu_clast :: int
  cu_utime :: timeval
  cu_stime :: timeval

section \<open>Cookies\<close>

text \<open>\<open>%08lx\<close> and \<open>%06ld\<close>\<close>

fun show_hex :: "nat \<Rightarrow> string" where
  "show_hex n = (if n < 16 then [if n < 10 then char_of (48 + n) else char_of (87 + n)]
     else show_hex (n div 16) @ [if n mod 16 < 10 then char_of (48 + n mod 16) else char_of (87 + n mod 16)])"

declare show_hex.simps [simp del]

definition COOKIE_SIZE :: nat where "COOKIE_SIZE = 37"

definition cookie_text :: "string \<Rightarrow> timeval \<Rightarrow> int \<Rightarrow> int \<Rightarrow> string" where
  "cookie_text host tv r1 r2 =
     take 36 (host @ ''.'' @ show_nat (nat (u64 (tv_sec tv))) @ ''.'' @
       pad_left 6 CHR ''0'' (show_nat (nat (u64 (tv_usec tv)))) @ ''.'' @
       pad_left 8 CHR ''0'' (show_hex (nat (u64 r1))) @ pad_left 8 CHR ''0'' (show_hex (nat (u64 r2))) @ ''.'' @
       ''1234567890123456789012345678901234567890'')"

text \<open>\<open>randomized\<close> is never set, so every cookie seeds the generator again.\<close>

definition make_cookie :: "('a world_scheme, string) state" where
  "make_cookie = do {
     _ \<leftarrow> sys_val STime;
     _ \<leftarrow> sys_val SGetpid;
     h \<leftarrow> syscall SGethostname;
     (_, tv) \<leftarrow> gettimeofday;
     r1 \<leftarrow> sys_val SRandom;
     r2 \<leftarrow> sys_val SRandom;
     ret (cookie_text (sr_data h) tv r1 r2) }"

definition is_closed :: "int \<Rightarrow> ('a world_scheme, int) state" where
  "is_closed fd = do {
     r \<leftarrow> sys_val (SSelect (fd + 1) [fd] [] (Some (Timeval 0 0)));
     e \<leftarrow> get_errno;
     ret (if r < 0 \<and> e = EBADF then 1 else 0) }"

section \<open>Time arithmetic\<close>

text \<open>The division is one of integers: the microseconds are lost.\<close>

definition timeval_to_double :: "timeval \<Rightarrow> double" where
  "timeval_to_double tv = d_of_int (tv_sec tv + c_div (tv_usec tv) 1000000)"

definition timeval_equals :: "timeval \<Rightarrow> timeval \<Rightarrow> int" where
  "timeval_equals tv0 tv1 = (if tv_sec tv0 = tv_sec tv1 \<and> tv_usec tv0 = tv_usec tv1 then 1 else 0)"

definition tv_seconds :: "timeval \<Rightarrow> double" where
  "tv_seconds tv = d_add (d_of_int (tv_sec tv)) (d_div (d_of_int (tv_usec tv)) (Fin 1000000))"

definition timeval_diff :: "timeval \<Rightarrow> timeval \<Rightarrow> double" where
  "timeval_diff tv0 tv1 =
     (let t = d_sub (tv_seconds tv0) (tv_seconds tv1)
      in if d_lt t (Fin 0) then d_neg t else t)"

section \<open>Processor use\<close>

definition CLOCKS_PER_SEC :: int where "CLOCKS_PER_SEC = 1000000"

definition usec_of :: "timeval \<Rightarrow> double" where
  "usec_of tv = d_add (d_mul (d_of_int (tv_sec tv)) (Fin 1000000)) (d_of_int (tv_usec tv))"

definition getrusage :: "('a world_scheme, timeval \<times> timeval) state" where
  "getrusage = do {
     r \<leftarrow> syscall SGetrusage;
     ret (Timeval (nth_int (sr_ints r) 0) (nth_int (sr_ints r) 1),
          Timeval (nth_int (sr_ints r) 2) (nth_int (sr_ints r) 3)) }"

text \<open>\<open>cpu_util(NULL)\<close> notes the starting point.\<close>

definition cpu_util_start :: "('a util_state_scheme, unit) state" where
  "cpu_util_start = do {
     (_, now) \<leftarrow> gettimeofday;
     c \<leftarrow> sys_val SClock;
     (ut, st) \<leftarrow> getrusage;
     modify (\<lambda>s. s\<lparr>cu_last := now, cu_clast := c, cu_utime := ut, cu_stime := st\<rparr>) }"

definition cpu_util :: "('a util_state_scheme, double \<times> double \<times> double) state" where
  "cpu_util = do {
     (_, now) \<leftarrow> gettimeofday;
     c \<leftarrow> sys_val SClock;
     (ut, st) \<leftarrow> getrusage;
     s \<leftarrow> State_Monad.get;
     let timediff = d_sub (usec_of now) (usec_of (cu_last s));
         userdiff = d_sub (usec_of ut) (usec_of (cu_utime s));
         systemdiff = d_sub (usec_of st) (usec_of (cu_stime s));
         cpu = d_div (d_mul (d_of_int (c - cu_clast s)) (Fin 1000000)) (d_of_int CLOCKS_PER_SEC)
     in ret (d_mul (d_div cpu timediff) (Fin 100), d_mul (d_div userdiff timediff) (Fin 100),
          d_mul (d_div systemdiff timediff) (Fin 100)) }"

section \<open>Descriptions of the system\<close>

text \<open>The five strings \<open>uname\<close> fills in arrive separated by blanks; 1023 bytes are kept.\<close>

definition get_system_info :: "('a world_scheme, string) state" where
  "get_system_info = do {
     r \<leftarrow> syscall SUname;
     ret (take 1023 (sr_data r)) }"

definition get_optional_features :: string where
  "get_optional_features = ''Optional features available: '' @ ''sendfile / zerocopy''"

section \<open>JSON objects in the manner of printf\<close>

datatype jarg = JBool int | JInt int | JFloat double | JString string

text \<open>
  The name is collected in a buffer: \<open>nm\<close> is the text up to its NUL and \<open>np\<close> the write position.
  A type mismatch between the format and the arguments, undefined in C, is \<open>None\<close>.
\<close>

definition put_name :: "string \<Rightarrow> nat \<Rightarrow> char \<Rightarrow> string" where
  "put_name nm np c = take np nm @ [c] @ drop (Suc np) nm"

fun json_printf :: "string \<Rightarrow> jarg list \<Rightarrow> string \<Rightarrow> nat \<Rightarrow> cJSON \<Rightarrow> cJSON option" where
  "json_printf [] args nm np obj = Some obj"
| "json_printf (c # cs) args nm np obj =
     (if c = CHR '' '' then json_printf cs args nm np obj
      else if c = CHR '':'' then json_printf cs args (take np nm) np obj
      else if c = CHR ''%'' then
        (case (cs, args) of
           (CHR ''b'' # cs', JBool b # as) \<Rightarrow>
             json_printf cs' as nm 0 (cJSON_AddItemToObject obj nm (Some (cJSON_CreateBool b)))
         | (CHR ''d'' # cs', JInt n # as) \<Rightarrow>
             json_printf cs' as nm 0 (cJSON_AddItemToObject obj nm (Some (cJSON_CreateInt n)))
         | (CHR ''f'' # cs', JFloat d # as) \<Rightarrow>
             json_printf cs' as nm 0 (cJSON_AddItemToObject obj nm (Some (cJSON_CreateNumber d)))
         | (CHR ''s'' # cs', JString s # as) \<Rightarrow>
             json_printf cs' as nm 0 (cJSON_AddItemToObject obj nm (Some (cJSON_CreateString s)))
         | _ \<Rightarrow> None)
      else json_printf cs args (put_name nm np c) (Suc np) obj)"

definition iperf_json_printf :: "string \<Rightarrow> jarg list \<Rightarrow> cJSON option" where
  "iperf_json_printf fmt args = json_printf fmt args [] 0 cJSON_CreateObject"

section \<open>Properties\<close>

lemma length_pad_left: "w \<le> length (pad_left w c s)"
  by (simp add: pad_left_def)

text \<open>
  A cookie always has the 36 characters the protocol transfers with its NUL, whatever the host
  name, the time and the random numbers are.
\<close>

theorem cookie_length: "case run_state make_cookie s of (c, s') \<Rightarrow> length c = COOKIE_SIZE - 1"
  by (simp add: make_cookie_def cookie_text_def COOKIE_SIZE_def case_prod_beta)

lemma d_neg_neg: "d_neg (d_neg d) = d"
  by (cases d) auto

lemma binexp_minus: "binexp (- x) = binexp x"
  by (simp add: binexp_def)

lemma round_half_even_minus: "round_half_even (- x) = - round_half_even x"
proof -
  define f where "f = \<lfloor>x\<rfloor>"
  define r where "r = x - of_int f"
  have r: "0 \<le> r" "r < 1" "x = of_int f + r"
    by (simp_all add: r_def f_def) linarith
  show ?thesis
  proof (cases "r = 0")
    case True
    then have "x = of_int f" using r by simp
    then show ?thesis using round_half_even_int [of f] round_half_even_int [of "- f"] by simp
  next
    case False
    then have fl: "\<lfloor>- x\<rfloor> = - f - 1" using r by (simp add: floor_eq_iff)
    have "- x - of_int (- f - 1) = 1 - r" using r by simp
    then show ?thesis
      unfolding round_half_even_def fl Let_def f_def [symmetric] r_def [symmetric] by auto
  qed
qed

lemma rnd_minus: "rnd (- x) = d_neg (rnd x)"
proof (cases "x = 0")
  case False
  define q where "q = max (binexp x - 52) (- 1074)"
  have n: "round_half_even (- (x / pow2r q)) = - round_half_even (x / pow2r q)"
    by (rule round_half_even_minus)
  have "0 < pow2r 1024" by simp
  then have "pow2r 1024 \<le> y \<Longrightarrow> \<not> pow2r 1024 \<le> - y" for y by linarith
  then show ?thesis
    using False n by (auto simp: rnd_def rnd_fmt_def binexp_minus Let_def simp flip: q_def)
qed simp

lemma d_sub_swap: "d_sub b a = d_neg (d_sub a b)"
proof (cases "\<exists>x y. a = Fin x \<and> b = Fin y")
  case True
  then obtain x y where ab: "a = Fin x" "b = Fin y" by blast
  have "rnd (y + - x) = d_neg (rnd (x + - y))"
    using rnd_minus [of "x + - y"] by (simp only: minus_add_distrib minus_minus add.commute)
  then show ?thesis by (simp only: ab d_sub_def d_neg.simps d_add.simps)
next
  case False
  then show ?thesis by (cases a; cases b) (auto simp: d_sub_def)
qed

text \<open>
  \<open>timeval_diff\<close> is symmetric and never negative.
\<close>

theorem timeval_diff_symmetric: "timeval_diff a b = timeval_diff b a \<and> \<not> d_lt (timeval_diff a b) (Fin 0)"
proof -
  define d where "d = d_sub (tv_seconds a) (tv_seconds b)"
  have "d_sub (tv_seconds b) (tv_seconds a) = d_neg d" unfolding d_def by (rule d_sub_swap)
  then show ?thesis
    by (cases d) (auto simp: timeval_diff_def Let_def d_def [symmetric])
qed

text \<open>A list of named arguments and the format that describes it.\<close>

fun jarg_spec :: "jarg \<Rightarrow> char" where
  "jarg_spec (JBool b) = CHR ''b''"
| "jarg_spec (JInt n) = CHR ''d''"
| "jarg_spec (JFloat d) = CHR ''f''"
| "jarg_spec (JString s) = CHR ''s''"

fun jarg_item :: "jarg \<Rightarrow> cJSON" where
  "jarg_item (JBool b) = cJSON_CreateBool b"
| "jarg_item (JInt n) = cJSON_CreateInt n"
| "jarg_item (JFloat d) = cJSON_CreateNumber d"
| "jarg_item (JString s) = cJSON_CreateString s"

definition jformat :: "(string \<times> jarg) list \<Rightarrow> string" where
  "jformat kvs = concat (map (\<lambda>(k, a). k @ '': %'' @ [jarg_spec a] @ ''  '') kvs)"

lemma json_printf_name:
  "\<forall>c \<in> set k. c \<notin> {CHR '' '', CHR '':'', CHR ''%''} \<Longrightarrow>
     json_printf (k @ fmt) args nm np obj =
       json_printf fmt args (take np nm @ k @ drop (np + length k) nm) (np + length k) obj"
  if "np \<le> length nm"
  using that
proof (induction k arbitrary: nm np)
  case (Cons c k)
  have 1: "take (Suc np) (put_name nm np c) = take np nm @ [c]" "Suc np \<le> length (put_name nm np c)"
    using Cons.prems by (auto simp: put_name_def)
  have 2: "drop (Suc np + length k) (put_name nm np c) = drop (np + Suc (length k)) nm"
    using Cons.prems by (simp add: put_name_def add.commute)
  have "json_printf ((c # k) @ fmt) args nm np obj = json_printf (k @ fmt) args (put_name nm np c) (Suc np) obj"
    using Cons.prems by simp
  also have "\<dots> = json_printf fmt args (take np nm @ (c # k) @ drop (np + length (c # k)) nm) (np + length (c # k)) obj"
    using Cons.IH [of "Suc np" "put_name nm np c"] Cons.prems 1 2 by simp
  finally show ?case .
qed simp

lemma json_printf_field:
  assumes "\<forall>c \<in> set k. c \<notin> {CHR '' '', CHR '':'', CHR ''%''}"
  shows "json_printf (k @ '': %'' @ [jarg_spec a] @ ''  '' @ fmt) (a # as) nm 0 obj =
    json_printf fmt as k 0 (cJSON_AddItemToObject obj k (Some (jarg_item a)))"
proof -
  have "json_printf (k @ '': %'' @ [jarg_spec a] @ ''  '' @ fmt) (a # as) nm 0 obj =
      json_printf ('': %'' @ [jarg_spec a] @ ''  '' @ fmt) (a # as) (k @ drop (length k) nm) (length k) obj"
    using json_printf_name [of 0 nm k] assms by simp
  then show ?thesis by (cases a) simp_all
qed

text \<open>
  For a format made of fields \<open>name: %x\<close> and arguments of the types it names,
  \<open>iperf_json_printf\<close> builds the object with those members, in order and under those names.
\<close>

theorem json_printf_fields:
  assumes "\<forall>(k, a) \<in> set kvs. \<forall>c \<in> set k. c \<notin> {CHR '' '', CHR '':'', CHR ''%''}"
  shows "iperf_json_printf (jformat kvs) (map snd kvs) =
    Some (cj_set_child (map (\<lambda>(k, a). cj_set_string (Some k) (jarg_item a)) kvs) cJSON_CreateObject)"
proof -
  have "json_printf (jformat kvs) (map snd kvs) nm 0 obj =
      Some (cj_set_child (cj_child obj @ map (\<lambda>(k, a). cj_set_string (Some k) (jarg_item a)) kvs) obj)" for nm obj
    using assms
  proof (induction kvs arbitrary: nm obj)
    case Nil
    then show ?case by (cases obj) (simp add: jformat_def)
  next
    case (Cons ka kvs)
    obtain k a where ka: "ka = (k, a)" by force
    show ?case
      using Cons json_printf_field [of k a "jformat kvs" "map snd kvs" nm obj]
      by (simp add: ka jformat_def)
  qed
  then show ?thesis
    by (simp add: iperf_json_printf_def cJSON_CreateObject_def cJSON_New_Item_def)
qed

theorem json_printf_fields_witness:
  "iperf_json_printf ''host: %s  port: %d  '' [JString ''a'', JInt 5201] =
     Some (cj_set_child [cj_set_string (Some ''host'') (cJSON_CreateString ''a''),
       cj_set_string (Some ''port'') (cJSON_CreateInt 5201)] cJSON_CreateObject)"
  using json_printf_fields [of "[(''host'', JString ''a''), (''port'', JInt 5201)]"]
  by (simp add: jformat_def)

end
