(* ===== verification/Units.thy ===== *)
theory Units
  imports CDouble
begin

text \<open>
  \<open>units.c\<close>: numbers with a K, M or G suffix, read from the command line and printed in reports.
  \<open>sscanf\<close> with \<open>%lf%c\<close> is modelled for decimal numbers; when it finds no number the code uses an
  uninitialised variable, which is \<open>None\<close> here. An index outside the conversion tables is \<open>None\<close> too.
\<close>

section \<open>Reading\<close>

definition is_space :: "char \<Rightarrow> bool" where
  "is_space c \<longleftrightarrow> (of_char c :: nat) \<in> {9, 10, 11, 12, 13, 32}"

fun scan_nat :: "nat \<Rightarrow> string \<Rightarrow> nat \<times> nat \<times> string" where
  "scan_nat n [] = (n, 0, [])"
| "scan_nat n (c # cs) =
     (if is_digit c then (case scan_nat (n * 10 + nat (digit_val c)) cs of (m, k, r) \<Rightarrow> (m, Suc k, r))
      else (n, 0, c # cs))"

fun scan_sign :: "string \<Rightarrow> int \<times> string" where
  "scan_sign (c # cs) = (if c = CHR ''-'' then (-1, cs) else if c = CHR ''+'' then (1, cs) else (1, c # cs))"
| "scan_sign [] = (1, [])"

text \<open>The longest decimal floating-point number a string starts with, and the rest.\<close>

definition scan_double :: "string \<Rightarrow> (double \<times> string) option" where
  "scan_double s =
     (case scan_sign (dropWhile is_space s) of (sg, s1) \<Rightarrow>
      case scan_nat 0 s1 of (n1, k1, s2) \<Rightarrow>
        let (n2, k2, s3) =
          (case s2 of c # cs \<Rightarrow> if c = CHR ''.'' then scan_nat n1 cs else (n1, 0, s2) | [] \<Rightarrow> (n1, 0, s2))
        in if k1 + k2 = 0 then None
           else
             let (e, s4) =
               (case s3 of
                  c # cs \<Rightarrow>
                    if c = CHR ''e'' \<or> c = CHR ''E'' then
                      (case scan_sign cs of (es, cs1) \<Rightarrow>
                       case scan_nat 0 cs1 of (x, k, r) \<Rightarrow> if k = 0 then (0, s3) else (es * int x, r))
                    else (0, s3)
                | [] \<Rightarrow> (0, s3))
             in Some (rnd (of_int sg * of_nat n2 * pow10r (e - int k2)), s4))"

definition KILO_UNIT :: int where "KILO_UNIT = 1024"
definition MEGA_UNIT :: int where "MEGA_UNIT = 1024 * 1024"
definition GIGA_UNIT :: int where "GIGA_UNIT = 1024 * 1024 * 1024"
definition KILO_RATE_UNIT :: int where "KILO_RATE_UNIT = 1000"
definition MEGA_RATE_UNIT :: int where "MEGA_RATE_UNIT = 1000 * 1000"
definition GIGA_RATE_UNIT :: int where "GIGA_RATE_UNIT = 1000 * 1000 * 1000"

definition suffix_factor :: "int \<Rightarrow> int \<Rightarrow> int \<Rightarrow> string \<Rightarrow> double option" where
  "suffix_factor k m g rest =
     (case rest of
        [] \<Rightarrow> None
      | c # _ \<Rightarrow>
          if c = CHR ''g'' \<or> c = CHR ''G'' then Some (d_of_int g)
          else if c = CHR ''m'' \<or> c = CHR ''M'' then Some (d_of_int m)
          else if c = CHR ''k'' \<or> c = CHR ''K'' then Some (d_of_int k)
          else None)"

definition scaled :: "int \<Rightarrow> int \<Rightarrow> int \<Rightarrow> string \<Rightarrow> double option" where
  "scaled k m g s =
     (case scan_double s of
        None \<Rightarrow> None
      | Some (n, rest) \<Rightarrow>
          (case suffix_factor k m g rest of None \<Rightarrow> Some n | Some f \<Rightarrow> Some (d_mul n f)))"

definition unit_atof :: "string \<Rightarrow> double option" where
  "unit_atof s = scaled KILO_UNIT MEGA_UNIT GIGA_UNIT s"

definition unit_atof_rate :: "string \<Rightarrow> double option" where
  "unit_atof_rate s = scaled KILO_RATE_UNIT MEGA_RATE_UNIT GIGA_RATE_UNIT s"

text \<open>\<open>iperf_size_t\<close> is an unsigned 64-bit integer.\<close>

definition unit_atoi :: "string \<Rightarrow> int option" where
  "unit_atoi s = map_option d_to_u64 (scaled KILO_UNIT MEGA_UNIT GIGA_UNIT s)"

section \<open>Printing\<close>

definition conversion_bytes :: "double list" where
  "conversion_bytes =
     [Fin 1, d_div (Fin 1) (Fin 1024), d_div (d_div (Fin 1) (Fin 1024)) (Fin 1024),
      d_div (d_div (d_div (Fin 1) (Fin 1024)) (Fin 1024)) (Fin 1024)]"

definition conversion_bits :: "double list" where
  "conversion_bits =
     [Fin 1, d_div (Fin 1) (Fin 1000), d_div (d_div (Fin 1) (Fin 1000)) (Fin 1000),
      d_div (d_div (d_div (Fin 1) (Fin 1000)) (Fin 1000)) (Fin 1000)]"

definition label_byte :: "string list" where
  "label_byte = [''Byte'', ''KByte'', ''MByte'', ''GByte'']"

definition label_bit :: "string list" where
  "label_bit = [''bit'', ''Kbit'', ''Mbit'', ''Gbit'']"

definition is_upper :: "char \<Rightarrow> bool" where
  "is_upper c \<longleftrightarrow> 65 \<le> (of_char c :: nat) \<and> (of_char c :: nat) \<le> 90"

definition to_upper :: "char \<Rightarrow> char" where
  "to_upper c = (if 97 \<le> (of_char c :: nat) \<and> (of_char c :: nat) \<le> 122 then char_of (of_char c - 32 :: nat) else c)"

text \<open>The loop that picks the unit; \<open>conv\<close> runs up to one past \<open>GIGA_CONV\<close>.\<close>

function adapt_unit :: "double \<Rightarrow> double \<Rightarrow> nat \<Rightarrow> nat" where
  "adapt_unit base x conv =
     (if d_le base x \<and> conv \<le> 3 then adapt_unit base (d_div x base) (Suc conv) else conv)"
  by pat_completeness auto
termination by (relation "measure (\<lambda>(base, x, conv). 4 - conv)") auto

declare adapt_unit.simps [simp del]

definition unit_conv :: "double \<Rightarrow> char \<Rightarrow> nat" where
  "unit_conv x fmt =
     (let u = to_upper fmt in
      if u = CHR ''B'' then 0 else if u = CHR ''K'' then 1
      else if u = CHR ''M'' then 2 else if u = CHR ''G'' then 3
      else if is_upper fmt then adapt_unit (Fin 1024) x 0 else adapt_unit (Fin 1000) x 0)"

definition at_opt :: "'a list \<Rightarrow> nat \<Rightarrow> 'a option" where
  "at_opt xs n = (if n < length xs then Some (xs ! n) else None)"

text \<open>\<open>%4.Nf\<close>\<close>

definition fmt_w4 :: "nat \<Rightarrow> double \<Rightarrow> string" where
  "fmt_w4 prec x = pad_left 4 CHR '' '' (fmt_f prec x)"

definition unit_snprintf :: "nat \<Rightarrow> double \<Rightarrow> char \<Rightarrow> string option" where
  "unit_snprintf inLen inNum inFormat =
     (let x = (if \<not> is_upper inFormat then d_mul inNum (Fin 8) else inNum);
          conv = unit_conv x inFormat;
          factors = (if \<not> is_upper inFormat then conversion_bits else conversion_bytes);
          labels = (if \<not> is_upper inFormat then label_bit else label_byte)
      in case (at_opt factors conv, at_opt labels conv) of
           (Some f, Some suffix) \<Rightarrow>
             (let y = d_mul x f;
                  prec = (if d_lt y (rnd (9995 / 1000)) then 2
                    else if d_lt y (rnd (9995 / 100)) then 1 else 0)
              in Some (take (inLen - 1) (fmt_w4 prec y @ '' '' @ suffix)))
         | _ \<Rightarrow> None)"

section \<open>Properties\<close>

lemma adapt_unit_le: "conv \<le> 4 \<Longrightarrow> adapt_unit base x conv \<le> 4"
  by (induction base x conv rule: adapt_unit.induct) (subst adapt_unit.simps, auto)


lemma d_div_1024: "\<bar>n\<bar> \<le> 2 ^ 53 \<Longrightarrow> d_div (Fin (of_int (n * 1024))) (Fin 1024) = Fin (of_int n)"
  using rnd_int [of n] by simp

text \<open>
  A defect. For every amount of a whole number of tebibytes the adaptive byte format, the one
  every report uses for the bytes transferred, indexes both tables one past their end.
\<close>

theorem unit_snprintf_tebibytes:
  assumes "1 \<le> n" "n \<le> 2 ^ 13"
  shows "unit_snprintf len (Fin (of_int (n * 2 ^ 40))) CHR ''A'' = None"
proof -
  have step: "adapt_unit (Fin 1024) (Fin (of_int (m * 1024))) c = adapt_unit (Fin 1024) (Fin (of_int m)) (Suc c)"
    if "1 \<le> m" "m \<le> 2 ^ 53" "c \<le> 3" for m c
  proof -
    have "(1024 :: rat) \<le> of_int (m * 1024)" using that(1) by simp
    then have "d_le (Fin 1024) (Fin (of_int (m * 1024)))"
      by (simp add: d_le_def le_less)
    then show ?thesis
      using that d_div_1024 [of m] by (subst adapt_unit.simps) (simp del: of_int_mult)
  qed
  have e: "n * 2 ^ 40 = n * 2 ^ 30 * 1024" "n * 2 ^ 30 = n * 2 ^ 20 * 1024" "n * 2 ^ 20 = n * 2 ^ 10 * 1024"
    "n * 2 ^ 10 = n * 1024"
    by simp_all
  have "adapt_unit (Fin 1024) (Fin (of_int (n * 2 ^ 40))) 0 = adapt_unit (Fin 1024) (Fin (of_int (n * 2 ^ 30))) (Suc 0)"
    unfolding e(1) using assms by (intro step) auto
  also have "\<dots> = adapt_unit (Fin 1024) (Fin (of_int (n * 2 ^ 20))) (Suc (Suc 0))"
    unfolding e(2) using assms by (intro step) auto
  also have "\<dots> = adapt_unit (Fin 1024) (Fin (of_int (n * 2 ^ 10))) (Suc (Suc (Suc 0)))"
    unfolding e(3) using assms by (intro step) auto
  also have "\<dots> = adapt_unit (Fin 1024) (Fin (of_int n)) (Suc (Suc (Suc (Suc 0))))"
    unfolding e(4) using assms by (intro step) auto
  also have "\<dots> = 4" by (subst adapt_unit.simps) simp
  finally have c: "unit_conv (Fin (of_int (n * 2 ^ 40))) CHR ''A'' = 4"
    by (simp add: unit_conv_def to_upper_def is_upper_def)
  show ?thesis
    unfolding unit_snprintf_def Let_def
    using c by (simp add: is_upper_def at_opt_def conversion_bytes_def label_byte_def del: of_int_mult)
qed

theorem unit_snprintf_tebibytes_witness:
  "unit_snprintf 12 (Fin (of_int (3 * 2 ^ 40))) CHR ''A'' = None"
  by (rule unit_snprintf_tebibytes) simp_all

end
