(* ===== verification/Printf.thy ===== *)
theory Printf
  imports Units
begin

text \<open>
  The formatted output of the program: an interpreter for the conversions its format strings use
  (\<open>%d %u %lld %llu %zu %s %f %g %%\<close>, with flags, width and precision), and the format strings of
  \<open>iperf_locale.c\<close>. An argument is an integer, a string or a floating-point number.
\<close>

section \<open>The formatter\<close>

datatype parg = PInt int | PStr string | PDbl double

text \<open>\<open>%.Pg\<close>: the shorter of the two notations, without trailing zeros.\<close>

definition strip_zeros :: "string \<Rightarrow> string" where
  "strip_zeros s =
     (if CHR ''.'' \<in> set s then
        (let r = dropWhile (\<lambda>c. c = CHR ''0'') (rev s)
         in rev (if r \<noteq> [] \<and> hd r = CHR ''.'' then tl r else r))
      else s)"

definition fmt_sci :: "nat \<Rightarrow> nat \<Rightarrow> int \<Rightarrow> string" where
  "fmt_sci p m k =
     strip_zeros (show_nat (m div 10 ^ p) @ (if p = 0 then [] else ''.'' @ pad_left p CHR ''0'' (show_nat (m mod 10 ^ p)))) @
     ''e'' @ (if k < 0 then ''-'' else ''+'') @ pad_left 2 CHR ''0'' (show_nat (nat \<bar>k\<bar>))"

definition fmt_general :: "nat \<Rightarrow> rat \<Rightarrow> string" where
  "fmt_general prec x =
     (let p = (if prec = 0 then 1 else prec);
          k0 = (if x = 0 then 0 else dec_exp \<bar>x\<bar>);
          m0 = nat (round_half_even (\<bar>x\<bar> / pow10r (k0 - int p + 1)));
          (m, k) = (if m0 = 10 ^ p then (10 ^ (p - 1), k0 + 1) else (m0, k0))
      in (if x < 0 then ''-'' else []) @
         (if k < -4 \<or> int p \<le> k then fmt_sci (p - 1) m k
          else strip_zeros (fmt_fixed (nat (int p - 1 - k)) \<bar>x\<bar>)))"

fun fmt_g :: "nat \<Rightarrow> double \<Rightarrow> string" where
  "fmt_g prec (Fin x) = fmt_general prec x"
| "fmt_g prec d = fmt_f 0 d"

record fspec =
  fs_left :: bool
  fs_zero :: bool
  fs_width :: nat
  fs_prec :: "nat option"

definition fspec0 :: fspec where
  "fspec0 = \<lparr>fs_left = False, fs_zero = False, fs_width = 0, fs_prec = None\<rparr>"

definition fpad :: "fspec \<Rightarrow> bool \<Rightarrow> string \<Rightarrow> string" where
  "fpad f num s =
     (if fs_left f then s @ replicate (fs_width f - length s) CHR '' ''
      else if num \<and> fs_zero f then
        (case s of
           c # cs \<Rightarrow> if c = CHR ''-'' then c # pad_left (fs_width f - 1) CHR ''0'' cs else pad_left (fs_width f) CHR ''0'' s
         | [] \<Rightarrow> pad_left (fs_width f) CHR ''0'' s)
      else pad_left (fs_width f) CHR '' '' s)"

definition fprec :: "fspec \<Rightarrow> nat" where
  "fprec f = (case fs_prec f of None \<Rightarrow> 6 | Some p \<Rightarrow> p)"

fun conversion :: "fspec \<Rightarrow> char \<Rightarrow> parg \<Rightarrow> string" where
  "conversion f c (PInt n) = fpad f True (show_int n)"
| "conversion f c (PStr s) = fpad f False (case fs_prec f of None \<Rightarrow> s | Some p \<Rightarrow> take p s)"
| "conversion f c (PDbl d) = fpad f True (if c = CHR ''g'' then fmt_g (fprec f) d else fmt_f (fprec f) d)"

text \<open>The first argument is the conversion being read, \<open>None\<close> between conversions.\<close>

fun c_format :: "fspec option \<Rightarrow> string \<Rightarrow> parg list \<Rightarrow> string" where
  "c_format sp [] args = []"
| "c_format None (c # cs) args =
     (if c = CHR ''%'' then c_format (Some fspec0) cs args else c # c_format None cs args)"
| "c_format (Some f) (c # cs) args =
     (if c = CHR ''%'' then c # c_format None cs args
      else if c = CHR ''-'' then c_format (Some (f\<lparr>fs_left := True\<rparr>)) cs args
      else if c = CHR ''.'' then c_format (Some (f\<lparr>fs_prec := Some 0\<rparr>)) cs args
      else if c = CHR ''l'' \<or> c = CHR ''z'' then c_format (Some f) cs args
      else if is_digit c then
        (let d = nat (digit_val c) in
         case fs_prec f of
           Some p \<Rightarrow> c_format (Some (f\<lparr>fs_prec := Some (p * 10 + d)\<rparr>)) cs args
         | None \<Rightarrow>
             if d = 0 \<and> fs_width f = 0 then c_format (Some (f\<lparr>fs_zero := True\<rparr>)) cs args
             else c_format (Some (f\<lparr>fs_width := fs_width f * 10 + d\<rparr>)) cs args)
      else
        (case args of
           [] \<Rightarrow> []
         | a # as \<Rightarrow> conversion f c a @ c_format None cs as))"

definition c_printf :: "string \<Rightarrow> parg list \<Rightarrow> string" where
  "c_printf fmt args = c_format None fmt args"

section \<open>\<open>iperf_locale.c\<close>\<close>

definition nl :: string where "nl = [CHR 0x0A]"

text \<open>The bytes of a buffer up to its first NUL.\<close>

definition c_str :: "string \<Rightarrow> string" where
  "c_str s = takeWhile (\<lambda>c. c \<noteq> CHR 0x00) s"

definition version_text :: string where "version_text = ''iperf 3.1.3''"

definition usage_shortstr :: string where
  "usage_shortstr = ''Usage: iperf [-s|-c host] [options]'' @ nl @
     ''Try `iperf --help' for more information.'' @ nl"

definition test_start_time :: string where
  "test_start_time = ''Starting Test: protocol: %s, %d streams, %d byte blocks, omitting %d seconds, %d second test'' @ nl"
definition test_start_bytes :: string where
  "test_start_bytes = ''Starting Test: protocol: %s, %d streams, %d byte blocks, omitting %d seconds, %llu bytes to send'' @ nl"
definition test_start_blocks :: string where
  "test_start_blocks = ''Starting Test: protocol: %s, %d streams, %d byte blocks, omitting %d seconds, %d blocks to send'' @ nl"
definition report_time :: string where "report_time = ''Time: %s'' @ nl"
definition report_connecting :: string where "report_connecting = ''Connecting to host %s, port %d'' @ nl"
definition report_reverse :: string where "report_reverse = ''Reverse mode, remote host %s is sending'' @ nl"
definition report_accepted :: string where "report_accepted = ''Accepted connection from %s, port %d'' @ nl"
definition report_cookie :: string where "report_cookie = ''      Cookie: %s'' @ nl"
definition report_connected :: string where
  "report_connected = ''[%3d] local %s port %d connected to %s port %d'' @ nl"
definition report_omit_done :: string where "report_omit_done = ''Finished omit period, starting real test'' @ nl"
definition report_diskfile :: string where "report_diskfile = ''        Sent %s / %s (%d%%) of %s'' @ nl"
definition report_done :: string where "report_done = ''iperf Done.'' @ nl"
definition report_bw_header :: string where
  "report_bw_header = ''[ ID] Interval           Transfer     Bandwidth'' @ nl"
definition report_bw_retrans_header :: string where
  "report_bw_retrans_header = ''[ ID] Interval           Transfer     Bandwidth       Retr'' @ nl"
definition report_bw_retrans_cwnd_header :: string where
  "report_bw_retrans_cwnd_header = ''[ ID] Interval           Transfer     Bandwidth       Retr  Cwnd'' @ nl"
definition report_bw_udp_header :: string where
  "report_bw_udp_header = ''[ ID] Interval           Transfer     Bandwidth       Jitter    Lost/Total Datagrams'' @ nl"
definition report_bw_udp_sender_header :: string where
  "report_bw_udp_sender_header = ''[ ID] Interval           Transfer     Bandwidth       Total Datagrams'' @ nl"
definition report_bw_format :: string where
  "report_bw_format = ''[%3d] %6.2f-%-6.2f sec  %ss  %ss/sec                  %s'' @ nl"
definition report_bw_retrans_format :: string where
  "report_bw_retrans_format = ''[%3d] %6.2f-%-6.2f sec  %ss  %ss/sec  %3u             %s'' @ nl"
definition report_bw_retrans_cwnd_format :: string where
  "report_bw_retrans_cwnd_format = ''[%3d] %6.2f-%-6.2f sec  %ss  %ss/sec  %3u   %ss       %s'' @ nl"
definition report_bw_udp_format :: string where
  "report_bw_udp_format = ''[%3d] %6.2f-%-6.2f sec  %ss  %ss/sec  %5.3f ms  %d/%d (%.2g%%)  %s'' @ nl"
definition report_bw_udp_sender_format :: string where
  "report_bw_udp_sender_format = ''[%3d] %6.2f-%-6.2f sec  %ss  %ss/sec  %d  %s'' @ nl"
definition report_summary :: string where "report_summary = ''Test Complete. Summary Results:'' @ nl"
definition report_sum_bw_format :: string where
  "report_sum_bw_format = ''[SUM] %6.2f-%-6.2f sec  %ss  %ss/sec                  %s'' @ nl"
definition report_sum_bw_retrans_format :: string where
  "report_sum_bw_retrans_format = ''[SUM] %6.2f-%-6.2f sec  %ss  %ss/sec  %3d             %s'' @ nl"
definition report_sum_bw_udp_format :: string where
  "report_sum_bw_udp_format = ''[SUM] %6.2f-%-6.2f sec  %ss  %ss/sec  %5.3f ms  %d/%d (%.2g%%)  %s'' @ nl"
definition report_sum_bw_udp_sender_format :: string where
  "report_sum_bw_udp_sender_format = ''[SUM] %6.2f-%-6.2f sec  %ss  %ss/sec  %d  %s'' @ nl"
definition report_omitted :: string where "report_omitted = ''(omitted)''"
definition report_bw_separator :: string where
  "report_bw_separator = ''- - - - - - - - - - - - - - - - - - - - - - - - -'' @ nl"
definition report_outoforder :: string where
  "report_outoforder = ''[%3d] %4.1f-%4.1f sec  %d datagrams received out-of-order'' @ nl"
definition report_sum_outoforder :: string where
  "report_sum_outoforder = ''[SUM] %4.1f-%4.1f sec  %d datagrams received out-of-order'' @ nl"
definition report_cpu :: string where
  "report_cpu = ''CPU Utilization: %s/%s %.1f%% (%.1f%%u/%.1f%%s), %s/%s %.1f%% (%.1f%%u/%.1f%%s)'' @ nl"
definition report_local :: string where "report_local = ''local''"
definition report_remote :: string where "report_remote = ''remote''"
definition report_sender :: string where "report_sender = ''sender''"
definition report_receiver :: string where "report_receiver = ''receiver''"

end
