(* ===== verification/Cjson_Print.thy ===== *)
theory Cjson_Print
  imports Cjson
begin

text \<open>
  \<open>cjson.c\<close>: rendering an item to text. A rendering is a string without its terminating NUL, or
  \<open>None\<close> where the code returns a null pointer. Every rendering is written into a block whose
  size the code computes first; the sizes are modelled next to the texts, and the theorems show
  that the texts fit.
\<close>

section \<open>Numbers and strings\<close>

definition LLONG_MAX_d :: double where "LLONG_MAX_d = d_of_int (2 ^ 63 - 1)"
definition LLONG_MIN_d :: double where "LLONG_MIN_d = d_of_int (- (2 ^ 63))"

definition print_number :: "cJSON \<Rightarrow> string" where
  "print_number item =
     (let d = cj_valuedouble item
      in if d_eq d (Fin 0) then ''0''
         else if d_le (d_abs (d_sub (d_of_int (cj_valueint item)) d)) DBL_EPSILON \<and>
           d_le d LLONG_MAX_d \<and> d_le LLONG_MIN_d d
         then show_int (cj_valueint item)
         else if \<not> d_isnormal d then ''null''
         else if d_le (d_abs (d_sub (d_floor d) d)) DBL_EPSILON \<and> d_lt (d_abs d) (pow10 60)
         then fmt_f 0 d
         else if d_lt (d_abs d) (pow10 (- 6)) \<or> d_lt (pow10 9) (d_abs d) then fmt_e d
         else fmt_f 6 d)"

definition hex_digit :: "nat \<Rightarrow> char" where
  "hex_digit n = (if n < 10 then char_of (48 + n) else char_of (87 + n))"

text \<open>\<open>sprintf\<close> with \<open>u%04x\<close> of a byte.\<close>

definition show_u4 :: "char \<Rightarrow> string" where
  "show_u4 c = (let n = of_char c :: nat in [CHR ''u'', CHR ''0'', CHR ''0'', hex_digit (n div 16), hex_digit (n mod 16)])"

definition json_special :: "string" where
  "json_special = [CHR 0x22, CHR 0x5C, CHR 0x08, CHR 0x0C, CHR 0x0A, CHR 0x0D, CHR 0x09]"

definition must_escape :: "char \<Rightarrow> bool" where
  "must_escape c \<longleftrightarrow> (of_char c :: nat) < 32 \<or> c = CHR 0x22 \<or> c = CHR 0x5C"

definition escape_char :: "char \<Rightarrow> string" where
  "escape_char c =
     (if \<not> must_escape c then [c]
      else CHR 0x5C #
        (if c = CHR 0x5C then [CHR 0x5C]
         else if c = CHR 0x22 then [CHR 0x22]
         else if c = CHR 0x08 then ''b''
         else if c = CHR 0x0C then ''f''
         else if c = CHR 0x0A then ''n''
         else if c = CHR 0x0D then ''r''
         else if c = CHR 0x09 then ''t''
         else show_u4 c))"

definition escaped_length :: "string \<Rightarrow> nat" where
  "escaped_length s =
     sum_list (map (\<lambda>c. 1 + (if c \<in> set json_special then 1 else if (of_char c :: nat) < 32 then 5 else 0)) s)"

definition print_string_alloc :: "string option \<Rightarrow> nat" where
  "print_string_alloc str =
     (case str of None \<Rightarrow> 3
      | Some s \<Rightarrow> if list_ex must_escape s then escaped_length s + 3 else length s + 3)"

definition print_string_ptr :: "string option \<Rightarrow> string" where
  "print_string_ptr str =
     (case str of
        None \<Rightarrow> [CHR 0x22, CHR 0x22]
      | Some s \<Rightarrow>
          if \<not> list_ex must_escape s then CHR 0x22 # s @ [CHR 0x22]
          else CHR 0x22 # concat (map escape_char s) @ [CHR 0x22])"

definition print_string :: "cJSON \<Rightarrow> string" where
  "print_string item = print_string_ptr (cj_valuestring item)"

section \<open>Arrays and objects\<close>

text \<open>Composing the output from the renderings of the children, and the size of its block.\<close>

fun compose_array :: "bool \<Rightarrow> string list \<Rightarrow> string" where
  "compose_array fmt [] = []"
| "compose_array fmt [e] = e"
| "compose_array fmt (e # es) = e @ CHR '','' # (if fmt then '' '' else []) @ compose_array fmt es"

definition array_text :: "bool \<Rightarrow> string list \<Rightarrow> string" where
  "array_text fmt es = (if es = [] then ''[]'' else ''['' @ compose_array fmt es @ '']'')"

definition array_alloc :: "bool \<Rightarrow> string list \<Rightarrow> nat" where
  "array_alloc fmt es =
     (if es = [] then 3 else 5 + sum_list (map (\<lambda>e. length e + 2 + (if fmt then 1 else 0)) es))"

definition tabs :: "nat \<Rightarrow> string" where
  "tabs n = replicate n CHR 0x09"

text \<open>\<open>depth\<close> is the depth of the children here: the code has incremented it.\<close>

fun compose_object :: "nat \<Rightarrow> bool \<Rightarrow> (string \<times> string) list \<Rightarrow> string" where
  "compose_object depth fmt [] = []"
| "compose_object depth fmt ((n, e) # es) =
     (if fmt then tabs depth else []) @ n @ '':'' @ (if fmt then [CHR 0x09] else []) @ e @
     (if es \<noteq> [] then '','' else []) @ (if fmt then [CHR 0x0A] else []) @ compose_object depth fmt es"

definition object_text :: "nat \<Rightarrow> bool \<Rightarrow> (string \<times> string) list \<Rightarrow> string" where
  "object_text depth fmt es =
     (if es = [] then ''{'' @ (if fmt then CHR 0x0A # tabs depth else []) @ ''}''
      else ''{'' @ (if fmt then [CHR 0x0A] else []) @ compose_object (Suc depth) fmt es @
        (if fmt then tabs depth else []) @ ''}'')"

definition object_alloc :: "nat \<Rightarrow> bool \<Rightarrow> (string \<times> string) list \<Rightarrow> nat" where
  "object_alloc depth fmt es =
     (if es = [] then (if fmt then depth + 4 else 3)
      else 7 + (if fmt then Suc depth else 0) +
        sum_list (map (\<lambda>(n, e). length e + length n + 2 + (if fmt then 2 + Suc depth else 0)) es))"

text \<open>All renderings, or \<open>None\<close> when one of them failed.\<close>

fun all_some :: "'a option list \<Rightarrow> 'a list option" where
  "all_some [] = Some []"
| "all_some (None # xs) = None"
| "all_some (Some x # xs) = (case all_some xs of None \<Rightarrow> None | Some ys \<Rightarrow> Some (x # ys))"

fun print_value :: "cJSON \<Rightarrow> nat \<Rightarrow> bool \<Rightarrow> string option" where
  "print_value (CJ t vs vi vd nm ch) depth fmt =
     (let item = CJ t vs vi vd nm ch; ty = t mod 256
      in if ty = cJSON_NULL then Some ''null''
         else if ty = cJSON_False then Some ''false''
         else if ty = cJSON_True then Some ''true''
         else if ty = cJSON_Number then Some (print_number item)
         else if ty = cJSON_String then Some (print_string item)
         else if ty = cJSON_Array then
           (case all_some (map (\<lambda>c. print_value c (Suc depth) fmt) ch) of
              None \<Rightarrow> None
            | Some es \<Rightarrow> Some (array_text fmt es))
         else if ty = cJSON_Object then
           (case all_some (map (\<lambda>c. print_value c (Suc depth) fmt) ch) of
              None \<Rightarrow> None
            | Some es \<Rightarrow> Some (object_text depth fmt
                (zip (map (\<lambda>c. print_string_ptr (cj_string c)) ch) es)))
         else None)"

definition print_array :: "cJSON \<Rightarrow> nat \<Rightarrow> bool \<Rightarrow> string option" where
  "print_array item depth fmt =
     map_option (array_text fmt) (all_some (map (\<lambda>c. print_value c (Suc depth) fmt) (cj_child item)))"

definition print_object :: "cJSON \<Rightarrow> nat \<Rightarrow> bool \<Rightarrow> string option" where
  "print_object item depth fmt =
     map_option (\<lambda>es. object_text depth fmt (zip (map (\<lambda>c. print_string_ptr (cj_string c)) (cj_child item)) es))
       (all_some (map (\<lambda>c. print_value c (Suc depth) fmt) (cj_child item)))"

definition cJSON_Print :: "cJSON \<Rightarrow> string option" where
  "cJSON_Print item = print_value item 0 True"

definition cJSON_PrintUnformatted :: "cJSON \<Rightarrow> string option" where
  "cJSON_PrintUnformatted item = print_value item 0 False"

section \<open>Renderings fit their blocks\<close>

lemma length_escape_char: "length (escape_char c) =
    1 + (if c \<in> set json_special then 1 else if (of_char c :: nat) < 32 then 5 else 0)"
  by (auto simp: escape_char_def must_escape_def json_special_def show_u4_def Let_def)

text \<open>
  \<open>print_string_ptr\<close> writes exactly the bytes it allocated: the first pass over the string counts
  what the second pass produces, whichever characters have to be escaped, with room for the two
  quotes and the NUL.
\<close>

theorem print_string_fits: "length (print_string_ptr str) + 1 = print_string_alloc str"
proof (cases str)
  case (Some s)
  have "length (concat (map escape_char s)) = escaped_length s"
    by (induction s) (auto simp: escaped_length_def length_escape_char)
  with Some show ?thesis by (auto simp: print_string_ptr_def print_string_alloc_def)
qed (simp add: print_string_ptr_def print_string_alloc_def)

text \<open>
  C35: the composed text of an array or an object, with its NUL, fits the block \<open>print_array\<close> and
  \<open>print_object\<close> compute the size of, formatted or not and at any depth.
\<close>

theorem containers_fit:
  "length (array_text fmt es) + 1 \<le> array_alloc fmt es \<and>
   length (object_text depth fmt ps) + 1 \<le> object_alloc depth fmt ps"
proof -
  have a: "length (compose_array fmt es) \<le> sum_list (map (\<lambda>e. length e + 2 + (if fmt then 1 else 0)) es)"
    by (induction fmt es rule: compose_array.induct) auto
  have o: "length (compose_object (Suc depth) fmt ps) \<le>
      sum_list (map (\<lambda>(n, e). length e + length n + 2 + (if fmt then 2 + Suc depth else 0)) ps)"
    by (induction ps) (auto simp: tabs_def split: prod.split)
  show ?thesis
    using a o by (auto simp: array_text_def array_alloc_def object_text_def object_alloc_def tabs_def)
qed

end
