(* ===== verification/Iperf.thy ===== *)
theory Iperf
  imports Util Printf Cjson_Print
begin

text \<open>
  The data of a test (\<open>iperf.h\<close>, \<open>iperf_api.h\<close>) and the operations on it that every other part uses
  (\<open>iperf_api.c\<close>): getters and setters, the protocol list, defaults, formatted output, errors,
  freeing and resetting.

  There is one test, the field \<open>tst\<close> of the state; its streams are cells of the heap \<open>strms\<close>, and
  \<open>t_streams\<close> lists their addresses in the order of the linked list. The function pointers
  \<open>on_new_stream\<close>, \<open>on_test_start\<close>, \<open>on_connect\<close> and \<open>on_test_finish\<close> are set once, to the functions of
  the same names, and are called directly. The pointers into the JSON document (\<open>json_start\<close>,
  \<open>json_connected\<close>, \<open>json_intervals\<close>, \<open>json_end\<close>) are paths into the document \<open>t_json_top\<close>. The list
  \<open>xbind_addrs\<close> is used by SCTP only and left out.
\<close>

section \<open>Constants\<close>

definition Ptcp :: int where "Ptcp = SOCK_STREAM"
definition Pudp :: int where "Pudp = SOCK_DGRAM"
definition DEFAULT_UDP_BLKSIZE :: int where "DEFAULT_UDP_BLKSIZE = 8192"
definition DEFAULT_TCP_BLKSIZE :: int where "DEFAULT_TCP_BLKSIZE = 128 * 1024"

definition TEST_START :: int where "TEST_START = 1"
definition TEST_RUNNING :: int where "TEST_RUNNING = 2"
definition TEST_END :: int where "TEST_END = 4"
definition STREAM_BEGIN :: int where "STREAM_BEGIN = 5"
definition PARAM_EXCHANGE :: int where "PARAM_EXCHANGE = 9"
definition CREATE_STREAMS :: int where "CREATE_STREAMS = 10"
definition SERVER_TERMINATE :: int where "SERVER_TERMINATE = 11"
definition CLIENT_TERMINATE :: int where "CLIENT_TERMINATE = 12"
definition EXCHANGE_RESULTS :: int where "EXCHANGE_RESULTS = 13"
definition DISPLAY_RESULTS :: int where "DISPLAY_RESULTS = 14"
definition IPERF_START :: int where "IPERF_START = 15"
definition IPERF_DONE :: int where "IPERF_DONE = 16"
definition ACCESS_DENIED :: int where "ACCESS_DENIED = -1"
definition SERVER_ERROR :: int where "SERVER_ERROR = -2"

lemmas state_defs = TEST_START_def TEST_RUNNING_def TEST_END_def STREAM_BEGIN_def PARAM_EXCHANGE_def
  CREATE_STREAMS_def SERVER_TERMINATE_def CLIENT_TERMINATE_def EXCHANGE_RESULTS_def DISPLAY_RESULTS_def
  IPERF_START_def IPERF_DONE_def ACCESS_DENIED_def SERVER_ERROR_def

definition PORT :: int where "PORT = 5201"
definition SEC_TO_US :: int where "SEC_TO_US = 1000000"
definition UDP_RATE :: int where "UDP_RATE = 1024 * 1024"
definition OMIT :: int where "OMIT = 0"
definition DURATION :: int where "DURATION = 10"
definition MB :: int where "MB = 1024 * 1024"
definition MAX_TCP_BUFFER :: int where "MAX_TCP_BUFFER = 512 * MB"
definition MAX_BLOCKSIZE :: int where "MAX_BLOCKSIZE = MB"
definition MAX_UDP_BLOCKSIZE :: int where "MAX_UDP_BLOCKSIZE = 65535 - 8 - 20"
definition MIN_INTERVAL :: double where "MIN_INTERVAL = rnd (1 / 10)"
definition MAX_INTERVAL :: double where "MAX_INTERVAL = Fin 60"
definition MAX_TIME :: int where "MAX_TIME = 86400"
definition MAX_BURST :: int where "MAX_BURST = 1000"
definition MAX_MSS :: int where "MAX_MSS = 9 * 1024"
definition MAX_STREAMS :: int where "MAX_STREAMS = 128"

definition INVOKE_TYPE_JNI :: int where "INVOKE_TYPE_JNI = 0"
definition INVOKE_TYPE_EXEC :: int where "INVOKE_TYPE_EXEC = 1"

section \<open>Error codes\<close>

definition IENONE :: int where "IENONE = 0"
definition IESERVCLIENT :: int where "IESERVCLIENT = 1"
definition IENOROLE :: int where "IENOROLE = 2"
definition IESERVERONLY :: int where "IESERVERONLY = 3"
definition IECLIENTONLY :: int where "IECLIENTONLY = 4"
definition IEDURATION :: int where "IEDURATION = 5"
definition IENUMSTREAMS :: int where "IENUMSTREAMS = 6"
definition IEBLOCKSIZE :: int where "IEBLOCKSIZE = 7"
definition IEBUFSIZE :: int where "IEBUFSIZE = 8"
definition IEINTERVAL :: int where "IEINTERVAL = 9"
definition IEMSS :: int where "IEMSS = 10"
definition IENOSENDFILE :: int where "IENOSENDFILE = 11"
definition IEOMIT :: int where "IEOMIT = 12"
definition IEUNIMP :: int where "IEUNIMP = 13"
definition IEFILE :: int where "IEFILE = 14"
definition IEBURST :: int where "IEBURST = 15"
definition IEENDCONDITIONS :: int where "IEENDCONDITIONS = 16"
definition IELOGFILE :: int where "IELOGFILE = 17"
definition IEBIND :: int where "IEBIND = 19"
definition IEUDPBLOCKSIZE :: int where "IEUDPBLOCKSIZE = 20"
definition IEBADTOS :: int where "IEBADTOS = 21"
definition IENEWTEST :: int where "IENEWTEST = 100"
definition IEINITTEST :: int where "IEINITTEST = 101"
definition IELISTEN :: int where "IELISTEN = 102"
definition IECONNECT :: int where "IECONNECT = 103"
definition IEACCEPT :: int where "IEACCEPT = 104"
definition IESENDCOOKIE :: int where "IESENDCOOKIE = 105"
definition IERECVCOOKIE :: int where "IERECVCOOKIE = 106"
definition IECTRLWRITE :: int where "IECTRLWRITE = 107"
definition IECTRLREAD :: int where "IECTRLREAD = 108"
definition IECTRLCLOSE :: int where "IECTRLCLOSE = 109"
definition IEMESSAGE :: int where "IEMESSAGE = 110"
definition IESENDMESSAGE :: int where "IESENDMESSAGE = 111"
definition IERECVMESSAGE :: int where "IERECVMESSAGE = 112"
definition IESENDPARAMS :: int where "IESENDPARAMS = 113"
definition IERECVPARAMS :: int where "IERECVPARAMS = 114"
definition IEPACKAGERESULTS :: int where "IEPACKAGERESULTS = 115"
definition IESENDRESULTS :: int where "IESENDRESULTS = 116"
definition IERECVRESULTS :: int where "IERECVRESULTS = 117"
definition IESELECT :: int where "IESELECT = 118"
definition IECLIENTTERM :: int where "IECLIENTTERM = 119"
definition IESERVERTERM :: int where "IESERVERTERM = 120"
definition IEACCESSDENIED :: int where "IEACCESSDENIED = 121"
definition IESETNODELAY :: int where "IESETNODELAY = 122"
definition IESETMSS :: int where "IESETMSS = 123"
definition IESETBUF :: int where "IESETBUF = 124"
definition IESETTOS :: int where "IESETTOS = 125"
definition IESETCOS :: int where "IESETCOS = 126"
definition IESETFLOW :: int where "IESETFLOW = 127"
definition IEREUSEADDR :: int where "IEREUSEADDR = 128"
definition IENONBLOCKING :: int where "IENONBLOCKING = 129"
definition IESETWINDOWSIZE :: int where "IESETWINDOWSIZE = 130"
definition IEPROTOCOL :: int where "IEPROTOCOL = 131"
definition IEAFFINITY :: int where "IEAFFINITY = 132"
definition IEDAEMON :: int where "IEDAEMON = 133"
definition IESETCONGESTION :: int where "IESETCONGESTION = 134"
definition IEPIDFILE :: int where "IEPIDFILE = 135"
definition IEV6ONLY :: int where "IEV6ONLY = 136"
definition IESETPACING :: int where "IESETPACING = 140"
definition IECREATESTREAM :: int where "IECREATESTREAM = 200"
definition IEINITSTREAM :: int where "IEINITSTREAM = 201"
definition IESTREAMLISTEN :: int where "IESTREAMLISTEN = 202"
definition IESTREAMCONNECT :: int where "IESTREAMCONNECT = 203"
definition IESTREAMACCEPT :: int where "IESTREAMACCEPT = 204"
definition IESTREAMWRITE :: int where "IESTREAMWRITE = 205"
definition IESTREAMREAD :: int where "IESTREAMREAD = 206"
definition IESTREAMCLOSE :: int where "IESTREAMCLOSE = 207"
definition IESTREAMID :: int where "IESTREAMID = 208"
definition IENEWTIMER :: int where "IENEWTIMER = 300"
definition IEUPDATETIMER :: int where "IEUPDATETIMER = 301"

lemmas ie_defs = IENONE_def IESERVCLIENT_def IENOROLE_def IESERVERONLY_def IECLIENTONLY_def IEDURATION_def
  IENUMSTREAMS_def IEBLOCKSIZE_def IEBUFSIZE_def IEINTERVAL_def IEMSS_def IENOSENDFILE_def
  IEOMIT_def IEUNIMP_def IEFILE_def IEBURST_def IEENDCONDITIONS_def IELOGFILE_def IEBIND_def
  IEUDPBLOCKSIZE_def IEBADTOS_def IENEWTEST_def IEINITTEST_def IELISTEN_def IECONNECT_def
  IEACCEPT_def IESENDCOOKIE_def IERECVCOOKIE_def IECTRLWRITE_def IECTRLREAD_def IECTRLCLOSE_def
  IEMESSAGE_def IESENDMESSAGE_def IERECVMESSAGE_def IESENDPARAMS_def IERECVPARAMS_def
  IEPACKAGERESULTS_def IESENDRESULTS_def IERECVRESULTS_def IESELECT_def IECLIENTTERM_def
  IESERVERTERM_def IEACCESSDENIED_def IESETNODELAY_def IESETMSS_def IESETBUF_def IESETTOS_def
  IESETCOS_def IESETFLOW_def IEREUSEADDR_def IENONBLOCKING_def IESETWINDOWSIZE_def IEPROTOCOL_def
  IEAFFINITY_def IEDAEMON_def IESETCONGESTION_def IEPIDFILE_def IEV6ONLY_def IESETPACING_def
  IECREATESTREAM_def IEINITSTREAM_def IESTREAMLISTEN_def IESTREAMCONNECT_def IESTREAMACCEPT_def
  IESTREAMWRITE_def IESTREAMREAD_def IESTREAMCLOSE_def IESTREAMID_def IENEWTIMER_def
  IEUPDATETIMER_def

section \<open>Data\<close>

record iperf_settings =
  st_domain :: int
  st_socket_bufsize :: int
  st_blksize :: int
  st_rate :: int
  st_burst :: int
  st_mss :: int
  st_ttl :: int
  st_tos :: int
  st_flowlabel :: int
  st_bytes :: int
  st_blocks :: int
  st_unit_format :: char
  st_num_ostreams :: int

text \<open>The part of \<open>struct tcp_info\<close> the program reads.\<close>

record tcp_info =
  tcpi_snd_cwnd :: int
  tcpi_snd_mss :: int
  tcpi_rtt :: int
  tcpi_total_retrans :: int

record iperf_interval_results =
  ir_bytes_transferred :: int
  ir_interval_start_time :: timeval
  ir_interval_end_time :: timeval
  ir_interval_duration :: double
  ir_interval_packet_count :: int
  ir_interval_outoforder_packets :: int
  ir_interval_cnt_error :: int
  ir_packet_count :: int
  ir_jitter :: double
  ir_outoforder_packets :: int
  ir_cnt_error :: int
  ir_omitted :: int
  ir_tcpInfo :: tcp_info
  ir_interval_retrans :: int
  ir_snd_cwnd :: int
  ir_rtt :: int

record iperf_stream_result =
  rp_bytes_received :: int
  rp_bytes_sent :: int
  rp_bytes_received_this_interval :: int
  rp_bytes_sent_this_interval :: int
  rp_bytes_sent_omit :: int
  rp_stream_prev_total_retrans :: int
  rp_stream_retrans :: int
  rp_stream_max_rtt :: int
  rp_stream_min_rtt :: int
  rp_stream_sum_rtt :: int
  rp_stream_count_rtt :: int
  rp_stream_max_snd_cwnd :: int
  rp_start_time :: timeval
  rp_end_time :: timeval
  rp_start_time_fixed :: timeval
  rp_interval_results :: "iperf_interval_results list"

text \<open>
  The functions a stream's \<open>snd\<close> and \<open>rcv\<close> point to. An address (\<open>struct sockaddr_storage\<close>) is the
  text \<open>inet_ntop\<close> makes of it and the port.
\<close>

datatype io_fn = Io_null | Tcp_io | Udp_io | Diskfile_io

record iperf_stream =
  sp_socket :: int
  sp_id :: int
  sp_result :: iperf_stream_result
  sp_send_timer :: "nat option"
  sp_green_light :: int
  sp_buffer_fd :: int
  sp_buffer :: string
  sp_diskfile_fd :: int
  sp_packet_count :: int
  sp_omitted_packet_count :: int
  sp_jitter :: double
  sp_prev_transit :: double
  sp_outoforder_packets :: int
  sp_omitted_outoforder_packets :: int
  sp_cnt_error :: int
  sp_omitted_cnt_error :: int
  sp_local_addr :: "string \<times> int"
  sp_remote_addr :: "string \<times> int"
  sp_rcv :: io_fn
  sp_snd :: io_fn
  sp_rcv2 :: io_fn
  sp_snd2 :: io_fn

text \<open>A protocol: the field \<open>pr_fns\<close> stands for its six function pointers.\<close>

datatype proto_fns = Tcp_fns | Udp_fns

record protocol =
  pr_id :: int
  pr_name :: string
  pr_fns :: proto_fns

datatype outfile = No_file | Stdout | Log_file string

record test_conf =
  t_role :: char
  t_sender :: int
  t_sender_has_retransmits :: int
  t_protocol :: "protocol option"
  t_state :: int
  t_server_hostname :: "string option"
  t_tmp_template :: "string option"
  t_bind_address :: "string option"
  t_bind_port :: int
  t_server_port :: int
  t_omit :: int
  t_duration :: int
  t_diskfile_name :: "string option"
  t_affinity :: int
  t_server_affinity :: int
  t_title :: "string option"
  t_congestion :: "string option"
  t_pidfile :: "string option"
  t_logfile :: "string option"
  t_outfile :: outfile

record test_flags = test_conf +
  t_ctrl_sck :: int
  t_listener :: int
  t_prot_listener :: int
  t_daemon :: int
  t_one_off :: int
  t_no_delay :: int
  t_reverse :: int
  t_verbose :: int
  t_json_output :: int
  t_zerocopy :: int
  t_debug :: int
  t_get_server_output :: int
  t_udp_counters_64bit :: int
  t_no_fq_socket_pacing :: int
  t_multisend :: int
  t_json_output_string :: "string option"

record test_run = test_flags +
  t_max_fd :: int
  t_read_set :: "int list"
  t_write_set :: "int list"
  t_omitting :: int
  t_stats_interval :: double
  t_reporter_interval :: double
  t_stats_callback :: bool
  t_reporter_callback :: bool
  t_omit_timer :: "nat option"
  t_timer :: "nat option"
  t_done :: int
  t_stats_timer :: "nat option"
  t_reporter_timer :: "nat option"

record iperf_test = test_run +
  t_cpu_util :: "double \<times> double \<times> double"
  t_remote_cpu_util :: "double \<times> double \<times> double"
  t_num_streams :: int
  t_bytes_sent :: int
  t_blocks_sent :: int
  t_cookie :: string
  t_streams :: "nat list"
  t_settings :: iperf_settings
  t_protocols :: "protocol list"
  t_json_top :: "cJSON option"
  t_server_output_text :: "string option"
  t_json_server_output :: "cJSON option"
  t_server_output_list :: "string list"
  t_jniCallback :: bool

record iperf_state = util_state +
  tst :: iperf_test
  strms :: "nat \<Rightarrow> iperf_stream"
  strm_brk :: nat
  invoke_flag :: int

type_synonym 'a iperf_m = "(iperf_state, 'a) state"

section \<open>Access\<close>

definition get_t :: "(iperf_test \<Rightarrow> 'a) \<Rightarrow> 'a iperf_m" where
  "get_t f = gets (\<lambda>s. f (tst s))"

definition mod_t :: "(iperf_test \<Rightarrow> iperf_test) \<Rightarrow> unit iperf_m" where
  "mod_t f = modify (\<lambda>s. s\<lparr>tst := f (tst s)\<rparr>)"

definition get_st :: "(iperf_settings \<Rightarrow> 'a) \<Rightarrow> 'a iperf_m" where
  "get_st f = get_t (\<lambda>t. f (t_settings t))"

definition set_st :: "(iperf_settings \<Rightarrow> iperf_settings) \<Rightarrow> iperf_test \<Rightarrow> iperf_test" where
  "set_st f t = t\<lparr>t_settings := f (t_settings t)\<rparr>"

definition get_sp :: "nat \<Rightarrow> (iperf_stream \<Rightarrow> 'a) \<Rightarrow> 'a iperf_m" where
  "get_sp p f = gets (\<lambda>s. f (strms s p))"

definition mod_sp :: "nat \<Rightarrow> (iperf_stream \<Rightarrow> iperf_stream) \<Rightarrow> unit iperf_m" where
  "mod_sp p f = modify (\<lambda>s. s\<lparr>strms := (strms s)(p := f (strms s p))\<rparr>)"

definition set_rp :: "(iperf_stream_result \<Rightarrow> iperf_stream_result) \<Rightarrow> iperf_stream \<Rightarrow> iperf_stream" where
  "set_rp f sp = sp\<lparr>sp_result := f (sp_result sp)\<rparr>"

lemma run_get_t [simp]: "run_state (get_t f) s = (f (tst s), s)"
  by (simp add: get_t_def)

lemma run_mod_t [simp]: "run_state (mod_t f) s = ((), s\<lparr>tst := f (tst s)\<rparr>)"
  by (simp add: mod_t_def)

lemma run_get_st [simp]: "run_state (get_st f) s = (f (t_settings (tst s)), s)"
  by (simp add: get_st_def)

lemma run_get_sp [simp]: "run_state (get_sp p f) s = (f (strms s p), s)"
  by (simp add: get_sp_def)

lemma run_mod_sp [simp]: "run_state (mod_sp p f) s = ((), s\<lparr>strms := (strms s)(p := f (strms s p))\<rparr>)"
  by (simp add: mod_sp_def)

lemma wp_get_t [wp_simps]: "wp (get_t f) Q = (\<lambda>s. Q (f (tst s)) s)"
  by (rule ext) (simp add: wp_def)

lemma wp_mod_t [wp_simps]: "wp (mod_t f) Q = (\<lambda>s. Q () (s\<lparr>tst := f (tst s)\<rparr>))"
  by (rule ext) (simp add: wp_def)

lemma wp_get_st [wp_simps]: "wp (get_st f) Q = (\<lambda>s. Q (f (t_settings (tst s))) s)"
  by (rule ext) (simp add: wp_def)

lemma wp_get_sp [wp_simps]: "wp (get_sp p f) Q = (\<lambda>s. Q (f (strms s p)) s)"
  by (rule ext) (simp add: wp_def)

lemma wp_mod_sp [wp_simps]: "wp (mod_sp p f) Q = (\<lambda>s. Q () (s\<lparr>strms := (strms s)(p := f (strms s p))\<rparr>))"
  by (rule ext) (simp add: wp_def)

lemma set_st_settings [simp]: "t_settings (set_st f t) = f (t_settings t)"
  by (simp add: set_st_def)

lemma after_iperf [simp]: "tst (after s c) = tst s" "strms (after s c) = strms s"
  "strm_brk (after s c) = strm_brk s" "invoke_flag (after s c) = invoke_flag s"
  "timers (after s c) = timers s" "free_timers (after s c) = free_timers s" "tm_brk (after s c) = tm_brk s"
  by (simp_all add: after_def)

section \<open>Output\<close>

definition fprintf_out :: "string \<Rightarrow> unit iperf_m" where
  "fprintf_out txt = sys_do (SPrint txt)"

definition iflush :: "unit iperf_m" where
  "iflush = sys_do SFflush"

definition iperf_get_test_get_server_output :: "iperf_test \<Rightarrow> int" where
  "iperf_get_test_get_server_output ipt = t_get_server_output ipt"

definition iprintf :: "string \<Rightarrow> parg list \<Rightarrow> unit iperf_m" where
  "iprintf fmt args = do {
     t \<leftarrow> get_t id;
     if t_role t = CHR ''c'' then do {
       (case t_title t of None \<Rightarrow> skip_m | Some title \<Rightarrow> fprintf_out (c_printf ''%s:  '' [PStr title]));
       fprintf_out (c_printf fmt args);
       iflush }
     else if t_role t = CHR ''s'' then do {
       let linebuffer = take 1023 (c_printf fmt args);
       fprintf_out linebuffer;
       when_m (iperf_get_test_get_server_output t \<noteq> 0)
         (mod_t (\<lambda>t. t\<lparr>t_server_output_list := t_server_output_list t @ [linebuffer]\<rparr>)) }
     else skip_m }"

definition warning :: "string \<Rightarrow> unit iperf_m" where
  "warning str = sys_do (SStderr (''warning: '' @ str @ nl))"

definition usage :: "unit iperf_m" where
  "usage = sys_do (SStderr usage_shortstr)"

text \<open>Changing the node of the JSON document at a path: the first child of each name.\<close>

fun upd_child :: "string \<Rightarrow> (cJSON \<Rightarrow> cJSON) \<Rightarrow> cJSON list \<Rightarrow> cJSON list" where
  "upd_child nm f [] = []"
| "upd_child nm f (c # cs) = (if cj_string c = Some nm then f c # cs else c # upd_child nm f cs)"

fun upd_path :: "string list \<Rightarrow> (cJSON \<Rightarrow> cJSON) \<Rightarrow> cJSON \<Rightarrow> cJSON" where
  "upd_path [] f j = f j"
| "upd_path (k # ks) f j = cj_set_child (upd_child k (upd_path ks f) (cj_child j)) j"

definition json_start :: "string list" where "json_start = [''start'']"
definition json_connected :: "string list" where "json_connected = [''start'', ''connected'']"
definition json_intervals :: "string list" where "json_intervals = [''intervals'']"
definition json_end :: "string list" where "json_end = [''end'']"

definition mod_json :: "string list \<Rightarrow> (cJSON \<Rightarrow> cJSON) \<Rightarrow> unit iperf_m" where
  "mod_json path f = mod_t (\<lambda>t. t\<lparr>t_json_top := map_option (upd_path path f) (t_json_top t)\<rparr>)"

definition json_add :: "string list \<Rightarrow> string \<Rightarrow> cJSON option \<Rightarrow> unit iperf_m" where
  "json_add path nm item = mod_json path (\<lambda>j. cJSON_AddItemToObject j nm item)"

definition iperf_json_start :: "int iperf_m" where
  "iperf_json_start = do {
     mod_t (\<lambda>t. t\<lparr>t_json_top := Some cJSON_CreateObject\<rparr>);
     json_add [] ''start'' (Some cJSON_CreateObject);
     json_add json_start ''connected'' (Some cJSON_CreateArray);
     json_add [] ''intervals'' (Some cJSON_CreateArray);
     json_add [] ''end'' (Some cJSON_CreateObject);
     ret 0 }"

definition iperf_json_finish :: "int iperf_m" where
  "iperf_json_finish = do {
     t \<leftarrow> get_t id;
     (case t_title t of None \<Rightarrow> skip_m | Some x \<Rightarrow> json_add [] ''title'' (Some (cJSON_CreateString x)));
     (case t_json_server_output t of None \<Rightarrow> skip_m | Some j \<Rightarrow> json_add [] ''server_output_json'' (Some j));
     (case t_server_output_text t of None \<Rightarrow> skip_m
      | Some x \<Rightarrow> json_add [] ''server_output_text'' (Some (cJSON_CreateString x)));
     top \<leftarrow> get_t t_json_top;
     let txt = (case top of None \<Rightarrow> None | Some j \<Rightarrow> cJSON_Print j);
     mod_t (\<lambda>t. t\<lparr>t_json_output_string := txt\<rparr>);
     case txt of
       None \<Rightarrow> ret (-1)
     | Some x \<Rightarrow> do {
         fprintf_out (c_printf (''%s'' @ nl) [PStr x]);
         iflush;
         mod_t (\<lambda>t. t\<lparr>t_json_top := None, t_json_server_output := None\<rparr>);
         ret 0 } }"

section \<open>Errors\<close>

text \<open>
  \<open>test\<close> says whether the test exists. A function that may end the process returns an outcome; in a
  process started from Java (\<open>INVOKE_TYPE_JNI\<close>) \<open>SAFE_EXIT\<close> does nothing and execution goes on.
\<close>

datatype 'a outcome = Exited int | Ran 'a

definition safe_exit :: "int \<Rightarrow> unit outcome iperf_m" where
  "safe_exit code = do {
     f \<leftarrow> gets invoke_flag;
     if f = INVOKE_TYPE_EXEC then do { sys_do (SExit code); ret (Exited code) } else ret (Ran ()) }"

text \<open>Where the message goes: into the JSON document, the output of the test or to standard error.\<close>

definition err_text :: "bool \<Rightarrow> string \<Rightarrow> (iperf_state, bool) state" where
  "err_text test str = do {
     t \<leftarrow> get_t id;
     if test \<and> t_json_output t \<noteq> 0 \<and> t_json_top t \<noteq> None then do {
       json_add [] ''error'' (Some (cJSON_CreateString str));
       ret True }
     else do {
       (if test \<and> t_outfile t \<noteq> No_file then fprintf_out (c_printf (''iperf3: %s'' @ nl) [PStr str])
        else sys_do (SStderr (c_printf (''iperf3: %s'' @ nl) [PStr str])));
       ret False } }"

definition iperf_err :: "bool \<Rightarrow> string \<Rightarrow> parg list \<Rightarrow> unit iperf_m" where
  "iperf_err test fmt args = do {
     _ \<leftarrow> err_text test (take 999 (c_printf fmt args));
     skip_m }"

definition iperf_delete_pidfile :: "int iperf_m" where
  "iperf_delete_pidfile = do {
     p \<leftarrow> get_t t_pidfile;
     case p of
       None \<Rightarrow> ret 0
     | Some f \<Rightarrow> do { r \<leftarrow> sys_val (SUnlink f); ret (if r < 0 then -1 else 0) } }"

definition iperf_create_pidfile :: "int iperf_m" where
  "iperf_create_pidfile = do {
     p \<leftarrow> get_t t_pidfile;
     case p of
       None \<Rightarrow> ret 0
     | Some f \<Rightarrow> do {
         fd \<leftarrow> sys_val (SOpen f ''w'');
         if fd < 0 then ret (-1)
         else do {
           pid \<leftarrow> sys_val SGetpid;
           w \<leftarrow> sys_write fd (take 7 (show_int pid) @ [CHR 0x00]);
           if w < 0 then ret (-1)
           else do {
             c \<leftarrow> sys_val (SClose fd);
             ret (if c < 0 then -1 else 0) } } } }"

definition iperf_errexit :: "bool \<Rightarrow> string \<Rightarrow> parg list \<Rightarrow> unit outcome iperf_m" where
  "iperf_errexit test fmt args = do {
     js \<leftarrow> err_text test (take 999 (c_printf fmt args));
     when_m js (do { _ \<leftarrow> iperf_json_finish; skip_m });
     when_m test (do { _ \<leftarrow> iperf_delete_pidfile; skip_m });
     safe_exit 1 }"

section \<open>Getters\<close>

definition iperf_get_verbose :: "iperf_test \<Rightarrow> int" where
  "iperf_get_verbose ipt = t_verbose ipt"

definition iperf_get_control_socket :: "iperf_test \<Rightarrow> int" where
  "iperf_get_control_socket ipt = t_ctrl_sck ipt"

definition iperf_get_test_omit :: "iperf_test \<Rightarrow> int" where
  "iperf_get_test_omit ipt = t_omit ipt"

definition iperf_get_test_duration :: "iperf_test \<Rightarrow> int" where
  "iperf_get_test_duration ipt = t_duration ipt"

definition iperf_get_test_rate :: "iperf_test \<Rightarrow> int" where
  "iperf_get_test_rate ipt = st_rate (t_settings ipt)"

definition iperf_get_test_burst :: "iperf_test \<Rightarrow> int" where
  "iperf_get_test_burst ipt = st_burst (t_settings ipt)"

definition iperf_get_test_role :: "iperf_test \<Rightarrow> char" where
  "iperf_get_test_role ipt = t_role ipt"

definition iperf_get_test_reverse :: "iperf_test \<Rightarrow> int" where
  "iperf_get_test_reverse ipt = t_reverse ipt"

definition iperf_get_test_blksize :: "iperf_test \<Rightarrow> int" where
  "iperf_get_test_blksize ipt = st_blksize (t_settings ipt)"

definition iperf_get_test_outfile :: "iperf_test \<Rightarrow> outfile" where
  "iperf_get_test_outfile ipt = t_outfile ipt"

definition iperf_get_test_socket_bufsize :: "iperf_test \<Rightarrow> int" where
  "iperf_get_test_socket_bufsize ipt = st_socket_bufsize (t_settings ipt)"

definition iperf_get_test_reporter_interval :: "iperf_test \<Rightarrow> double" where
  "iperf_get_test_reporter_interval ipt = t_reporter_interval ipt"

definition iperf_get_test_stats_interval :: "iperf_test \<Rightarrow> double" where
  "iperf_get_test_stats_interval ipt = t_stats_interval ipt"

definition iperf_get_test_num_streams :: "iperf_test \<Rightarrow> int" where
  "iperf_get_test_num_streams ipt = t_num_streams ipt"

definition iperf_get_test_server_port :: "iperf_test \<Rightarrow> int" where
  "iperf_get_test_server_port ipt = t_server_port ipt"

definition iperf_get_test_server_hostname :: "iperf_test \<Rightarrow> string option" where
  "iperf_get_test_server_hostname ipt = t_server_hostname ipt"

definition iperf_get_test_template :: "iperf_test \<Rightarrow> string option" where
  "iperf_get_test_template ipt = t_tmp_template ipt"

definition iperf_get_test_protocol_id :: "iperf_test \<Rightarrow> int option" where
  "iperf_get_test_protocol_id ipt = map_option pr_id (t_protocol ipt)"

definition iperf_get_test_json_output :: "iperf_test \<Rightarrow> int" where
  "iperf_get_test_json_output ipt = t_json_output ipt"

definition iperf_get_test_json_output_string :: "iperf_test \<Rightarrow> string option" where
  "iperf_get_test_json_output_string ipt = t_json_output_string ipt"

definition iperf_get_test_zerocopy :: "iperf_test \<Rightarrow> int" where
  "iperf_get_test_zerocopy ipt = t_zerocopy ipt"

definition iperf_get_test_unit_format :: "iperf_test \<Rightarrow> char" where
  "iperf_get_test_unit_format ipt = st_unit_format (t_settings ipt)"

definition iperf_get_test_bind_address :: "iperf_test \<Rightarrow> string option" where
  "iperf_get_test_bind_address ipt = t_bind_address ipt"

definition iperf_get_test_udp_counters_64bit :: "iperf_test \<Rightarrow> int" where
  "iperf_get_test_udp_counters_64bit ipt = t_udp_counters_64bit ipt"

definition iperf_get_test_one_off :: "iperf_test \<Rightarrow> int" where
  "iperf_get_test_one_off ipt = t_one_off ipt"

definition iperf_get_no_fq_socket_pacing :: "iperf_test \<Rightarrow> int" where
  "iperf_get_no_fq_socket_pacing ipt = t_no_fq_socket_pacing ipt"

section \<open>Setters\<close>

definition iperf_set_verbose :: "int \<Rightarrow> iperf_test \<Rightarrow> iperf_test" where
  "iperf_set_verbose verbose ipt = ipt\<lparr>t_verbose := verbose\<rparr>"

definition iperf_set_control_socket :: "int \<Rightarrow> iperf_test \<Rightarrow> iperf_test" where
  "iperf_set_control_socket ctrl_sck ipt = ipt\<lparr>t_ctrl_sck := ctrl_sck\<rparr>"

definition iperf_set_test_omit :: "int \<Rightarrow> iperf_test \<Rightarrow> iperf_test" where
  "iperf_set_test_omit omit ipt = ipt\<lparr>t_omit := omit\<rparr>"

definition iperf_set_test_duration :: "int \<Rightarrow> iperf_test \<Rightarrow> iperf_test" where
  "iperf_set_test_duration duration ipt = ipt\<lparr>t_duration := duration\<rparr>"

definition iperf_set_test_reporter_interval :: "double \<Rightarrow> iperf_test \<Rightarrow> iperf_test" where
  "iperf_set_test_reporter_interval reporter_interval ipt = ipt\<lparr>t_reporter_interval := reporter_interval\<rparr>"

definition iperf_set_test_stats_interval :: "double \<Rightarrow> iperf_test \<Rightarrow> iperf_test" where
  "iperf_set_test_stats_interval stats_interval ipt = ipt\<lparr>t_stats_interval := stats_interval\<rparr>"

definition iperf_set_test_state :: "int \<Rightarrow> iperf_test \<Rightarrow> iperf_test" where
  "iperf_set_test_state state ipt = ipt\<lparr>t_state := state\<rparr>"

definition iperf_set_test_blksize :: "int \<Rightarrow> iperf_test \<Rightarrow> iperf_test" where
  "iperf_set_test_blksize blksize ipt = set_st (\<lambda>s. s\<lparr>st_blksize := blksize\<rparr>) ipt"

definition iperf_set_test_rate :: "int \<Rightarrow> iperf_test \<Rightarrow> iperf_test" where
  "iperf_set_test_rate rate ipt = set_st (\<lambda>s. s\<lparr>st_rate := rate\<rparr>) ipt"

definition iperf_set_test_burst :: "int \<Rightarrow> iperf_test \<Rightarrow> iperf_test" where
  "iperf_set_test_burst burst ipt = set_st (\<lambda>s. s\<lparr>st_burst := burst\<rparr>) ipt"

definition iperf_set_test_server_port :: "int \<Rightarrow> iperf_test \<Rightarrow> iperf_test" where
  "iperf_set_test_server_port server_port ipt = ipt\<lparr>t_server_port := server_port\<rparr>"

definition iperf_set_test_socket_bufsize :: "int \<Rightarrow> iperf_test \<Rightarrow> iperf_test" where
  "iperf_set_test_socket_bufsize socket_bufsize ipt = set_st (\<lambda>s. s\<lparr>st_socket_bufsize := socket_bufsize\<rparr>) ipt"

definition iperf_set_test_num_streams :: "int \<Rightarrow> iperf_test \<Rightarrow> iperf_test" where
  "iperf_set_test_num_streams num_streams ipt = ipt\<lparr>t_num_streams := num_streams\<rparr>"

definition iperf_set_test_server_hostname :: "string \<Rightarrow> iperf_test \<Rightarrow> iperf_test" where
  "iperf_set_test_server_hostname server_hostname ipt = ipt\<lparr>t_server_hostname := Some server_hostname\<rparr>"

definition iperf_set_test_template :: "string \<Rightarrow> iperf_test \<Rightarrow> iperf_test" where
  "iperf_set_test_template tmp_template ipt = ipt\<lparr>t_tmp_template := Some tmp_template\<rparr>"

definition iperf_set_test_json_output :: "int \<Rightarrow> iperf_test \<Rightarrow> iperf_test" where
  "iperf_set_test_json_output json_output ipt = ipt\<lparr>t_json_output := json_output\<rparr>"

definition iperf_set_test_get_server_output :: "int \<Rightarrow> iperf_test \<Rightarrow> iperf_test" where
  "iperf_set_test_get_server_output get_server_output ipt = ipt\<lparr>t_get_server_output := get_server_output\<rparr>"

definition iperf_set_test_unit_format :: "char \<Rightarrow> iperf_test \<Rightarrow> iperf_test" where
  "iperf_set_test_unit_format unit_format ipt = set_st (\<lambda>s. s\<lparr>st_unit_format := unit_format\<rparr>) ipt"

definition iperf_set_test_bind_address :: "string \<Rightarrow> iperf_test \<Rightarrow> iperf_test" where
  "iperf_set_test_bind_address bind_address ipt = ipt\<lparr>t_bind_address := Some bind_address\<rparr>"

definition iperf_set_test_udp_counters_64bit :: "int \<Rightarrow> iperf_test \<Rightarrow> iperf_test" where
  "iperf_set_test_udp_counters_64bit udp_counters_64bit ipt = ipt\<lparr>t_udp_counters_64bit := udp_counters_64bit\<rparr>"

definition iperf_set_test_one_off :: "int \<Rightarrow> iperf_test \<Rightarrow> iperf_test" where
  "iperf_set_test_one_off one_off ipt = ipt\<lparr>t_one_off := one_off\<rparr>"

definition iperf_set_no_fq_socket_pacing :: "int \<Rightarrow> iperf_test \<Rightarrow> iperf_test" where
  "iperf_set_no_fq_socket_pacing no_pacing ipt = ipt\<lparr>t_no_fq_socket_pacing := no_pacing\<rparr>"

section \<open>Roles and protocols\<close>

definition has_tcpinfo :: int where "has_tcpinfo = 1"
definition has_tcpinfo_retransmits :: int where "has_tcpinfo_retransmits = 1"

definition protocol_id_is :: "iperf_test \<Rightarrow> int \<Rightarrow> bool" where
  "protocol_id_is t i = (case t_protocol t of None \<Rightarrow> False | Some p \<Rightarrow> pr_id p = i)"

definition protocol_name :: "iperf_test \<Rightarrow> string" where
  "protocol_name t = (case t_protocol t of None \<Rightarrow> [] | Some p \<Rightarrow> pr_name p)"

definition check_sender_has_retransmits :: "iperf_test \<Rightarrow> iperf_test" where
  "check_sender_has_retransmits ipt =
     (if t_sender ipt \<noteq> 0 \<and> protocol_id_is ipt Ptcp \<and> has_tcpinfo_retransmits \<noteq> 0
      then ipt\<lparr>t_sender_has_retransmits := 1\<rparr>
      else ipt\<lparr>t_sender_has_retransmits := 0\<rparr>)"

definition iperf_set_test_role :: "char \<Rightarrow> iperf_test \<Rightarrow> iperf_test" where
  "iperf_set_test_role role ipt =
     (let t1 = ipt\<lparr>t_role := role\<rparr>;
          t2 = (if role = CHR ''c'' then t1\<lparr>t_sender := 1\<rparr>
                else if role = CHR ''s'' then t1\<lparr>t_sender := 0\<rparr> else t1);
          t3 = (if t_reverse t2 \<noteq> 0 then t2\<lparr>t_sender := b2i (t_sender t2 = 0)\<rparr> else t2)
      in check_sender_has_retransmits t3)"

definition iperf_set_test_reverse :: "int \<Rightarrow> iperf_test \<Rightarrow> iperf_test" where
  "iperf_set_test_reverse reverse ipt =
     (let t1 = ipt\<lparr>t_reverse := reverse\<rparr>;
          t2 = (if t_reverse t1 \<noteq> 0 then t1\<lparr>t_sender := b2i (t_sender t1 = 0)\<rparr> else t1)
      in check_sender_has_retransmits t2)"

definition iperf_has_zerocopy :: int where
  "iperf_has_zerocopy = has_sendfile"

definition iperf_set_test_zerocopy :: "int \<Rightarrow> iperf_test \<Rightarrow> iperf_test" where
  "iperf_set_test_zerocopy zerocopy ipt = ipt\<lparr>t_zerocopy := b2i (zerocopy \<noteq> 0 \<and> has_sendfile \<noteq> 0)\<rparr>"

definition find_protocol :: "protocol list \<Rightarrow> int \<Rightarrow> protocol option" where
  "find_protocol ps prot_id = List.find (\<lambda>p. pr_id p = prot_id) ps"

definition get_protocol :: "int \<Rightarrow> protocol option iperf_m" where
  "get_protocol prot_id = do {
     ps \<leftarrow> get_t t_protocols;
     let prot = find_protocol ps prot_id;
     when_m (prot = None) (set_i_errno IEPROTOCOL);
     ret prot }"

definition set_protocol :: "int \<Rightarrow> int iperf_m" where
  "set_protocol prot_id = do {
     ps \<leftarrow> get_t t_protocols;
     case find_protocol ps prot_id of
       Some p \<Rightarrow> do {
         mod_t (\<lambda>t. check_sender_has_retransmits (t\<lparr>t_protocol := Some p\<rparr>));
         ret 0 }
     | None \<Rightarrow> do { set_i_errno IEPROTOCOL; ret (-1) } }"

section \<open>Creation and defaults\<close>

definition settings0 :: iperf_settings where
  "settings0 = \<lparr>st_domain = 0, st_socket_bufsize = 0, st_blksize = 0, st_rate = 0, st_burst = 0, st_mss = 0,
     st_ttl = 0, st_tos = 0, st_flowlabel = 0, st_bytes = 0, st_blocks = 0, st_unit_format = CHR 0x00,
     st_num_ostreams = 0\<rparr>"

definition zero_cookie :: string where
  "zero_cookie = replicate COOKIE_SIZE CHR 0x00"

definition test0 :: iperf_test where
  "test0 = \<lparr>t_role = CHR 0x00, t_sender = 0, t_sender_has_retransmits = 0, t_protocol = None, t_state = 0,
     t_server_hostname = None, t_tmp_template = None, t_bind_address = None, t_bind_port = 0,
     t_server_port = 0, t_omit = 0, t_duration = 0, t_diskfile_name = None, t_affinity = 0,
     t_server_affinity = 0, t_title = None, t_congestion = None, t_pidfile = None, t_logfile = None,
     t_outfile = No_file,
     t_ctrl_sck = 0, t_listener = 0, t_prot_listener = 0, t_daemon = 0, t_one_off = 0, t_no_delay = 0,
     t_reverse = 0, t_verbose = 0, t_json_output = 0, t_zerocopy = 0, t_debug = 0, t_get_server_output = 0,
     t_udp_counters_64bit = 0, t_no_fq_socket_pacing = 0, t_multisend = 0, t_json_output_string = None,
     t_max_fd = 0, t_read_set = [], t_write_set = [], t_omitting = 0, t_stats_interval = Fin 0,
     t_reporter_interval = Fin 0, t_stats_callback = False, t_reporter_callback = False,
     t_omit_timer = None, t_timer = None, t_done = 0, t_stats_timer = None, t_reporter_timer = None,
     t_cpu_util = (Fin 0, Fin 0, Fin 0), t_remote_cpu_util = (Fin 0, Fin 0, Fin 0), t_num_streams = 0,
     t_bytes_sent = 0, t_blocks_sent = 0, t_cookie = zero_cookie, t_streams = [], t_settings = settings0,
     t_protocols = [], t_json_top = None, t_server_output_text = None, t_json_server_output = None,
     t_server_output_list = [], t_jniCallback = False\<rparr>"

definition iperf_new_test :: "bool iperf_m" where
  "iperf_new_test = do {
     ok \<leftarrow> sys_malloc ''iperf_test'';
     if \<not> ok then do { set_i_errno IENEWTEST; ret False }
     else do {
       ok2 \<leftarrow> sys_malloc ''iperf_settings'';
       if \<not> ok2 then do { set_i_errno IENEWTEST; ret False }
       else do {
         mod_t (\<lambda>_. test0\<lparr>t_outfile := Stdout\<rparr>);
         ret True } } }"

definition protocol_new :: "bool iperf_m" where
  "protocol_new = sys_malloc ''protocol''"

definition tcp_protocol :: protocol where
  "tcp_protocol = \<lparr>pr_id = Ptcp, pr_name = ''TCP'', pr_fns = Tcp_fns\<rparr>"

definition udp_protocol :: protocol where
  "udp_protocol = \<lparr>pr_id = Pudp, pr_name = ''UDP'', pr_fns = Udp_fns\<rparr>"

definition default_settings :: "iperf_settings \<Rightarrow> iperf_settings" where
  "default_settings st = st\<lparr>st_domain := AF_UNSPEC, st_unit_format := CHR ''a'', st_socket_bufsize := 0,
     st_blksize := DEFAULT_TCP_BLKSIZE, st_rate := 0, st_burst := 0, st_mss := 0, st_bytes := 0, st_blocks := 0\<rparr>"

definition default_test :: "iperf_test \<Rightarrow> iperf_test" where
  "default_test t = set_st default_settings
     (t\<lparr>t_omit := OMIT, t_duration := DURATION, t_diskfile_name := None, t_affinity := -1,
        t_server_affinity := -1, t_title := None, t_congestion := None, t_server_port := PORT,
        t_ctrl_sck := -1, t_prot_listener := -1, t_stats_callback := True, t_reporter_callback := True,
        t_reporter_interval := Fin 1, t_stats_interval := Fin 1, t_num_streams := 1,
        t_cookie := zero_cookie, t_multisend := 10, t_streams := [], t_protocols := []\<rparr>)"

definition iperf_defaults :: "int iperf_m" where
  "iperf_defaults = do {
     mod_t default_test;
     tcp \<leftarrow> protocol_new;
     if \<not> tcp then ret (-1)
     else do {
       mod_t (\<lambda>t. t\<lparr>t_protocols := tcp_protocol # t_protocols t\<rparr>);
       udp \<leftarrow> protocol_new;
       if \<not> udp then ret (-1)
       else do {
         mod_t (\<lambda>t. t\<lparr>t_protocols :=
           (case t_protocols t of tcp # ps \<Rightarrow> tcp # udp_protocol # ps | [] \<Rightarrow> [])\<rparr>);
         _ \<leftarrow> set_protocol Ptcp;
         mod_t (\<lambda>t. t\<lparr>t_server_output_list := []\<rparr>);
         ret 0 } } }"

section \<open>Freeing and resetting\<close>

definition cancel_timer :: "nat option \<Rightarrow> unit iperf_m" where
  "cancel_timer a = (case a of None \<Rightarrow> skip_m | Some x \<Rightarrow> tmr_cancel x)"

definition iperf_free_stream :: "nat \<Rightarrow> unit iperf_m" where
  "iperf_free_stream sp = do {
     blksize \<leftarrow> get_st st_blksize;
     st \<leftarrow> get_sp sp id;
     sys_do (SMunmap blksize);
     close_fd (sp_buffer_fd st);
     when_m (0 \<le> sp_diskfile_fd st) (close_fd (sp_diskfile_fd st));
     cancel_timer (sp_send_timer st) }"

definition free_streams :: "unit iperf_m" where
  "free_streams = do {
     sps \<leftarrow> get_t t_streams;
     foreach_m sps (\<lambda>sp. do {
       mod_t (\<lambda>t. t\<lparr>t_streams := tl (t_streams t)\<rparr>);
       iperf_free_stream sp }) }"

definition iperf_free_test :: "unit iperf_m" where
  "iperf_free_test = do {
     free_streams;
     mod_t (\<lambda>t. t\<lparr>t_server_hostname := None, t_tmp_template := None, t_bind_address := None,
       t_title := None, t_congestion := None\<rparr>);
     t \<leftarrow> get_t id;
     cancel_timer (t_omit_timer t);
     cancel_timer (t_timer t);
     cancel_timer (t_stats_timer t);
     cancel_timer (t_reporter_timer t);
     mod_t (\<lambda>t. t\<lparr>t_protocols := [], t_server_output_text := None, t_json_output_string := None,
       t_server_output_list := [], t_stats_callback := False, t_reporter_callback := False,
       t_jniCallback := False\<rparr>) }"

definition reset_timer ::
  "(iperf_test \<Rightarrow> nat option) \<Rightarrow> (iperf_test \<Rightarrow> iperf_test) \<Rightarrow> unit iperf_m" where
  "reset_timer f clear = do {
     a \<leftarrow> get_t f;
     case a of None \<Rightarrow> skip_m | Some x \<Rightarrow> do { tmr_cancel x; mod_t clear } }"

definition reset_settings :: "iperf_settings \<Rightarrow> iperf_settings" where
  "reset_settings st = st\<lparr>st_socket_bufsize := 0, st_blksize := DEFAULT_TCP_BLKSIZE, st_rate := 0,
     st_burst := 0, st_mss := 0\<rparr>"

definition iperf_reset_test :: "unit iperf_m" where
  "iperf_reset_test = do {
     free_streams;
     reset_timer t_omit_timer (\<lambda>t. t\<lparr>t_omit_timer := None\<rparr>);
     reset_timer t_timer (\<lambda>t. t\<lparr>t_timer := None\<rparr>);
     reset_timer t_stats_timer (\<lambda>t. t\<lparr>t_stats_timer := None\<rparr>);
     reset_timer t_reporter_timer (\<lambda>t. t\<lparr>t_reporter_timer := None\<rparr>);
     mod_t (\<lambda>t. t\<lparr>t_done := 0, t_streams := [], t_role := CHR ''s'', t_sender := 0,
       t_sender_has_retransmits := 0\<rparr>);
     _ \<leftarrow> set_protocol Ptcp;
     mod_t (\<lambda>t. t\<lparr>t_omit := OMIT, t_duration := DURATION, t_server_affinity := -1, t_state := 0,
       t_ctrl_sck := -1, t_prot_listener := -1, t_bytes_sent := 0, t_blocks_sent := 0,
       t_reverse := 0, t_no_delay := 0, t_read_set := [], t_write_set := [], t_num_streams := 1\<rparr>);
     mod_t (set_st reset_settings);
     mod_t (\<lambda>t. t\<lparr>t_cookie := zero_cookie, t_multisend := 10, t_udp_counters_64bit := 0,
       t_jniCallback := False, t_server_output_list := []\<rparr>) }"

section \<open>Callbacks\<close>

definition jni_call :: "string \<Rightarrow> string list \<Rightarrow> int list \<Rightarrow> double list \<Rightarrow> unit iperf_m" where
  "jni_call mth ss ns ds = do {
     cb \<leftarrow> get_t t_jniCallback;
     when_m cb (sys_do (SJni mth ss ns ds)) }"

definition iperf_on_test_start :: "unit iperf_m" where
  "iperf_on_test_start = do {
     t \<leftarrow> get_t id;
     let st = t_settings t;
     if t_json_output t \<noteq> 0 then
       json_add json_start ''test_start''
         (iperf_json_printf ''protocol: %s  num_streams: %d  blksize: %d  omit: %d  duration: %d  bytes: %d  blocks: %d  reverse: %d''
           [JString (protocol_name t), JInt (t_num_streams t), JInt (st_blksize st), JInt (t_omit t),
            JInt (t_duration t), JInt (i64 (st_bytes st)), JInt (i64 (st_blocks st)),
            JInt (b2i (t_reverse t \<noteq> 0))])
     else when_m (t_verbose t \<noteq> 0)
       (if st_bytes st \<noteq> 0 then
          iprintf test_start_bytes [PStr (protocol_name t), PInt (t_num_streams t), PInt (st_blksize st),
            PInt (t_omit t), PInt (st_bytes st)]
        else if st_blocks st \<noteq> 0 then
          iprintf test_start_blocks [PStr (protocol_name t), PInt (t_num_streams t), PInt (st_blksize st),
            PInt (t_omit t), PInt (i32 (st_blocks st))]
        else
          iprintf test_start_time [PStr (protocol_name t), PInt (t_num_streams t), PInt (st_blksize st),
            PInt (t_omit t), PInt (t_duration t)]) }"

definition mapped_v4_to_regular_v4 :: "string \<Rightarrow> string" where
  "mapped_v4_to_regular_v4 str =
     (let prefix = ''::ffff:'' in
      if take (length prefix) str = prefix then drop (length prefix) str else str)"

definition report_mss :: "int \<Rightarrow> unit iperf_m" where
  "report_mss sck = do {
     t \<leftarrow> get_t id;
     let mss = st_mss (t_settings t);
     if t_json_output t \<noteq> 0 then
       (if mss \<noteq> 0 then json_add json_start ''tcp_mss'' (Some (cJSON_CreateInt mss))
        else do {
          r \<leftarrow> syscall (SGetsockopt sck ''TCP_MAXSEG'');
          json_add json_start ''tcp_mss_default'' (Some (cJSON_CreateInt (nth_int (sr_ints r) 0))) })
     else
       (if mss \<noteq> 0 then iprintf (''      TCP MSS: %d'' @ nl) [PInt mss]
        else do {
          r \<leftarrow> syscall (SGetsockopt sck ''TCP_MAXSEG'');
          iprintf (''      TCP MSS: %d (default)'' @ nl) [PInt (nth_int (sr_ints r) 0)] }) }"

text \<open>The answer to \<open>time\<close> carries the date \<open>strftime\<close> makes of it.\<close>

definition iperf_on_connect :: "unit iperf_m" where
  "iperf_on_connect = do {
     now \<leftarrow> syscall STime;
     t \<leftarrow> get_t id;
     let js = t_json_output t \<noteq> 0;
     (if js then json_add json_start ''timestamp''
        (iperf_json_printf ''time: %s  timesecs: %d'' [JString (sr_data now), JInt (sr_val now)])
      else when_m (t_verbose t \<noteq> 0) (iprintf report_time [PStr (sr_data now)]));
     (if t_role t = CHR ''c'' then
        (let host = (case t_server_hostname t of None \<Rightarrow> ''(null)'' | Some h \<Rightarrow> h) in
         if js then json_add json_start ''connecting_to''
           (iperf_json_printf ''host: %s  port: %d'' [JString host, JInt (t_server_port t)])
         else do {
           jni_call ''onConnecting'' [host] [t_server_port t] [];
           iprintf report_connecting [PStr host, PInt (t_server_port t)];
           when_m (t_reverse t \<noteq> 0) (iprintf report_reverse [PStr host]) })
      else do {
        peer \<leftarrow> syscall (SGetpeername (t_ctrl_sck t));
        _ \<leftarrow> getsockdomain (t_ctrl_sck t);
        let ipr = mapped_v4_to_regular_v4 (sr_data peer);
        let port = nth_int (sr_ints peer) 0;
        (if js then json_add json_start ''accepted_connection''
           (iperf_json_printf ''host: %s  port: %d'' [JString ipr, JInt port])
         else iprintf report_accepted [PStr ipr, PInt port]) });
     (if js then do {
        json_add json_start ''cookie'' (Some (cJSON_CreateString (c_str (t_cookie t))));
        when_m (protocol_id_is t SOCK_STREAM) (report_mss (t_ctrl_sck t)) }
      else when_m (t_verbose t \<noteq> 0) (do {
        iprintf report_cookie [PStr (c_str (t_cookie t))];
        when_m (protocol_id_is t SOCK_STREAM) (report_mss (t_ctrl_sck t)) })) }"

definition iperf_on_test_finish :: "unit iperf_m" where
  "iperf_on_test_finish = skip_m"

definition connect_msg :: "nat \<Rightarrow> unit iperf_m" where
  "connect_msg sp = do {
     st \<leftarrow> get_sp sp id;
     _ \<leftarrow> getsockdomain (sp_socket st);
     js \<leftarrow> get_t t_json_output;
     let ipl = mapped_v4_to_regular_v4 (fst (sp_local_addr st));
     let lport = snd (sp_local_addr st);
     let ipr = mapped_v4_to_regular_v4 (fst (sp_remote_addr st));
     let rport = snd (sp_remote_addr st);
     if js \<noteq> 0 then
       mod_json json_connected (\<lambda>j. cJSON_AddItemToArray j
         (iperf_json_printf ''socket: %d  local_host: %s  local_port: %d  remote_host: %s  remote_port: %d''
           [JInt (sp_socket st), JString ipl, JInt lport, JString ipr, JInt rport]))
     else do {
       jni_call ''onConnected'' [ipl, ipr] [lport, rport] [];
       iprintf report_connected [PInt (sp_socket st), PStr ipl, PInt lport, PStr ipr, PInt rport] } }"

definition iperf_on_new_stream :: "nat \<Rightarrow> unit iperf_m" where
  "iperf_on_new_stream sp = connect_msg sp"

definition iperf_catch_sigend :: "string \<Rightarrow> unit iperf_m" where
  "iperf_catch_sigend handler = do {
     sys_do (SSignal (''SIGINT '' @ handler));
     sys_do (SSignal (''SIGTERM '' @ handler));
     sys_do (SSignal (''SIGHUP '' @ handler)) }"

text \<open>Neither way of setting the processor affinity is configured.\<close>

definition iperf_setaffinity :: "int \<Rightarrow> int iperf_m" where
  "iperf_setaffinity affinity = do { set_i_errno IEAFFINITY; ret (-1) }"

definition iperf_clearaffinity :: "int iperf_m" where
  "iperf_clearaffinity = do { set_i_errno IEAFFINITY; ret (-1) }"

end
