(* ===== verification/Cjson_Parse.thy ===== *)
theory Cjson_Parse
  imports Cjson
begin

text \<open>
  \<open>cjson.c\<close>: parsing. A pointer into the text is the rest of the text from there, whose end is the
  terminating NUL; the texts hold no NUL. A parse function yields the item it filled in and the
  rest, or fails, with the position it stored through \<open>ep\<close> when it stored one. \<open>POob\<close> is a read past
  the terminating NUL, which the scanner of string literals can make. \<open>PFuel\<close> does not occur when
  the fuel exceeds the length of the text; it replaces the recursion of the parser on the text.
\<close>

datatype 'a presult = POk 'a string | PErr "string option" | POob | PFuel

definition chr_at :: "string \<Rightarrow> nat \<Rightarrow> char" where
  "chr_at s i = (if i < length s then s ! i else CHR 0x00)"

fun skip :: "string \<Rightarrow> string" where
  "skip [] = []"
| "skip (c # cs) = (if (of_char c :: nat) \<le> 32 then skip cs else c # cs)"

definition starts_with :: "string \<Rightarrow> string \<Rightarrow> bool" where
  "starts_with p s \<longleftrightarrow> take (length p) s = p"

section \<open>Numbers\<close>

text \<open>A run of digits, accumulated in a \<open>double\<close>; the count of digits for the fraction's scale.\<close>

fun scan_digits :: "double \<Rightarrow> string \<Rightarrow> double \<times> nat \<times> string" where
  "scan_digits n [] = (n, 0, [])"
| "scan_digits n (c # cs) =
     (if is_digit c
      then (case scan_digits (d_add (d_mul n (Fin 10)) (d_of_int (digit_val c))) cs of
              (m, k, r) \<Rightarrow> (m, Suc k, r))
      else (n, 0, c # cs))"

fun scan_int :: "int \<Rightarrow> string \<Rightarrow> int \<times> string" where
  "scan_int n [] = (n, [])"
| "scan_int n (c # cs) =
     (if is_digit c then scan_int (i32 (i32 (n * 10) + digit_val c)) cs else (n, c # cs))"

text \<open>\<open>parse_number\<close> in its order: the sign, the leading zero and the digits, the fraction, the exponent.\<close>

definition num_sign :: "string \<Rightarrow> int \<times> string" where
  "num_sign s = (if chr_at s 0 = CHR ''-'' then (-1, drop 1 s) else (1, s))"

definition num_mantissa :: "string \<Rightarrow> double \<times> string" where
  "num_mantissa s =
     (let s2 = (if chr_at s 0 = CHR ''0'' then drop 1 s else s)
      in if is_digit (chr_at s2 0) \<and> chr_at s2 0 \<noteq> CHR ''0''
         then (case scan_digits (Fin 0) s2 of (n, _, r) \<Rightarrow> (n, r)) else (Fin 0, s2))"

definition num_fraction :: "double \<Rightarrow> string \<Rightarrow> double \<times> int \<times> string" where
  "num_fraction n s =
     (if chr_at s 0 = CHR ''.'' \<and> is_digit (chr_at s 1)
      then (case scan_digits n (drop 1 s) of (m, k, r) \<Rightarrow> (m, - int k, r)) else (n, 0, s))"

definition num_exponent :: "string \<Rightarrow> int \<times> string" where
  "num_exponent s =
     (if chr_at s 0 = CHR ''e'' \<or> chr_at s 0 = CHR ''E''
      then (let t = drop 1 s in
            if chr_at t 0 = CHR ''+'' then scan_int 0 (drop 1 t)
            else if chr_at t 0 = CHR ''-'' then (case scan_int 0 (drop 1 t) of (k, r) \<Rightarrow> (i32 (- k), r))
            else scan_int 0 t)
      else (0, s))"

definition parse_number :: "cJSON \<Rightarrow> string \<Rightarrow> cJSON presult" where
  "parse_number item num =
     (case num_sign num of (sign, s1) \<Rightarrow>
      case num_mantissa s1 of (n1, s2) \<Rightarrow>
      case num_fraction n1 s2 of (n2, scale, s3) \<Rightarrow>
      case num_exponent s3 of (subscale, s4) \<Rightarrow>
        let n = d_mul (d_mul (d_of_int sign) n2) (pow10 (scale + subscale))
        in POk (case item of CJ _ vs _ _ nm ch \<Rightarrow> CJ cJSON_Number vs (d_to_i64 n) n nm ch) s4)"

section \<open>Strings\<close>

definition hex_val :: "char \<Rightarrow> int option" where
  "hex_val c =
     (let n = of_char c :: int in
      if 48 \<le> n \<and> n \<le> 57 then Some (n - 48)
      else if 65 \<le> n \<and> n \<le> 70 then Some (10 + n - 65)
      else if 97 \<le> n \<and> n \<le> 102 then Some (10 + n - 97)
      else None)"

text \<open>The four steps of \<open>parse_hex4\<close>: the first character that is no hex digit makes the result 0.\<close>

fun hex_steps :: "nat \<Rightarrow> int \<Rightarrow> string \<Rightarrow> int" where
  "hex_steps 0 h s = h"
| "hex_steps (Suc k) h s =
     (case hex_val (chr_at s 0) of
        None \<Rightarrow> 0
      | Some v \<Rightarrow> if k = 0 then h + v else hex_steps k (u32 (push_bit 4 (h + v))) (drop 1 s))"

definition parse_hex4 :: "string \<Rightarrow> int" where
  "parse_hex4 s = hex_steps 4 0 s"

text \<open>UTF-8: the bytes are written backwards from the last one.\<close>

definition firstByteMark :: "int list" where
  "firstByteMark = [0x00, 0x00, 0xC0, 0xE0, 0xF0, 0xF8, 0xFC]"

definition byte_of :: "int \<Rightarrow> char" where
  "byte_of n = char_of (nat (n mod 256))"

fun utf8_tail :: "nat \<Rightarrow> nat \<Rightarrow> int \<Rightarrow> string \<Rightarrow> string" where
  "utf8_tail len 0 uc acc = acc"
| "utf8_tail len (Suc 0) uc acc = byte_of (uc OR firstByteMark ! len) # acc"
| "utf8_tail len (Suc (Suc k)) uc acc =
     utf8_tail len (Suc k) (drop_bit 6 uc) (byte_of ((uc OR 0x80) AND 0xBF) # acc)"

definition utf8_length :: "int \<Rightarrow> nat" where
  "utf8_length uc = (if uc < 0x80 then 1 else if uc < 0x800 then 2 else if uc < 0x10000 then 3 else 4)"

definition utf8_bytes :: "int \<Rightarrow> string" where
  "utf8_bytes uc = utf8_tail (utf8_length uc) (utf8_length uc) uc []"

text \<open>
  The first pass: how many characters lie before the closing quote or the NUL, and how many bytes
  to allocate. An escape jumps over the character after the backslash, also when that is the NUL.
\<close>

fun scan_string :: "string \<Rightarrow> (nat \<times> nat) option" where
  "scan_string [] = Some (0, 0)"
| "scan_string (c # cs) =
     (if c = CHR 0x22 then Some (0, 0)
      else if c = CHR 0x5C then
        (case cs of
           [] \<Rightarrow> None
         | d # ds \<Rightarrow> (case scan_string ds of None \<Rightarrow> None | Some (n, l) \<Rightarrow> Some (n + 2, Suc l)))
      else (case scan_string cs of None \<Rightarrow> None | Some (n, l) \<Rightarrow> Some (n + 1, Suc l)))"

definition simple_escape :: "char \<Rightarrow> char" where
  "simple_escape c =
     (if c = CHR ''b'' then CHR 0x08 else if c = CHR ''f'' then CHR 0x0C
      else if c = CHR ''n'' then CHR 0x0A else if c = CHR ''r'' then CHR 0x0D
      else if c = CHR ''t'' then CHR 0x09 else c)"

text \<open>
  The second pass. \<open>m\<close> is \<open>end_ptr - ptr\<close>; the result is the decoded bytes and the pointer at the end,
  or \<open>None\<close> where the code stores \<open>str\<close> through \<open>ep\<close> and returns 0.
\<close>

function decode_string :: "int \<Rightarrow> string \<Rightarrow> (string \<times> string) option" where
  "decode_string m ptr =
     (if m \<le> 0 then Some ([], ptr)
      else if chr_at ptr 0 \<noteq> CHR 0x5C then
        (case decode_string (m - 1) (drop 1 ptr) of
           None \<Rightarrow> None | Some (out, r) \<Rightarrow> Some (chr_at ptr 0 # out, r))
      else if chr_at ptr 1 = CHR ''u'' then
        (let uc = parse_hex4 (drop 2 ptr) in
         if m - 5 \<le> 0 then None
         else if (0xDC00 \<le> uc \<and> uc \<le> 0xDFFF) \<or> uc = 0 then None
         else if 0xD800 \<le> uc \<and> uc \<le> 0xDBFF then
           (if m - 5 < 6 then None
            else if chr_at ptr 6 \<noteq> CHR 0x5C \<or> chr_at ptr 7 \<noteq> CHR ''u'' then None
            else
              let uc2 = parse_hex4 (drop 8 ptr) in
              if uc2 < 0xDC00 \<or> 0xDFFF < uc2 then None
              else
                let uc' = 0x10000 + (push_bit 10 (uc AND 0x3FF) OR (uc2 AND 0x3FF)) in
                case decode_string (m - 12) (drop 12 ptr) of
                  None \<Rightarrow> None | Some (out, r) \<Rightarrow> Some (utf8_bytes uc' @ out, r))
         else
           (case decode_string (m - 6) (drop 6 ptr) of
              None \<Rightarrow> None | Some (out, r) \<Rightarrow> Some (utf8_bytes uc @ out, r)))
      else
        (case decode_string (m - 2) (drop 2 ptr) of
           None \<Rightarrow> None | Some (out, r) \<Rightarrow> Some (simple_escape (chr_at ptr 1) # out, r)))"
  by pat_completeness auto
termination by (relation "measure (\<lambda>(m, ptr). nat m)") auto

declare decode_string.simps [simp del]

definition parse_string :: "cJSON \<Rightarrow> string \<Rightarrow> cJSON presult" where
  "parse_string item str =
     (if chr_at str 0 \<noteq> CHR 0x22 then PErr (Some str)
      else
        case scan_string (drop 1 str) of
          None \<Rightarrow> POob
        | Some (n, len) \<Rightarrow>
            (case decode_string (int n) (drop 1 str) of
               None \<Rightarrow> PErr (Some str)
             | Some (out, ptr) \<Rightarrow>
                 POk (case item of CJ _ _ vi vd nm ch \<Rightarrow> CJ cJSON_String (Some out) vi vd nm ch)
                   (if chr_at ptr 0 = CHR 0x22 then drop 1 ptr else ptr)))"

section \<open>Values\<close>

text \<open>\<open>child->string=child->valuestring; child->valuestring=0\<close>\<close>

fun name_child :: "cJSON \<Rightarrow> cJSON" where
  "name_child (CJ t vs vi vd nm ch) = CJ t None vi vd vs ch"

fun parse_value :: "nat \<Rightarrow> cJSON \<Rightarrow> string \<Rightarrow> cJSON presult"
  and parse_elements :: "nat \<Rightarrow> string \<Rightarrow> cJSON list presult"
  and parse_members :: "nat \<Rightarrow> string \<Rightarrow> cJSON list presult" where
  "parse_value 0 item value = PFuel"
| "parse_value (Suc k) item value =
     (if starts_with ''null'' value then POk (cj_set_type cJSON_NULL item) (drop 4 value)
      else if starts_with ''false'' value then POk (cj_set_type cJSON_False item) (drop 5 value)
      else if starts_with ''true'' value
      then POk (case item of CJ _ vs _ vd nm ch \<Rightarrow> CJ cJSON_True vs 1 vd nm ch) (drop 4 value)
      else if chr_at value 0 = CHR 0x22 then parse_string item value
      else if chr_at value 0 = CHR ''-'' \<or> is_digit (chr_at value 0) then parse_number item value
      else if chr_at value 0 = CHR ''['' then
        (let s = skip (drop 1 value); item' = cj_set_type cJSON_Array item in
         if chr_at s 0 = CHR '']'' then POk item' (drop 1 s)
         else
           case parse_elements k s of
             POk cs r \<Rightarrow> if chr_at r 0 = CHR '']'' then POk (cj_set_child cs item') (drop 1 r) else PErr (Some r)
           | PErr e \<Rightarrow> PErr e | POob \<Rightarrow> POob | PFuel \<Rightarrow> PFuel)
      else if chr_at value 0 = CHR ''{'' then
        (let s = skip (drop 1 value); item' = cj_set_type cJSON_Object item in
         if chr_at s 0 = CHR ''}'' then POk item' (drop 1 s)
         else
           case parse_members k s of
             POk cs r \<Rightarrow> if chr_at r 0 = CHR ''}'' then POk (cj_set_child cs item') (drop 1 r) else PErr (Some r)
           | PErr e \<Rightarrow> PErr e | POob \<Rightarrow> POob | PFuel \<Rightarrow> PFuel)
      else PErr (Some value))"
| "parse_elements 0 value = PFuel"
| "parse_elements (Suc k) value =
     (case parse_value k cJSON_New_Item (skip value) of
        POk c r \<Rightarrow>
          (let r' = skip r in
           if chr_at r' 0 = CHR '','' then
             (case parse_elements k (drop 1 r') of
                POk cs r2 \<Rightarrow> POk (c # cs) r2
              | PErr e \<Rightarrow> PErr e | POob \<Rightarrow> POob | PFuel \<Rightarrow> PFuel)
           else POk [c] r')
      | PErr e \<Rightarrow> PErr e | POob \<Rightarrow> POob | PFuel \<Rightarrow> PFuel)"
| "parse_members 0 value = PFuel"
| "parse_members (Suc k) value =
     (case parse_string cJSON_New_Item (skip value) of
        POk c0 r0 \<Rightarrow>
          (let r1 = skip r0 in
           if chr_at r1 0 \<noteq> CHR '':'' then PErr (Some r1)
           else
             case parse_value k (name_child c0) (skip (drop 1 r1)) of
               POk c r \<Rightarrow>
                 (let r' = skip r in
                  if chr_at r' 0 = CHR '','' then
                    (case parse_members k (drop 1 r') of
                       POk cs r2 \<Rightarrow> POk (c # cs) r2
                     | PErr e \<Rightarrow> PErr e | POob \<Rightarrow> POob | PFuel \<Rightarrow> PFuel)
                  else POk [c] r')
             | PErr e \<Rightarrow> PErr e | POob \<Rightarrow> POob | PFuel \<Rightarrow> PFuel)
      | PErr e \<Rightarrow> PErr e | POob \<Rightarrow> POob | PFuel \<Rightarrow> PFuel)"

declare parse_value.simps [simp del] parse_elements.simps [simp del] parse_members.simps [simp del]

definition parse_fuel :: "string \<Rightarrow> nat" where
  "parse_fuel s = 2 * length s + 2"

definition cJSON_ParseWithOpts :: "string \<Rightarrow> bool \<Rightarrow> cJSON presult" where
  "cJSON_ParseWithOpts value require_null_terminated =
     (case parse_value (parse_fuel value) cJSON_New_Item (skip value) of
        POk c r \<Rightarrow>
          if require_null_terminated
          then (let r' = skip r in if r' \<noteq> [] then PErr (Some r') else POk c r')
          else POk c r
      | PErr e \<Rightarrow> PErr e | POob \<Rightarrow> POob | PFuel \<Rightarrow> PFuel)"

text \<open>\<open>cJSON_Parse\<close>: the item, or \<open>None\<close> for a null pointer (also where the C code is undefined).\<close>

definition cJSON_Parse :: "string \<Rightarrow> cJSON option" where
  "cJSON_Parse value =
     (case cJSON_ParseWithOpts value False of POk c r \<Rightarrow> Some c | _ \<Rightarrow> None)"

end
