(* ===== verification/Cjson_Scan.thy ===== *)
theory Cjson_Scan
  imports Cjson_Print Cjson_Parse
begin

text \<open>
  The scanners of the parser of \<open>cjson.c\<close> on the texts its printer writes: strings with their escapes,
  and numbers in each of the forms \<open>print_number\<close> chooses from.
\<close>

section \<open>The parser consumes its input\<close>

lemma length_skip: "length (skip s) \<le> length s"
  by (induction s) auto

lemma chr_at_0: "chr_at s 0 = c \<Longrightarrow> c \<noteq> CHR 0x00 \<Longrightarrow> s \<noteq> [] \<and> hd s = c \<and> length (drop 1 s) < length s"
  by (cases s) (auto simp: chr_at_def)

lemma chr_at_Cons [simp]: "chr_at (c # s) 0 = c" "chr_at (c # s) (Suc n) = chr_at s n"
  by (auto simp: chr_at_def)

lemma chr_at_Nil [simp]: "chr_at [] n = CHR 0x00"
  by (simp add: chr_at_def)

lemma is_digit_NUL [simp]: "\<not> is_digit CHR 0x00"
  by (simp add: is_digit_def)

lemma scan_digits_length: "scan_digits n s = (m, k, r) \<Longrightarrow> length r \<le> length s \<and> (s \<noteq> [] \<and> is_digit (hd s) \<longrightarrow> length r < length s)"
proof (induction s arbitrary: n m k r)
  case (Cons c s)
  obtain m' k' r' where "scan_digits (d_add (d_mul n (Fin 10)) (d_of_int (digit_val c))) s = (m', k', r')"
    by (metis prod_cases3)
  with Cons.prems Cons.IH [OF this] show ?case by (auto split: if_splits)
qed simp

lemma scan_int_length: "scan_int n s = (m, r) \<Longrightarrow> length r \<le> length s"
  by (induction s arbitrary: n) (fastforce split: if_splits)+

lemma scan_string_le: "scan_string s = Some (n, l) \<Longrightarrow> n \<le> length s"
  by (induction s arbitrary: n l rule: scan_string.induct)
    (fastforce split: if_splits list.splits option.splits)+

section \<open>String literals\<close>

lemma length_utf8_bytes: "length (utf8_bytes uc) = utf8_length uc"
proof -
  have "length (utf8_tail len (Suc k) uc acc) = Suc k + length acc" for len k uc acc
    by (induction k arbitrary: uc acc) simp_all
  moreover have "\<exists>k. utf8_length uc = Suc k"
    by (simp add: utf8_length_def)
  ultimately show ?thesis by (auto simp: utf8_bytes_def)
qed

lemma utf8_length_le: "utf8_length uc \<le> 4"
  by (simp add: utf8_length_def)

lemma hex_val_plain: "hex_val c \<noteq> None \<Longrightarrow> c \<noteq> CHR 0x22 \<and> c \<noteq> CHR 0x5C"
  by (auto simp: hex_val_def Let_def)

lemma hex_val_NUL [simp]: "hex_val CHR 0x00 = None"
  by (simp add: hex_val_def)

lemma parse_hex4_nonzero:
  assumes "parse_hex4 s \<noteq> 0"
  shows "\<exists>a b c d t. s = a # b # c # d # t \<and> hex_val a \<noteq> None \<and> hex_val b \<noteq> None \<and>
    hex_val c \<noteq> None \<and> hex_val d \<noteq> None"
proof -
  have step: "hex_steps (Suc (Suc j)) h s \<noteq> 0 \<Longrightarrow>
      \<exists>a t h'. s = a # t \<and> hex_val a \<noteq> None \<and> hex_steps (Suc j) h' t \<noteq> 0" for j h s
    by (cases s; cases "hex_val (hd s)") (auto simp del: hex_steps.simps simp: hex_steps.simps(2) [of "Suc j"])
  have last: "hex_steps (Suc 0) h s \<noteq> 0 \<Longrightarrow> \<exists>a t. s = a # t \<and> hex_val a \<noteq> None" for h s
    by (cases s) (auto split: option.splits)
  have "hex_steps (Suc (Suc (Suc (Suc 0)))) 0 s \<noteq> 0"
    using assms by (simp add: parse_hex4_def numeral_eq_Suc)
  then obtain a t1 h1 where 1: "s = a # t1" "hex_val a \<noteq> None" "hex_steps (Suc (Suc (Suc 0))) h1 t1 \<noteq> 0"
    using step by blast
  then obtain b t2 h2 where 2: "t1 = b # t2" "hex_val b \<noteq> None" "hex_steps (Suc (Suc 0)) h2 t2 \<noteq> 0"
    using step by blast
  then obtain c t3 h3 where 3: "t2 = c # t3" "hex_val c \<noteq> None" "hex_steps (Suc 0) h3 t3 \<noteq> 0"
    using step by blast
  then obtain d t4 where "t3 = d # t4" "hex_val d \<noteq> None"
    using last by blast
  with 1 2 3 show ?thesis by simp
qed

lemma scan_plain: "c \<noteq> CHR 0x22 \<Longrightarrow> c \<noteq> CHR 0x5C \<Longrightarrow>
    scan_string (c # cs) = (case scan_string cs of None \<Rightarrow> None | Some (n, l) \<Rightarrow> Some (n + 1, Suc l))"
  by simp

lemma scan_hex4:
  assumes "scan_string (a # b # c # d # t) = Some (n, l)"
    and "hex_val a \<noteq> None" "hex_val b \<noteq> None" "hex_val c \<noteq> None" "hex_val d \<noteq> None"
  obtains m k where "scan_string t = Some (m, k)" "n = m + 4" "l = k + 4"
  using assms hex_val_plain by (fastforce split: option.splits)

lemma decode_plain: "0 < m \<Longrightarrow> c \<noteq> CHR 0x5C \<Longrightarrow>
    decode_string m (c # cs) =
      map_option (\<lambda>(out, r). (c # out, r)) (decode_string (m - 1) cs)"
  by (subst decode_string.simps) (auto split: option.split)

lemma decode_simple: "0 < m \<Longrightarrow> d \<noteq> CHR ''u'' \<Longrightarrow>
    decode_string m (CHR 0x5C # d # ds) =
      map_option (\<lambda>(out, r). (simple_escape d # out, r)) (decode_string (m - 2) ds)"
  by (subst decode_string.simps) (auto split: option.split)

lemma decode_u: "0 < m \<Longrightarrow>
    decode_string m (CHR 0x5C # CHR ''u'' # ds) =
      (let uc = parse_hex4 ds in
       if m - 5 \<le> 0 then None
       else if (0xDC00 \<le> uc \<and> uc \<le> 0xDFFF) \<or> uc = 0 then None
       else if 0xD800 \<le> uc \<and> uc \<le> 0xDBFF then
         (if m - 5 < 6 \<or> chr_at ds 4 \<noteq> CHR 0x5C \<or> chr_at ds 5 \<noteq> CHR ''u'' then None
          else
            let uc2 = parse_hex4 (drop 6 ds) in
            if uc2 < 0xDC00 \<or> 0xDFFF < uc2 then None
            else map_option
              (\<lambda>(out, r). (utf8_bytes (0x10000 + (push_bit 10 (uc AND 0x3FF) OR (uc2 AND 0x3FF))) @ out, r))
              (decode_string (m - 12) (drop 10 ds)))
       else map_option (\<lambda>(out, r). (utf8_bytes uc @ out, r)) (decode_string (m - 6) (drop 4 ds)))"
proof -
  have two: "chr_at (a # b # s) 6 = chr_at s 4" "chr_at (a # b # s) 7 = chr_at s 5"
    "drop 6 (a # b # s) = drop 4 s" "drop 8 (a # b # s) = drop 6 s" "drop 12 (a # b # s) = drop 10 s"
    for a b s
    by (simp_all add: eval_nat_numeral)
  assume "0 < m"
  then show ?thesis
    by (subst decode_string.simps)
      (auto simp: Let_def map_option_case two split: option.split)
qed

lemma decode_u_Some:
  assumes "decode_string m (CHR 0x5C # CHR ''u'' # ds) = Some (out, r)" "0 < m"
  shows "parse_hex4 ds \<noteq> 0 \<and>
    ((\<exists>out' x. decode_string (m - 6) (drop 4 ds) = Some (out', r) \<and> out = utf8_bytes x @ out') \<or>
     (chr_at ds 4 = CHR 0x5C \<and> chr_at ds 5 = CHR ''u'' \<and> parse_hex4 (drop 6 ds) \<noteq> 0 \<and>
      (\<exists>out' x. decode_string (m - 12) (drop 10 ds) = Some (out', r) \<and> out = utf8_bytes x @ out')))"
  using assms(1) unfolding decode_u [OF assms(2)] Let_def
  by (auto split: if_splits)

text \<open>The decoder stays inside the scanned part, and in the bytes the first pass counted.\<close>

lemma decode_scan:
  "scan_string p = Some (n, l) \<Longrightarrow> decode_string (int n) p = Some (out, r) \<Longrightarrow>
     length out \<le> l \<and> r = drop n p"
proof (induction n arbitrary: p l out r rule: less_induct)
  case (less n)
  show ?case
  proof (cases "n = 0")
    case True
    with less.prems show ?thesis by (simp add: decode_string.simps)
  next
    case n: False
    with less.prems(1) obtain c cs where p: "p = c # cs" "c \<noteq> CHR 0x22"
      by (cases p) (auto split: if_splits)
    show ?thesis
    proof (cases "c = CHR 0x5C")
      case False
      with less.prems(1) p obtain m k where s: "scan_string cs = Some (m, k)" "n = Suc m" "l = Suc k"
        by (auto split: option.splits)
      from less.prems(2) p s False obtain out' where
        d: "decode_string (int m) cs = Some (out', r)" "out = c # out'"
        by (auto simp: decode_plain)
      from less.IH [OF _ s(1) d(1)] s d p show ?thesis by simp
    next
      case True
      with less.prems(1) p obtain d ds m k where
        s: "cs = d # ds" "scan_string ds = Some (m, k)" "n = Suc (Suc m)" "l = Suc k"
        by (auto split: list.splits option.splits)
      show ?thesis
      proof (cases "d = CHR ''u''")
        case False
        from less.prems(2) p s True False obtain out' where
          d: "decode_string (int m) ds = Some (out', r)" "out = simple_escape d # out'"
          by (auto simp: decode_simple)
        from less.IH [OF _ s(2) d(1)] s d p show ?thesis by simp
      next
        case u: True
        have "decode_string (int n) (CHR 0x5C # CHR ''u'' # ds) = Some (out, r)"
          using less.prems(2) p s True u by simp
        note dec = decode_u_Some [OF this]
        obtain h1 h2 h3 h4 t where h: "ds = h1 # h2 # h3 # h4 # t" "hex_val h1 \<noteq> None"
            "hex_val h2 \<noteq> None" "hex_val h3 \<noteq> None" "hex_val h4 \<noteq> None"
          using parse_hex4_nonzero [of ds] dec n by auto
        obtain m' k' where s': "scan_string t = Some (m', k')" "m = m' + 4" "k = k' + 4"
          using scan_hex4 s(2) h by metis
        have i: "int n - 6 = int m'" using s s' by simp
        have dp: "drop n p = drop m' t" using s s' p h(1) by (simp add: eval_nat_numeral)
        from dec n h(1) i consider
          (bmp) out' x where "decode_string (int m') t = Some (out', r)" "out = utf8_bytes x @ out'"
        | (pair) out' x where "chr_at t 0 = CHR 0x5C" "chr_at t 1 = CHR ''u''" "parse_hex4 (drop 2 t) \<noteq> 0"
            "decode_string (int n - 12) (drop 6 t) = Some (out', r)" "out = utf8_bytes x @ out'"
          by (auto simp: eval_nat_numeral)
        then show ?thesis
        proof cases
          case bmp
          from less.IH [OF _ s'(1) bmp(1)] s(3,4) s'(2,3) bmp(2) dp show ?thesis
            using length_utf8_bytes [of x] utf8_length_le [of x] by simp
        next
          case pair
          from pair(1,2) obtain t2 where t: "t = CHR 0x5C # CHR ''u'' # t2"
            by (cases t; cases "tl t") (auto simp: chr_at_def)
          from pair(3) t obtain g1 g2 g3 g4 t3 where g: "t2 = g1 # g2 # g3 # g4 # t3" "hex_val g1 \<noteq> None"
              "hex_val g2 \<noteq> None" "hex_val g3 \<noteq> None" "hex_val g4 \<noteq> None"
            using parse_hex4_nonzero [of t2] by auto
          from s'(1) t obtain m2 k2 where s2: "scan_string t2 = Some (m2, k2)" "m' = m2 + 2" "k' = k2 + 1"
            by (auto split: option.splits)
          obtain m3 k3 where s3: "scan_string t3 = Some (m3, k3)" "m2 = m3 + 4" "k2 = k3 + 4"
            using scan_hex4 s2(1) g by metis
          have "int n - 12 = int m3" using s s' s2 s3 by simp
          with pair(4) t g(1) have d': "decode_string (int m3) t3 = Some (out', r)" by simp
          have "drop m' t = drop m3 t3" using s2 s3 t g(1) by (simp add: eval_nat_numeral)
          with less.IH [OF _ s3(1) d'] s(3,4) s'(2,3) s2(2,3) s3(2,3) pair(5) dp show ?thesis
            using length_utf8_bytes [of x] utf8_length_le [of x] by simp
        qed
      qed
    qed
  qed
qed

definition nul_free :: "string \<Rightarrow> bool" where
  "nul_free s \<longleftrightarrow> CHR 0x00 \<notin> set s"

lemma hex_val_hex_digit: "n < 16 \<Longrightarrow> hex_val (hex_digit n) = Some (int n)"
proof -
  have "of_char (char_of m :: char) = (int m)" if "m < 256" for m :: nat
    using that of_nat_of_char [of "char_of m", where 'a = int] by simp
  moreover assume "n < 16"
  ultimately show ?thesis by (auto simp: hex_digit_def hex_val_def Let_def)
qed

lemma parse_hex4_show:
  "parse_hex4 (CHR ''0'' # CHR ''0'' # hex_digit (n div 16) # hex_digit (n mod 16) # s) = int n" if "n < 256"
proof -
  have z: "hex_val CHR ''0'' = Some 0" by (simp add: hex_val_def)
  have "n div 16 < 16" "n mod 16 < 16" using that by auto
  moreover have "push_bit 4 (int (n div 16)) + int (n mod 16) = int n"
  proof -
    have "int (n div 16 * 16 + n mod 16) = int n" by simp
    then show ?thesis by (simp only: of_nat_add of_nat_mult) (simp add: push_bit_eq_mult)
  qed
  moreover have "u32 (push_bit 4 (int (n div 16))) = push_bit 4 (int (n div 16))"
    using that by (simp add: u32_def push_bit_eq_mult)
  moreover have "(4::nat) = Suc (Suc (Suc (Suc 0)))" by simp
  ultimately show ?thesis
    unfolding parse_hex4_def
    by (simp only: hex_steps.simps) (simp add: z hex_val_hex_digit u32_def)
qed

lemma utf8_ascii: "0 < n \<Longrightarrow> n < 128 \<Longrightarrow> utf8_bytes (int n) = [char_of n]"
  by (simp add: utf8_bytes_def utf8_length_def firstByteMark_def byte_of_def eval_nat_numeral)

text \<open>Decoding undoes escaping, one character at a time.\<close>

lemma decode_escape_char:
  assumes "c \<noteq> CHR 0x00" "0 \<le> m"
  shows "decode_string (int (length (escape_char c)) + m) (escape_char c @ s) =
    map_option (\<lambda>(out, r). (c # out, r)) (decode_string m s)"
proof (cases "must_escape c")
  case False
  then have "c \<noteq> CHR 0x5C" by (simp add: must_escape_def)
  with False assms(2) show ?thesis by (simp add: escape_char_def decode_plain)
next
  case True
  show ?thesis
  proof (cases "c \<in> set json_special")
    case sp: True
    then obtain d where d: "escape_char c = [CHR 0x5C, d]" "d \<noteq> CHR ''u''" "simple_escape d = c"
      using True by (auto simp: json_special_def escape_char_def simple_escape_def)
    then show ?thesis using assms(2) by (simp add: decode_simple)
  next
    case False
    define n where "n = (of_char c :: nat)"
    have c: "c = char_of n" by (simp add: n_def)
    have n: "n < 32" using True False by (auto simp: n_def must_escape_def json_special_def)
    have "(of_char CHR 0x00 :: nat) = 0" by simp
    then have "n \<noteq> 0" using assms(1) unfolding n_def by (metis of_char_eq_iff)
    have e: "escape_char c = CHR 0x5C # show_u4 c"
      using True False by (auto simp: escape_char_def json_special_def)
    have d4: "drop 4 (a # b # x # y # s) = s" for a b x y by (simp add: eval_nat_numeral)
    have "decode_string (m + 6) (CHR 0x5C # CHR ''u'' # CHR ''0'' # CHR ''0'' # hex_digit (n div 16) # hex_digit (n mod 16) # s)
        = map_option (\<lambda>(out, r). (utf8_bytes (int n) @ out, r)) (decode_string m s)"
      using assms(2) n \<open>n \<noteq> 0\<close> parse_hex4_show [of n s]
      by (subst decode_u) (auto simp: d4)
    moreover have "utf8_bytes (int n) = [c]"
      using utf8_ascii [of n] n \<open>n \<noteq> 0\<close> c by simp
    moreover have "escape_char c = [CHR 0x5C, CHR ''u'', CHR ''0'', CHR ''0'', hex_digit (n div 16), hex_digit (n mod 16)]"
      using e by (simp add: show_u4_def Let_def n_def)
    ultimately show ?thesis by (simp add: add.commute)
  qed
qed

lemma decode_escape:
  "nul_free s \<Longrightarrow> decode_string (int (length (concat (map escape_char s)))) (concat (map escape_char s) @ t) = Some (s, t)"
proof (induction s)
  case Nil
  then show ?case by (simp add: decode_string.simps)
next
  case (Cons c s)
  then have "c \<noteq> CHR 0x00" "nul_free s" by (auto simp: nul_free_def)
  with Cons.IH show ?case
    using decode_escape_char [of c "int (length (concat (map escape_char s)))" "concat (map escape_char s) @ t"]
    by simp
qed

text \<open>The first pass finds the closing quote.\<close>

lemma scan_escape_char: "\<exists>k. scan_string (escape_char c @ s) =
    (case scan_string s of None \<Rightarrow> None | Some (n, l) \<Rightarrow> Some (n + length (escape_char c), l + k))"
proof (cases "must_escape c")
  case False
  then have "c \<noteq> CHR 0x5C" "c \<noteq> CHR 0x22" by (simp_all add: must_escape_def)
  with False show ?thesis
    by (intro exI [of _ 1]) (simp add: escape_char_def split: option.split)
next
  case True
  show ?thesis
  proof (cases "c \<in> set json_special")
    case sp: True
    then obtain d where "escape_char c = [CHR 0x5C, d]"
      using True by (auto simp: json_special_def escape_char_def)
    then show ?thesis by (intro exI [of _ 1]) (simp split: option.split)
  next
    case False
    define n where "n = (of_char c :: nat)"
    have n: "n < 32" using True False by (auto simp: n_def must_escape_def json_special_def)
    then have h: "hex_val (hex_digit (n div 16)) \<noteq> None" "hex_val (hex_digit (n mod 16)) \<noteq> None"
      by (simp_all add: hex_val_hex_digit)
    have e: "escape_char c = [CHR 0x5C, CHR ''u'', CHR ''0'', CHR ''0'', hex_digit (n div 16), hex_digit (n mod 16)]"
      using True False by (auto simp: escape_char_def json_special_def show_u4_def Let_def n_def)
    show ?thesis
      using hex_val_plain [OF h(1)] hex_val_plain [OF h(2)]
      by (intro exI [of _ 5]) (simp add: e split: option.split)
  qed
qed

lemma scan_escape: "\<exists>l. scan_string (concat (map escape_char s) @ CHR 0x22 # t) =
    Some (length (concat (map escape_char s)), l)"
proof (induction s)
  case (Cons c s)
  then obtain l where "scan_string (concat (map escape_char s) @ CHR 0x22 # t) =
      Some (length (concat (map escape_char s)), l)" by blast
  then show ?case
    using scan_escape_char [of c "concat (map escape_char s) @ CHR 0x22 # t"] by (auto simp: add.commute)
qed simp

lemma print_string_escape:
  "print_string_ptr (Some s) = CHR 0x22 # concat (map escape_char s) @ [CHR 0x22]"
proof -
  have "\<not> list_ex must_escape s \<Longrightarrow> concat (map escape_char s) = s"
    by (induction s) (auto simp: escape_char_def)
  then show ?thesis by (auto simp: print_string_ptr_def)
qed

lemma parse_print_string:
  assumes "nul_free s"
  shows "parse_string item (print_string_ptr (Some s) @ t) =
    POk (case item of CJ _ _ vi vd nm ch \<Rightarrow> CJ cJSON_String (Some s) vi vd nm ch) t"
proof -
  obtain l where "scan_string (concat (map escape_char s) @ CHR 0x22 # t) =
      Some (length (concat (map escape_char s)), l)" using scan_escape by blast
  then show ?thesis
    using decode_escape [OF assms] by (simp add: parse_string_def print_string_escape)
qed

section \<open>Numbers\<close>

lemma scan_digits_show_nat:
  "n \<le> 2 ^ 53 \<Longrightarrow> scan_digits (Fin 0) (show_nat n @ s) =
     (case scan_digits (Fin (of_nat n)) s of (m, k, r) \<Rightarrow> (m, k + length (show_nat n), r))"
proof (induction n arbitrary: s rule: show_nat.induct)
  case (1 n)
  have dig: "d_of_int (int d) = Fin (of_nat d)" if "d < 10" for d
    using that d_of_int_exact [of "int d"] by simp
  have step: "d_add (d_mul (Fin (of_nat a)) (Fin 10)) (Fin (of_nat d)) = Fin (of_nat (a * 10 + d))"
    if "a * 10 + d \<le> 2 ^ 53" for a d :: nat
  proof -
    have "int (a * 10 + d) \<le> int (2 ^ 53)" using that by (simp only: of_nat_le_iff)
    then have le: "int a * 10 + int d \<le> 2 ^ 53" by simp
    then show ?thesis
      using d_mul_int [of "int a" 10] d_add_int [of "int a * 10" "int d"] by simp
  qed
  show ?case
  proof (cases "n < 10")
    case True
    with step [of 0 n] dig [of n] show ?thesis
      by (subst (1 2) show_nat.simps) (simp split: prod.split)
  next
    case False
    have eq: "n div 10 * 10 + n mod 10 = n" by simp
    have "n div 10 \<le> 2 ^ 53" using "1.prems" by simp
    note IH = "1.IH" [OF False this, of "digit_char (n mod 10) # s"]
    have st: "d_add (d_mul (Fin (of_nat (n div 10))) (Fin 10)) (Fin (of_nat (n mod 10))) = Fin (of_nat n)"
      using step [of "n div 10" "n mod 10"] "1.prems" by (simp only: eq)
    have "show_nat n = show_nat (n div 10) @ [digit_char (n mod 10)]"
      using False by (subst show_nat.simps) simp
    then show ?thesis
      using IH dig [of "n mod 10"] st by (simp split: prod.split)
  qed
qed

definition follow_ok :: "string \<Rightarrow> bool" where
  "follow_ok s \<longleftrightarrow> \<not> is_digit (chr_at s 0) \<and> chr_at s 0 \<notin> {CHR ''.'', CHR ''e'', CHR ''E''}"

lemma scan_digits_stop: "\<not> is_digit (chr_at s 0) \<Longrightarrow> scan_digits n s = (n, 0, s)"
  by (cases s) auto

lemma show_nat_0: "show_nat 0 = ''0''"
proof -
  have "char_of (48 :: nat) = CHR ''0''"
    using char_of_char [of "CHR ''0''", where 'a = nat] by simp
  then show ?thesis by (subst show_nat.simps) (simp add: digit_char.simps)
qed

lemma chr_at_show_nat: "chr_at (show_nat n @ s) 0 = hd (show_nat n)"
  by (cases "show_nat n") auto

lemma hd_show_nat_digit: "is_digit (hd (show_nat n))"
  using show_nat_digits [of n] by (cases "show_nat n") auto

lemma is_digit_not_minus [simp]: "\<not> is_digit CHR ''-''"
  by (simp add: is_digit_def)

lemma parse_show_int:
  assumes "\<bar>n\<bar> \<le> 2 ^ 53" "follow_ok s"
  shows "parse_number item (show_int n @ s) =
    POk (case item of CJ _ vs _ _ nm ch \<Rightarrow> CJ cJSON_Number vs n (Fin (of_int n)) nm ch) s"
proof -
  define k where "k = nat \<bar>n\<bar>"
  define sg where "sg = (if n < 0 then -1 else 1 :: int)"
  have n: "n = sg * int k" by (simp add: k_def sg_def)
  have k53: "k \<le> 2 ^ 53" using assms(1) by (simp add: k_def nat_le_iff)
  define dn where "dn = chr_at (show_nat k @ s) 0"
  have dn: "dn = hd (show_nat k)" "is_digit dn" "dn \<noteq> CHR ''-''"
    using chr_at_show_nat [of k s] hd_show_nat_digit [of k] by (auto simp: dn_def)
  have stop: "chr_at s 0 \<noteq> CHR ''.''" "chr_at s 0 \<noteq> CHR ''e''" "chr_at s 0 \<noteq> CHR ''E''"
    "\<not> is_digit (chr_at s 0)"
    using assms(2) by (auto simp: follow_ok_def)
  have "int k \<le> int (2 ^ 53)" using k53 by (simp only: of_nat_le_iff)
  then have bd: "\<bar>sg * int k\<bar> \<le> 2 ^ 53" "\<bar>sg\<bar> \<le> 2 ^ 53" by (auto simp: sg_def)
  have mul: "d_mul (d_mul (d_of_int sg) (Fin (of_nat k))) (pow10 0) = Fin (of_int n)"
    using d_mul_int [of sg "int k"] d_mul_int [of n 1] bd n by simp
  have i64: "d_to_i64 (Fin (of_int n)) = n" using assms(1) by (rule d_to_i64_int)
  have mant: "num_mantissa (show_nat k @ s) = (Fin (of_nat k), s)"
  proof (cases "k = 0")
    case True
    then show ?thesis using stop by (simp add: show_nat_0 num_mantissa_def)
  next
    case False
    then have "dn \<noteq> CHR ''0''" using hd_show_nat [of k] dn(1) by simp
    then show ?thesis
      using dn(2) scan_digits_show_nat [OF k53, of s] scan_digits_stop [OF stop(4)]
      by (simp add: num_mantissa_def dn_def [symmetric])
  qed
  have sign: "num_sign (show_int n @ s) = (sg, show_nat k @ s)"
    using dn by (auto simp: num_sign_def show_int_def sg_def k_def dn_def)
  have "num_fraction (Fin (of_nat k)) s = (Fin (of_nat k), 0, s)" "num_exponent s = (0, s)"
    using stop by (simp_all add: num_fraction_def num_exponent_def)
  with sign mant mul i64 show ?thesis
    by (cases item) (simp add: parse_number_def Let_def)
qed

lemma LLONG_MAX_val: "LLONG_MAX_d = Fin (2 ^ 63)"
proof -
  have q: "binexp (of_int (2 ^ 63 - 1)) = 62"
  proof -
    have "bitlen (2 ^ 63 - 1) \<le> 63" "63 \<le> bitlen (2 ^ 63 - 1)"
      by (simp_all add: bitlen_le_iff_power bitlen_ge_iff_power)
    then show ?thesis by (subst binexp_int) simp_all
  qed
  have f: "\<lfloor>(9223372036854775807 / 1024 :: rat)\<rfloor> = 9007199254740991"
    by (simp add: floor_eq_iff)
  have r: "round_half_even (9223372036854775807 / 1024) = 9007199254740992"
    by (simp add: round_half_even_def f Let_def)
  show ?thesis
    using q by (simp add: LLONG_MAX_d_def d_of_int_def rnd_def rnd_fmt_def pow2r_def r Let_def)
qed

lemma LLONG_MIN_val: "LLONG_MIN_d = Fin (- (2 ^ 63))"
proof -
  have q: "binexp (of_int (- (2 ^ 63))) = 63"
  proof -
    have "bitlen (2 ^ 63) \<le> 64" "64 \<le> bitlen (2 ^ 63)"
      by (simp_all add: bitlen_le_iff_power bitlen_ge_iff_power)
    then show ?thesis by (subst binexp_int) simp_all
  qed
  have r: "round_half_even (- 4503599627370496) = - 4503599627370496"
    using round_half_even_int [of "- 4503599627370496"] by simp
  show ?thesis
    using q by (simp add: LLONG_MIN_d_def d_of_int_def rnd_def rnd_fmt_def pow2r_def r Let_def)
qed

lemma print_number_int:
  assumes "\<bar>n\<bar> \<le> 2 ^ 53"
  shows "print_number (CJ t vs n (Fin (of_int n)) nm ch) = show_int n"
proof (cases "n = 0")
  case True
  then show ?thesis by (simp add: print_number_def show_int_def show_nat_0)
next
  case False
  have "(of_int n :: rat) \<le> of_int (2 ^ 53)" "of_int (- (2 ^ 53)) \<le> (of_int n :: rat)"
    using assms by (simp_all only: of_int_le_iff abs_le_iff) linarith
  then have "d_le (Fin (of_int n)) LLONG_MAX_d" "d_le LLONG_MIN_d (Fin (of_int n))"
    by (simp_all add: LLONG_MAX_val LLONG_MIN_val d_le_def)
  moreover have "d_le (d_abs (d_sub (d_of_int n) (Fin (of_int n)))) DBL_EPSILON"
    using assms by (simp add: d_sub_def d_le_def DBL_EPSILON_def)
  ultimately show ?thesis
    using False by (simp add: print_number_def)
qed

section \<open>Numbers of any form\<close>

text \<open>
  A number the printer writes is a sign, digits, a fraction and an exponent. The parser consumes all
  of it and nothing behind it, so the value it reads depends on the text alone.
\<close>

lemma scan_digits_all: "\<forall>c \<in> set ds. is_digit c \<Longrightarrow> \<not> is_digit (chr_at s 0) \<Longrightarrow>
    scan_digits n (ds @ s) = (fst (scan_digits n ds), length ds, s)"
  by (induction ds arbitrary: n) (simp_all add: scan_digits_stop split: prod.split)

lemma scan_int_all: "\<forall>c \<in> set ds. is_digit c \<Longrightarrow> \<not> is_digit (chr_at s 0) \<Longrightarrow>
    scan_int n (ds @ s) = (fst (scan_int n ds), s)"
proof (induction ds arbitrary: n)
  case Nil
  then show ?case by (cases s) auto
qed simp

definition fraction_text :: "string \<Rightarrow> bool" where
  "fraction_text fr \<longleftrightarrow> fr = [] \<or> (\<exists>d ds. fr = CHR ''.'' # d # ds \<and> (\<forall>c \<in> set (d # ds). is_digit c))"

definition exponent_text :: "string \<Rightarrow> bool" where
  "exponent_text ex \<longleftrightarrow> ex = [] \<or>
     (\<exists>sg ds. ex = CHR ''e'' # sg # ds \<and> sg \<in> {CHR ''+'', CHR ''-''} \<and> (\<forall>c \<in> set ds. is_digit c))"

lemma no_digits [simp]: "\<not> is_digit CHR ''.''" "\<not> is_digit CHR ''e''" "\<not> is_digit CHR ''+''"
  by (simp_all add: is_digit_def)

lemma mantissa_all:
  assumes "\<not> is_digit (chr_at s 0)"
  shows "num_mantissa (show_nat n @ s) = (fst (num_mantissa (show_nat n)), s)"
proof (cases "n = 0")
  case True
  then show ?thesis using assms by (simp add: show_nat_0 num_mantissa_def)
next
  case False
  have h: "chr_at (show_nat n @ u) 0 = hd (show_nat n)" for u by (rule chr_at_show_nat)
  have "hd (show_nat n) \<noteq> CHR ''0''" "is_digit (hd (show_nat n))"
    using hd_show_nat [of n] hd_show_nat_digit False by auto
  then show ?thesis
    using h [of s] h [of "[]"] scan_digits_all [OF show_nat_digits assms] scan_digits_all [OF show_nat_digits, of "[]"]
    by (simp add: num_mantissa_def split: prod.split)
qed

lemma fraction_all:
  assumes "fraction_text fr" "\<not> is_digit (chr_at s 0)" "chr_at s 0 \<noteq> CHR ''.''"
  shows "num_fraction v (fr @ s) = (fst (num_fraction v fr), fst (snd (num_fraction v fr)), s)"
proof (cases "fr = []")
  case True
  then show ?thesis using assms(3) by (simp add: num_fraction_def)
next
  case False
  then obtain d ds where fr: "fr = CHR ''.'' # d # ds" "\<forall>c \<in> set (d # ds). is_digit c"
    using assms(1) by (auto simp: fraction_text_def)
  obtain w where w: "fst (scan_digits v (d # ds)) = w" by blast
  have "scan_digits v ((d # ds) @ s) = (w, Suc (length ds), s)" "scan_digits v (d # ds) = (w, Suc (length ds), [])"
    using scan_digits_all [OF fr(2) assms(2), of v] scan_digits_all [OF fr(2), of "[]" v] w by simp_all
  then show ?thesis
    using fr(2) unfolding fr(1) by (simp add: num_fraction_def del: scan_digits.simps)
qed

lemma exponent_all:
  assumes "exponent_text ex" "\<not> is_digit (chr_at s 0)" "chr_at s 0 \<noteq> CHR ''e''" "chr_at s 0 \<noteq> CHR ''E''"
  shows "num_exponent (ex @ s) = (fst (num_exponent ex), s)"
proof (cases "ex = []")
  case True
  then show ?thesis using assms by (simp add: num_exponent_def)
next
  case False
  then obtain sg ds where ex: "ex = CHR ''e'' # sg # ds" "sg = CHR ''+'' \<or> sg = CHR ''-''" "\<forall>c \<in> set ds. is_digit c"
    using assms(1) by (auto simp: exponent_text_def)
  obtain w where w: "fst (scan_int 0 ds) = w" by blast
  have "scan_int 0 (ds @ s) = (w, s)" "scan_int 0 ds = (w, [])"
    using scan_int_all [OF ex(3) assms(2), of 0] scan_int_all [OF ex(3), of "[]" 0] w by simp_all
  then show ?thesis
    using ex(2) unfolding ex(1) by (elim disjE) (simp_all add: num_exponent_def split_beta)
qed

text \<open>What the parser makes of a text, whatever follows it.\<close>

definition reads_number :: "string \<Rightarrow> int \<Rightarrow> double \<Rightarrow> bool" where
  "reads_number x i v \<longleftrightarrow> (x \<noteq> [] \<and> (is_digit (hd x) \<or> hd x = CHR ''-'')) \<and>
     (\<forall>item s. follow_ok s \<longrightarrow> parse_number item (x @ s) =
        POk (case item of CJ _ vs _ _ nm ch \<Rightarrow> CJ cJSON_Number vs i v nm ch) s)"

lemma reads_decimal:
  assumes "sg \<in> {[], ''-''}" "fraction_text fr" "exponent_text ex"
  shows "\<exists>i v. reads_number (sg @ show_nat a @ fr @ ex) i v"
proof -
  let ?sign = "if sg = [] then 1 else -1 :: int"
  let ?m = "fst (num_mantissa (show_nat a))"
  let ?f = "num_fraction ?m fr"
  let ?e = "fst (num_exponent ex)"
  define v where "v = d_mul (d_mul (d_of_int ?sign) (fst ?f)) (pow10 (fst (snd ?f) + ?e))"
  have "parse_number item ((sg @ show_nat a @ fr @ ex) @ s) =
      POk (case item of CJ _ vs _ _ nm ch \<Rightarrow> CJ cJSON_Number vs (d_to_i64 v) v nm ch) s" if "follow_ok s" for item s
  proof -
    have s: "\<not> is_digit (chr_at s 0)" "chr_at s 0 \<noteq> CHR ''.''" "chr_at s 0 \<noteq> CHR ''e''" "chr_at s 0 \<noteq> CHR ''E''"
      using that by (auto simp: follow_ok_def)
    have e: "\<not> is_digit (chr_at (ex @ s) 0)" "chr_at (ex @ s) 0 \<noteq> CHR ''.''"
      using assms(3) s by (auto simp: exponent_text_def)
    have f: "\<not> is_digit (chr_at (fr @ ex @ s) 0)"
      using assms(2) e by (auto simp: fraction_text_def)
    have "chr_at (show_nat a @ fr @ ex @ s) 0 \<noteq> CHR ''-''"
      using hd_show_nat_digit [of a] chr_at_show_nat [of a] by auto
    then have "num_sign (sg @ show_nat a @ fr @ ex @ s) = (?sign, show_nat a @ fr @ ex @ s)"
      using assms(1) by (auto simp: num_sign_def)
    then show ?thesis
      using mantissa_all [OF f, of a] fraction_all [OF assms(2) e, of ?m] exponent_all [OF assms(3) s(1,3,4)]
      by (cases item) (simp add: parse_number_def v_def Let_def)
  qed
  moreover have "is_digit (hd (sg @ show_nat a @ fr @ ex)) \<or> hd (sg @ show_nat a @ fr @ ex) = CHR ''-''"
    using hd_show_nat_digit [of a] assms(1) by (cases "show_nat a") auto
  ultimately show ?thesis using assms(1) by (auto simp: reads_number_def)
qed

lemma pad_left_digits: "\<forall>c \<in> set s. is_digit c \<Longrightarrow> \<forall>c \<in> set (pad_left w CHR ''0'' s). is_digit c"
  by (auto simp: pad_left_def is_digit_def)

lemma fraction_padded: "fraction_text (CHR ''.'' # pad_left w CHR ''0'' (show_nat n))"
proof -
  obtain d ds where "pad_left w CHR ''0'' (show_nat n) = d # ds"
    using show_nat_nonempty [of n] by (cases "pad_left w CHR ''0'' (show_nat n)") (auto simp: pad_left_def)
  then show ?thesis using pad_left_digits [OF show_nat_digits, of w n] by (auto simp: fraction_text_def)
qed

lemma exponent_padded: "sg \<in> {CHR ''+'', CHR ''-''} \<Longrightarrow> exponent_text (CHR ''e'' # sg # pad_left w CHR ''0'' (show_nat n))"
  using pad_left_digits [OF show_nat_digits, of w n] by (auto simp: exponent_text_def)

lemma reads_int: "\<exists>i v. reads_number (show_int n) i v"
  using reads_decimal [of "''-''" "[]" "[]" "nat (- n)"] reads_decimal [of "[]" "[]" "[]" "nat n"]
  by (auto simp: show_int_def fraction_text_def exponent_text_def)

lemma reads_fixed: "\<exists>i v. reads_number (fmt_fixed prec x) i v"
proof -
  let ?m = "nat (round_half_even (\<bar>x\<bar> * 10 ^ prec))"
  let ?fr = "if prec = 0 then [] else CHR ''.'' # pad_left prec CHR ''0'' (show_nat (?m mod 10 ^ prec))"
  let ?sg = "if x < 0 then ''-'' else []"
  have fr: "fraction_text ?fr" using fraction_padded by (simp add: fraction_text_def)
  have eq: "fmt_fixed prec x = ?sg @ show_nat (?m div 10 ^ prec) @ ?fr @ []"
    unfolding fmt_fixed_def Let_def by (simp only: append_Nil2 append_Cons append_Nil)
  show ?thesis unfolding eq by (rule reads_decimal [OF _ fr]) (simp_all add: exponent_text_def)
qed

lemma reads_exp: "\<exists>i v. reads_number (fmt_exp x) i v"
proof -
  let ?sg = "if x < 0 then ''-'' else []"
  define f where "f = (\<lambda>(m, k :: int). ?sg @ show_nat (m div 10 ^ 6) @
      (CHR ''.'' # pad_left 6 CHR ''0'' (show_nat (m mod 10 ^ 6))) @
      (CHR ''e'' # (if k < 0 then CHR ''-'' else CHR ''+'') # pad_left 2 CHR ''0'' (show_nat (nat \<bar>k\<bar>))))"
  define k where "k = (if x = 0 then 0 else dec_exp \<bar>x\<bar>)"
  define m0 where "m0 = nat (round_half_even (\<bar>x\<bar> / pow10r (k - 6)))"
  define mk where "mk = (if m0 = 10 ^ 7 then (10 ^ 6, k + 1) else (m0, k))"
  have "fmt_exp x = f mk"
    unfolding fmt_exp_def Let_def k_def [symmetric] m0_def [symmetric] mk_def [symmetric] f_def
    by (simp split: prod.split)
  moreover have "\<exists>i v. reads_number (f (m, k)) i v" for m k
    unfolding f_def prod.case by (rule reads_decimal [OF _ fraction_padded exponent_padded]) auto
  ultimately show ?thesis by (cases mk) simp
qed

text \<open>Zero and normal numbers: the others are printed as \<open>null\<close>.\<close>

definition printable :: "double \<Rightarrow> bool" where
  "printable d \<longleftrightarrow> d = Fin 0 \<or> d_isnormal d"

lemma reads_print_number:
  assumes "printable (cj_valuedouble c)"
  shows "\<exists>i v. reads_number (print_number c) i v"
proof -
  obtain x where x: "cj_valuedouble c = Fin x"
    using assms by (cases "cj_valuedouble c") (auto simp: printable_def)
  have "\<exists>i v. reads_number ''0'' i v" using reads_int [of 0] by (simp add: show_int_def show_nat_0)
  then show ?thesis
    using assms reads_int reads_fixed reads_exp x
    by (auto simp: print_number_def printable_def Let_def)
qed

end
