(* ===== verification/Cjson_Roundtrip.thy ===== *)
theory Cjson_Roundtrip
  imports Cjson_Scan
begin

text \<open>
  What the printer and the parser of \<open>cjson.c\<close> promise together: a text printed from an item parses
  back to it, the parser returns on every text, and string literals are decoded within the block
  allocated for them; and two inputs for which the scanner of string literals does not keep its
  promise.
\<close>

section \<open>Items that survive printing\<close>

fun json_fine :: "cJSON \<Rightarrow> bool" where
  "json_fine (CJ t vs vi vd nm ch) \<longleftrightarrow>
     (if t = cJSON_Number then vs = None \<and> printable vd \<and> ch = []
      else vi \<in> (if t = cJSON_True then {0, 1} else {0}) \<and> vd = Fin 0 \<and>
        (if t = cJSON_String then (\<exists>s. vs = Some s \<and> nul_free s) else vs = None) \<and>
        (if t = cJSON_Array then \<forall>c \<in> set ch. json_fine c \<and> cj_string c = None
         else if t = cJSON_Object then \<forall>c \<in> set ch. json_fine c \<and> (\<exists>s. cj_string c = Some s \<and> nul_free s)
         else t \<in> {cJSON_False, cJSON_True, cJSON_NULL, cJSON_String} \<and> ch = []))"

text \<open>
  What the parser makes of the text of an item: a number is what its text reads as, and \<open>valueint\<close> of a
  true item is 1, which the constructor leaves 0.
\<close>

fun reread :: "cJSON \<Rightarrow> cJSON" where
  "reread (CJ t vs vi vd nm ch) =
     (if t = cJSON_Number
      then (case parse_number (CJ t vs vi vd nm ch) (print_number (CJ t vs vi vd nm ch)) of
              POk c _ \<Rightarrow> c | _ \<Rightarrow> CJ t vs vi vd nm ch)
      else CJ t vs (if t = cJSON_True then 1 else vi) vd nm (map reread ch))"

lemma reread_number: "reads_number (print_number (CJ cJSON_Number None vi vd nm [])) i v \<Longrightarrow>
    reread (CJ cJSON_Number None vi vd nm []) = CJ cJSON_Number None i v nm []"
  using append_Nil2 [of "print_number (CJ cJSON_Number None vi vd nm [])"]
  by (auto simp: reads_number_def follow_ok_def dest!: spec [of _ "CJ cJSON_Number None vi vd nm []"] spec [of _ "[]"])

lemma json_fine_type: "json_fine (CJ t vs vi vd nm ch) \<Longrightarrow>
    t = 0 \<or> t = 1 \<or> t = 2 \<or> t = 3 \<or> t = 4 \<or> t = 5 \<or> t = 6"
  by (auto simp: json_types split: if_splits)

lemma all_some_map: "(\<And>x. x \<in> set xs \<Longrightarrow> f x \<noteq> None) \<Longrightarrow> all_some (map f xs) = Some (map (the \<circ> f) xs)"
proof (induction xs)
  case (Cons x xs)
  obtain y where "f x = Some y" using Cons.prems by fastforce
  with Cons show ?case by simp
qed simp

lemma print_fine_total: "json_fine c \<Longrightarrow> print_value c depth fmt \<noteq> None"
proof (induction c arbitrary: depth)
  case (CJ t vs vi vd nm ch)
  have "t mod 256 = t" using json_fine_type [OF CJ.prems] by auto
  moreover have "print_value c (Suc depth) fmt \<noteq> None" if "t = cJSON_Array \<or> t = cJSON_Object" "c \<in> set ch" for c
    using CJ that by (auto simp: json_types)
  ultimately show ?case
    using json_fine_type [OF CJ.prems] by (auto simp: json_types all_some_map)
qed

definition render :: "cJSON \<Rightarrow> nat \<Rightarrow> bool \<Rightarrow> string" where
  "render c depth fmt = the (print_value c depth fmt)"

lemma fine_cases:
  "json_fine (CJ cJSON_NULL vs vi vd nm ch) \<Longrightarrow> render (CJ cJSON_NULL vs vi vd nm ch) depth fmt = ''null''"
  "json_fine (CJ cJSON_False vs vi vd nm ch) \<Longrightarrow> render (CJ cJSON_False vs vi vd nm ch) depth fmt = ''false''"
  "json_fine (CJ cJSON_True vs vi vd nm ch) \<Longrightarrow> render (CJ cJSON_True vs vi vd nm ch) depth fmt = ''true''"
  "json_fine (CJ cJSON_Number vs vi vd nm ch) \<Longrightarrow> render (CJ cJSON_Number vs vi vd nm ch) depth fmt =
    print_number (CJ cJSON_Number vs vi vd nm ch)"
  "json_fine (CJ cJSON_String vs vi vd nm ch) \<Longrightarrow> render (CJ cJSON_String vs vi vd nm ch) depth fmt = print_string_ptr vs"
  by (auto simp: render_def json_types print_string_def)

lemma fine_array: "json_fine (CJ cJSON_Array vs vi vd nm ch) \<Longrightarrow>
    render (CJ cJSON_Array vs vi vd nm ch) depth fmt = array_text fmt (map (\<lambda>c. render c (Suc depth) fmt) ch)"
  using all_some_map [of ch "\<lambda>c. print_value c (Suc depth) fmt"] print_fine_total
  by (auto simp: render_def json_types comp_def)

lemma fine_object: "json_fine (CJ cJSON_Object vs vi vd nm ch) \<Longrightarrow>
    render (CJ cJSON_Object vs vi vd nm ch) depth fmt =
      object_text depth fmt (map (\<lambda>c. (print_string_ptr (cj_string c), render c (Suc depth) fmt)) ch)"
  using all_some_map [of ch "\<lambda>c. print_value c (Suc depth) fmt"] print_fine_total
  by (auto simp: render_def json_types comp_def zip_map_map map_zip_map2 zip_same_conv_map)

text \<open>Every rendering starts with a character that names its type.\<close>

definition plain_start :: "char \<Rightarrow> bool" where
  "plain_start c \<longleftrightarrow> 32 < (of_char c :: nat) \<and> c \<noteq> CHR '']'' \<and> c \<noteq> CHR ''}''"

lemma skip_plain: "32 < (of_char c :: nat) \<Longrightarrow> skip (c # s) = c # s"
  by simp

lemma plain_start_digit: "is_digit c \<Longrightarrow> plain_start c"
  by (auto simp: plain_start_def is_digit_def)

lemma fine_start:
  assumes "json_fine c"
  shows "\<exists>x s. render c depth fmt = x # s \<and> plain_start x"
proof -
  obtain t vs vi vd nm ch where c: "c = CJ t vs vi vd nm ch" by (cases c) blast
  have ps: "plain_start CHR 0x22" "plain_start CHR ''n''" "plain_start CHR ''f''" "plain_start CHR ''t''"
    "plain_start CHR ''-''" "plain_start CHR ''[''" "plain_start CHR ''{''"
    by (simp_all add: plain_start_def)
  have int: "\<exists>x s. print_number (CJ cJSON_Number vs vi vd nm ch) = x # s \<and> plain_start x" if "printable vd"
    using reads_print_number [of "CJ cJSON_Number vs vi vd nm ch"] that plain_start_digit ps(5)
    by (cases "print_number (CJ cJSON_Number vs vi vd nm ch)") (auto simp: reads_number_def)
  have str: "\<exists>x s. print_string_ptr vs = x # s \<and> plain_start x"
    using ps(1) by (cases vs) (auto simp: print_string_ptr_def)
  have arr: "\<exists>x s. array_text fmt es = x # s \<and> plain_start x" for es
    using ps(6) by (simp add: array_text_def)
  have obj: "\<exists>x s. object_text depth fmt es = x # s \<and> plain_start x" for es
    using ps(7) by (simp add: object_text_def)
  from json_fine_type [OF assms [unfolded c]] consider "t = cJSON_False" | "t = cJSON_True" | "t = cJSON_NULL"
    | "t = cJSON_Number" | "t = cJSON_String" | "t = cJSON_Array" | "t = cJSON_Object"
    by (auto simp: json_types)
  then show ?thesis
  proof cases
    case 1 then show ?thesis using fine_cases(2) assms ps(3) unfolding c by auto
  next
    case 2 then show ?thesis using fine_cases(3) assms ps(4) unfolding c by auto
  next
    case 3 then show ?thesis using fine_cases(1) assms ps(2) unfolding c by auto
  next
    case 4 then show ?thesis using fine_cases(4) assms int unfolding c by (auto simp: json_types)
  next
    case 5 then show ?thesis using fine_cases(5) assms str unfolding c by auto
  next
    case 6 then show ?thesis using fine_array assms arr unfolding c by auto
  next
    case 7 then show ?thesis using fine_object assms obj unfolding c by auto
  qed
qed

section \<open>The round trip\<close>

lemma skip_tabs [simp]: "skip (tabs n @ s) = skip s"
  by (induction n) (simp_all add: tabs_def)

lemma skip_string [simp]: "skip (print_string_ptr nm @ s) = print_string_ptr nm @ s"
  by (cases nm) (auto simp: print_string_ptr_def)

lemma skip_fine: "json_fine c \<Longrightarrow> skip (render c depth fmt @ s) = render c depth fmt @ s"
  using fine_start [of c depth fmt] by (auto simp: plain_start_def)

lemma parse_elements_skip: "parse_elements k (skip s) = parse_elements k s"
proof -
  have "skip (skip s) = skip s" by (induction s) auto
  then show ?thesis by (cases k) (simp_all add: parse_elements.simps)
qed

lemma parse_members_skip: "parse_members k (skip s) = parse_members k s"
proof -
  have "skip (skip s) = skip s" by (induction s) auto
  then show ?thesis by (cases k) (simp_all add: parse_members.simps)
qed

definition parses_back :: "cJSON \<Rightarrow> bool" where
  "parses_back c \<longleftrightarrow> (\<forall>depth fmt t0 nm rest fuel. follow_ok rest \<longrightarrow>
     2 * length (render c depth fmt @ rest) + 1 \<le> fuel \<longrightarrow>
     parse_value fuel (CJ t0 None 0 (Fin 0) nm []) (render c depth fmt @ rest) =
       POk (cj_set_string nm (reread c)) rest)"

lemma parses_backD: "parses_back c \<Longrightarrow> follow_ok rest \<Longrightarrow>
    2 * length (render c depth fmt @ rest) + 1 \<le> fuel \<Longrightarrow>
    parse_value fuel (CJ t0 None 0 (Fin 0) nm []) (render c depth fmt @ rest) =
      POk (cj_set_string nm (reread c)) rest"
  by (simp add: parses_back_def)

lemma follow_ok_simps [simp]:
  "follow_ok (CHR '','' # s)" "follow_ok (CHR '']'' # s)" "follow_ok (CHR ''}'' # s)"
  "follow_ok (CHR 0x0A # s)" "follow_ok []"
  by (simp_all add: follow_ok_def is_digit_def)

lemma parse_number_keeps: "\<exists>i v r. parse_number (CJ t vs vi vd nm ch) x = POk (CJ cJSON_Number vs i v nm ch) r"
  by (simp add: parse_number_def Let_def split: prod.split)

lemma reread_string: "cj_string (reread c) = cj_string c"
proof (cases c)
  case (CJ t vs vi vd nm ch)
  then show ?thesis
    using parse_number_keeps [of t vs vi vd nm ch "print_number (CJ t vs vi vd nm ch)"] by auto
qed

lemma set_string_id: "cj_string c = nm \<Longrightarrow> cj_set_string nm (reread c) = reread c"
  using reread_string [of c] by (cases "reread c") auto

lemma parse_elements_back:
  assumes "ch \<noteq> []" "\<forall>c \<in> set ch. json_fine c \<and> parses_back c \<and> cj_string c = None"
    and "2 * length (compose_array fmt (map (\<lambda>c. render c d fmt) ch) @ CHR '']'' # rest) + 2 \<le> fuel"
  shows "parse_elements fuel (compose_array fmt (map (\<lambda>c. render c d fmt) ch) @ CHR '']'' # rest) =
    POk (map reread ch) (CHR '']'' # rest)"
  using assms
proof (induction ch arbitrary: fuel)
  case (Cons c ch)
  obtain k where k: "fuel = Suc k" using Cons.prems(3) by (cases fuel) auto
  have c: "json_fine c" "parses_back c" "cj_string c = None" using Cons.prems by auto
  show ?case
  proof (cases ch)
    case Nil
    have "parse_value k (CJ 0 None 0 (Fin 0) None []) (render c d fmt @ CHR '']'' # rest) =
        POk (cj_set_string None (reread c)) (CHR '']'' # rest)"
      using Cons.prems(3) Nil k by (intro parses_backD c) auto
    then show ?thesis
      using Nil c by (simp add: k parse_elements.simps skip_fine cJSON_New_Item_def set_string_id)
  next
    case (Cons c2 ch2)
    define more where "more = compose_array fmt (map (\<lambda>c. render c d fmt) ch) @ CHR '']'' # rest"
    let ?tl = "CHR '','' # (if fmt then '' '' else []) @ more"
    have tx: "compose_array fmt (map (\<lambda>c. render c d fmt) (c # ch)) @ CHR '']'' # rest = render c d fmt @ ?tl"
      using Cons by (simp add: more_def)
    have len: "2 * length (render c d fmt @ ?tl) + 2 \<le> Suc k"
      using Cons.prems(3) unfolding tx k .
    have v: "parse_value k (CJ 0 None 0 (Fin 0) None []) (render c d fmt @ ?tl) =
        POk (cj_set_string None (reread c)) ?tl"
      using len by (intro parses_backD c) auto
    have "parse_elements k more = POk (map reread ch) (CHR '']'' # rest)"
      unfolding more_def
      using Cons.prems len Cons by (intro Cons.IH) (auto simp: more_def)
    moreover have "parse_elements k ((if fmt then '' '' else []) @ more) = parse_elements k more"
      using parse_elements_skip [of k "'' '' @ more"] parse_elements_skip [of k more] by auto
    ultimately show ?thesis
      unfolding tx k
      using v c by (simp add: parse_elements.simps skip_fine cJSON_New_Item_def set_string_id)
  qed
qed simp

definition name_texts :: "cJSON list \<Rightarrow> nat \<Rightarrow> bool \<Rightarrow> (string \<times> string) list" where
  "name_texts ch d fmt = map (\<lambda>c. (print_string_ptr (cj_string c), render c d fmt)) ch"

lemma parse_members_back:
  assumes "ch \<noteq> []"
    "\<forall>c \<in> set ch. json_fine c \<and> parses_back c \<and> (\<exists>s. cj_string c = Some s \<and> nul_free s)"
    and "2 * length (compose_object d fmt (name_texts ch d fmt) @ (if fmt then tabs e else []) @ CHR ''}'' # rest) + 2 \<le> fuel"
  shows "parse_members fuel (compose_object d fmt (name_texts ch d fmt) @ (if fmt then tabs e else []) @ CHR ''}'' # rest) =
    POk (map reread ch) (CHR ''}'' # rest)"
  using assms
proof (induction ch arbitrary: fuel)
  case (Cons c ch)
  obtain k where k: "fuel = Suc k" using Cons.prems(3) by (cases fuel) auto
  obtain s where c: "json_fine c" "parses_back c" "cj_string c = Some s" "nul_free s" using Cons.prems by auto
  define more where "more = (if fmt then [CHR 0x0A] else []) @
     compose_object d fmt (name_texts ch d fmt) @ (if fmt then tabs e else []) @ CHR ''}'' # rest"
  define tl where "tl = (if ch \<noteq> [] then '','' else []) @ more"
  define val where "val = (if fmt then [CHR 0x09] else []) @ render c d fmt @ tl"
  have tx: "compose_object d fmt (name_texts (c # ch) d fmt) @ (if fmt then tabs e else []) @ CHR ''}'' # rest =
      (if fmt then tabs d else []) @ print_string_ptr (Some s) @ CHR '':'' # val"
    by (simp add: name_texts_def more_def tl_def val_def c(3))
  have len: "2 * length ((if fmt then tabs d else []) @ print_string_ptr (Some s) @ CHR '':'' # val) + 2 \<le> Suc k"
    using Cons.prems(3) unfolding tx k .
  have "length (render c d fmt @ tl) \<le> length val" by (simp add: val_def)
  then have len2: "2 * length (render c d fmt @ tl) + 1 \<le> k" using len by simp
  have follow: "follow_ok tl"
    by (auto simp: tl_def more_def name_texts_def)
  have nm: "parse_string cJSON_New_Item (skip ((if fmt then tabs d else []) @ print_string_ptr (Some s) @ CHR '':'' # val)) =
      POk (CJ cJSON_String (Some s) 0 (Fin 0) None []) (CHR '':'' # val)"
    using parse_print_string [OF c(4), of cJSON_New_Item "CHR '':'' # val"]
    by (simp add: cJSON_New_Item_def)
  have sk: "skip val = render c d fmt @ tl"
    using skip_fine [OF c(1), of d fmt tl] by (cases fmt) (simp_all add: val_def)
  have v: "parse_value k (CJ cJSON_String None 0 (Fin 0) (Some s) []) (skip val) =
      POk (cj_set_string (Some s) (reread c)) tl"
    unfolding sk using follow len2 by (rule parses_backD [OF c(2)])
  show ?case
  proof (cases ch)
    case Nil
    then have "skip tl = CHR ''}'' # rest" by (simp add: tl_def more_def name_texts_def)
    then show ?thesis
      unfolding tx k using nm v c Nil by (simp add: parse_members.simps set_string_id)
  next
    case (Cons c2 ch2)
    have "2 * length more + 2 \<le> k" using len2 Cons by (simp add: tl_def)
    then have "parse_members k (compose_object d fmt (name_texts ch d fmt) @ (if fmt then tabs e else []) @ CHR ''}'' # rest) =
        POk (map reread ch) (CHR ''}'' # rest)"
      using Cons.prems Cons by (intro Cons.IH) (auto simp: more_def)
    moreover have "parse_members k more =
        parse_members k (compose_object d fmt (name_texts ch d fmt) @ (if fmt then tabs e else []) @ CHR ''}'' # rest)"
      using parse_members_skip [of k more] parse_members_skip [of k "compose_object d fmt (name_texts ch d fmt) @ tabs e @ CHR ''}'' # rest"]
      by (cases fmt) (simp_all add: more_def)
    moreover have "skip tl = CHR '','' # more" using Cons by (simp add: tl_def)
    ultimately show ?thesis
      unfolding tx k using nm v c by (simp add: parse_members.simps set_string_id)
  qed
qed simp

lemma starts_with_Cons: "starts_with (c # p) (d # s) \<longleftrightarrow> c = d \<and> starts_with p s"
  by (auto simp: starts_with_def)

lemma starts_with_Nil [simp]: "starts_with [] s"
  by (simp add: starts_with_def)

lemma parse_value_quote: "parse_value (Suc k) item (CHR 0x22 # s) = parse_string item (CHR 0x22 # s)"
  by (simp add: parse_value.simps starts_with_Cons)

lemma parse_value_digit:
  assumes "is_digit c \<or> c = CHR ''-''"
  shows "parse_value (Suc k) item (c # s) = parse_number item (c # s)"
proof -
  have "\<not> is_digit CHR ''n''" "\<not> is_digit CHR ''f''" "\<not> is_digit CHR ''t''" "\<not> is_digit CHR 0x22"
    by (simp_all add: is_digit_def)
  then have "c \<noteq> CHR ''n''" "c \<noteq> CHR ''f''" "c \<noteq> CHR ''t''" "c \<noteq> CHR 0x22"
    using assms by auto
  with assms show ?thesis
    by (simp add: parse_value.simps starts_with_Cons disj_commute)
qed

lemma json_parses_back: "json_fine c \<Longrightarrow> parses_back c"
proof (induction c)
  case (CJ t vs vi vd nm0 ch)
  let ?c = "CJ t vs vi vd nm0 ch"
  show ?case
    unfolding parses_back_def
  proof (intro allI impI)
    fix depth fmt t0 nm rest fuel
    assume fo: "follow_ok rest" and fuel: "2 * length (render ?c depth fmt @ rest) + 1 \<le> fuel"
    obtain k where k: "fuel = Suc k" using fuel by (cases fuel) auto
    let ?goal = "parse_value fuel (CJ t0 None 0 (Fin 0) nm []) (render ?c depth fmt @ rest) =
      POk (cj_set_string nm (reread ?c)) rest"
    from json_fine_type [OF CJ.prems] consider "t = cJSON_False" | "t = cJSON_True" | "t = cJSON_NULL"
      | "t = cJSON_Number" | "t = cJSON_String" | "t = cJSON_Array" | "t = cJSON_Object"
      by (auto simp: json_types)
    then show ?goal
    proof cases
      case 1
      then show ?thesis using CJ.prems fine_cases(2) [of vs vi vd nm0 ch]
        by (auto simp: k parse_value.simps starts_with_Cons json_types)
    next
      case 2
      then show ?thesis using CJ.prems fine_cases(3) [of vs vi vd nm0 ch]
        by (auto simp: k parse_value.simps starts_with_Cons json_types)
    next
      case 3
      then show ?thesis using CJ.prems fine_cases(1) [of vs vi vd nm0 ch]
        by (auto simp: k parse_value.simps starts_with_Cons json_types)
    next
      case 4
      then have vals: "vs = None" "ch = []" "printable vd" using CJ.prems by (auto simp: json_types)
      let ?x = "print_number (CJ cJSON_Number None vi vd nm0 [])"
      obtain i v where r: "reads_number ?x i v"
        using reads_print_number [of "CJ cJSON_Number None vi vd nm0 []"] vals(3) by auto
      obtain y ys where y: "?x = y # ys" "is_digit y \<or> y = CHR ''-''"
        using r by (cases ?x) (auto simp: reads_number_def)
      have "parse_value fuel (CJ t0 None 0 (Fin 0) nm []) (?x @ rest) = parse_number (CJ t0 None 0 (Fin 0) nm []) (?x @ rest)"
        unfolding k y(1) append_Cons by (rule parse_value_digit [OF y(2)])
      also have "\<dots> = POk (CJ cJSON_Number None i v nm []) rest"
        using r fo by (simp add: reads_number_def)
      also have "CJ cJSON_Number None i v nm [] = cj_set_string nm (reread ?c)"
        using reread_number [OF r] 4 vals by simp
      finally show ?thesis using 4 vals CJ.prems fine_cases(4) [of vs vi vd nm0 ch] by simp
    next
      case 5
      then obtain s where s: "vs = Some s" "nul_free s" using CJ.prems by (auto simp: json_types)
      have "parse_value fuel (CJ t0 None 0 (Fin 0) nm []) (print_string_ptr (Some s) @ rest) =
          POk (CJ cJSON_String (Some s) 0 (Fin 0) nm []) rest"
        using parse_print_string [OF s(2), of "CJ t0 None 0 (Fin 0) nm []" rest]
        by (simp add: k print_string_escape parse_value_quote)
      then show ?thesis using CJ.prems 5 s fine_cases(5) [of vs vi vd nm0 ch] by (auto simp: json_types)
    next
      case 6
      have ch: "\<forall>c \<in> set ch. json_fine c \<and> parses_back c \<and> cj_string c = None"
        and vals: "vs = None" "vi = 0" "vd = Fin 0"
        using CJ 6 by (auto simp: json_types)
      have r: "render ?c depth fmt = array_text fmt (map (\<lambda>c. render c (Suc depth) fmt) ch)"
        using fine_array CJ.prems 6 by blast
      show ?thesis
      proof (cases ch)
        case Nil
        then have tx: "render ?c depth fmt @ rest = CHR ''['' # CHR '']'' # rest"
          unfolding r by (simp add: array_text_def)
        show ?thesis
          unfolding tx k using 6 vals Nil by (simp add: parse_value.simps starts_with_Cons is_digit_def json_types)
      next
        case (Cons c1 ch1)
        define body where "body = compose_array fmt (map (\<lambda>c. render c (Suc depth) fmt) ch) @ CHR '']'' # rest"
        have tx: "render ?c depth fmt @ rest = CHR ''['' # body"
          unfolding r using Cons by (simp add: array_text_def body_def)
        have "2 * length body + 2 \<le> k" using fuel k unfolding tx by simp
        then have "parse_elements k body = POk (map reread ch) (CHR '']'' # rest)"
          unfolding body_def using Cons ch by (intro parse_elements_back) auto
        moreover obtain x s where "body = x # s" "plain_start x"
          using fine_start [of c1 "Suc depth" fmt] ch Cons by (cases ch1) (auto simp: body_def)
        ultimately show ?thesis
          unfolding tx k using 6 vals
          by (simp add: parse_value.simps starts_with_Cons is_digit_def plain_start_def json_types)
      qed
    next
      case 7
      have ch: "\<forall>c \<in> set ch. json_fine c \<and> parses_back c \<and> (\<exists>s. cj_string c = Some s \<and> nul_free s)"
        and vals: "vs = None" "vi = 0" "vd = Fin 0"
        using CJ 7 by (auto simp: json_types)
      have r: "render ?c depth fmt = object_text depth fmt (name_texts ch (Suc depth) fmt)"
        using fine_object CJ.prems 7 by (simp add: name_texts_def)
      show ?thesis
      proof (cases ch)
        case Nil
        define ws where "ws = (if fmt then CHR 0x0A # tabs depth else [])"
        have tx: "render ?c depth fmt @ rest = CHR ''{'' # ws @ CHR ''}'' # rest"
          unfolding r using Nil by (simp add: object_text_def name_texts_def ws_def)
        have "skip (ws @ CHR ''}'' # rest) = CHR ''}'' # rest" by (simp add: ws_def)
        then show ?thesis
          unfolding tx k using 7 vals Nil by (simp add: parse_value.simps starts_with_Cons is_digit_def json_types)
      next
        case (Cons c1 ch1)
        define body where "body = compose_object (Suc depth) fmt (name_texts ch (Suc depth) fmt) @
          (if fmt then tabs depth else []) @ CHR ''}'' # rest"
        define nl where "nl = (if fmt then [CHR 0x0A] else [])"
        have tx: "render ?c depth fmt @ rest = CHR ''{'' # nl @ body"
          unfolding r using Cons by (simp add: object_text_def body_def name_texts_def nl_def)
        have "2 * length body + 2 \<le> k" using fuel k unfolding tx by simp
        then have "parse_members k body = POk (map reread ch) (CHR ''}'' # rest)"
          unfolding body_def using Cons ch by (intro parse_members_back) auto
        then have "parse_members k (skip (nl @ body)) = POk (map reread ch) (CHR ''}'' # rest)"
          using parse_members_skip [of k body] by (simp add: nl_def)
        moreover have "chr_at (skip (nl @ body)) 0 = CHR 0x22"
          using Cons ch by (auto simp: nl_def body_def name_texts_def print_string_escape)
        ultimately show ?thesis
          unfolding tx k using 7 vals
          by (simp add: parse_value.simps starts_with_Cons is_digit_def json_types)
      qed
    qed
  qed
qed

section \<open>Items whose numbers are exact\<close>

fun json_ok :: "cJSON \<Rightarrow> bool" where
  "json_ok (CJ t vs vi vd nm ch) \<longleftrightarrow>
     (if t = cJSON_Number then vs = None \<and> \<bar>vi\<bar> \<le> 2 ^ 53 \<and> vd = Fin (of_int vi) \<and> ch = []
      else vi \<in> (if t = cJSON_True then {0, 1} else {0}) \<and> vd = Fin 0 \<and>
        (if t = cJSON_String then (\<exists>s. vs = Some s \<and> nul_free s) else vs = None) \<and>
        (if t = cJSON_Array then \<forall>c \<in> set ch. json_ok c \<and> cj_string c = None
         else if t = cJSON_Object then \<forall>c \<in> set ch. json_ok c \<and> (\<exists>s. cj_string c = Some s \<and> nul_free s)
         else t \<in> {cJSON_False, cJSON_True, cJSON_NULL, cJSON_String} \<and> ch = []))"

text \<open>The parser sets \<open>valueint\<close> of a true item to 1, the constructor leaves it 0.\<close>

fun true_ones :: "cJSON \<Rightarrow> cJSON" where
  "true_ones (CJ t vs vi vd nm ch) =
     CJ t vs (if t = cJSON_True then 1 else vi) vd nm (map true_ones ch)"

lemma printable_int: "\<bar>n\<bar> \<le> 2 ^ 53 \<Longrightarrow> printable (Fin (of_int n))"
proof (cases "n = 0")
  case False
  then have "1 \<le> \<bar>of_int n :: rat\<bar>" by (metis of_int_abs of_int_1_le_iff zero_less_abs_iff int_one_le_iff_zero_less)
  moreover have "pow2r (- 1022) \<le> 1" by (simp add: pow2r_def)
  ultimately show ?thesis by (simp add: printable_def)
qed (simp add: printable_def)

lemma json_ok_fine: "json_ok c \<Longrightarrow> json_fine c \<and> reread c = true_ones c"
proof (induction c)
  case (CJ t vs vi vd nm ch)
  show ?case
  proof (cases "t = cJSON_Number")
    case True
    with CJ.prems have v: "vs = None" "\<bar>vi\<bar> \<le> 2 ^ 53" "vd = Fin (of_int vi)" "ch = []" by (auto simp: json_types)
    have "parse_number (CJ t vs vi vd nm ch) (show_int vi @ []) = POk (CJ t vs vi vd nm ch) []"
      using parse_show_int [OF v(2), of "[]"] v True by simp
    then show ?thesis using v True printable_int [OF v(2)] print_number_int [OF v(2)] by (simp add: json_types)
  next
    case False
    then show ?thesis using CJ by (auto simp: json_types split: if_splits)
  qed
qed

lemmas json_ok_fineD = json_ok_fine [THEN conjunct1] json_ok_fine [THEN conjunct2]

lemma json_ok_type: "json_ok (CJ t vs vi vd nm ch) \<Longrightarrow>
    t = 0 \<or> t = 1 \<or> t = 2 \<or> t = 3 \<or> t = 4 \<or> t = 5 \<or> t = 6"
  by (rule json_fine_type [OF json_ok_fineD(1)])

lemma print_value_total: "json_ok c \<Longrightarrow> print_value c depth fmt \<noteq> None"
  by (rule print_fine_total [OF json_ok_fineD(1)])

lemma render_cases:
  "json_ok (CJ cJSON_NULL vs vi vd nm ch) \<Longrightarrow> render (CJ cJSON_NULL vs vi vd nm ch) depth fmt = ''null''"
  "json_ok (CJ cJSON_False vs vi vd nm ch) \<Longrightarrow> render (CJ cJSON_False vs vi vd nm ch) depth fmt = ''false''"
  "json_ok (CJ cJSON_True vs vi vd nm ch) \<Longrightarrow> render (CJ cJSON_True vs vi vd nm ch) depth fmt = ''true''"
  "json_ok (CJ cJSON_Number vs vi vd nm ch) \<Longrightarrow> render (CJ cJSON_Number vs vi vd nm ch) depth fmt = show_int vi"
  "json_ok (CJ cJSON_String vs vi vd nm ch) \<Longrightarrow> render (CJ cJSON_String vs vi vd nm ch) depth fmt = print_string_ptr vs"
  by (rule fine_cases(1-3) [OF json_ok_fineD(1)], assumption)+
    (use print_number_int [of vi cJSON_Number vs nm ch] fine_cases(4,5) [OF json_ok_fineD(1)] in \<open>auto simp: json_types\<close>)

lemma render_array: "json_ok (CJ cJSON_Array vs vi vd nm ch) \<Longrightarrow>
    render (CJ cJSON_Array vs vi vd nm ch) depth fmt = array_text fmt (map (\<lambda>c. render c (Suc depth) fmt) ch)"
  by (rule fine_array [OF json_ok_fineD(1)])

lemma render_object: "json_ok (CJ cJSON_Object vs vi vd nm ch) \<Longrightarrow>
    render (CJ cJSON_Object vs vi vd nm ch) depth fmt =
      object_text depth fmt (map (\<lambda>c. (print_string_ptr (cj_string c), render c (Suc depth) fmt)) ch)"
  by (rule fine_object [OF json_ok_fineD(1)])

section \<open>The parser returns\<close>

lemma scan_digits_le: "length (snd (snd (scan_digits n s))) \<le> length s"
  using scan_digits_length [of n s] by (cases "scan_digits n s") auto

lemma scan_digits_less:
  "is_digit (chr_at s 0) \<Longrightarrow> length (snd (snd (scan_digits n s))) < length s"
  using scan_digits_length [of n s] by (cases "scan_digits n s"; cases s) auto

lemma scan_int_le: "length (snd (scan_int n s)) \<le> length s"
  using scan_int_length [of n s] by (cases "scan_int n s") auto

lemma parse_number_less:
  assumes "is_digit (chr_at num 0) \<or> chr_at num 0 = CHR ''-''" "parse_number item num = POk c r"
  shows "length r < length num"
proof -
  obtain sg s1 where 1: "num_sign num = (sg, s1)" by force
  obtain n1 s2 where 2: "num_mantissa s1 = (n1, s2)" by force
  obtain n2 sc s3 where 3: "num_fraction n1 s2 = (n2, sc, s3)" by (metis prod_cases3)
  obtain k s4 where 4: "num_exponent s3 = (k, s4)" by force
  have r: "r = s4" using assms(2) 1 2 3 4 by (simp add: parse_number_def Let_def)
  have l4: "length s4 \<le> length s3"
    using 4 scan_int_le [of 0 "drop 1 (drop 1 s3)"] scan_int_le [of 0 "drop 1 s3"]
    by (auto simp: num_exponent_def Let_def case_prod_beta split: if_splits)
  have l3: "length s3 \<le> length s2"
    using 3 scan_digits_le [of n1 "drop 1 s2"]
    by (auto simp: num_fraction_def case_prod_beta split: if_splits)
  have ne: "num \<noteq> []" using assms(1) by (cases num) auto
  have less_if: "is_digit (chr_at s1 0) \<Longrightarrow> length s2 < length s1"
    using 2 scan_digits_less [of s1 "Fin 0"] scan_digits_le [of "Fin 0" "drop 1 s1"]
    by (cases s1) (auto simp: num_mantissa_def Let_def case_prod_beta split: if_splits)
  have le: "length s2 \<le> length s1"
    using 2 scan_digits_le [of "Fin 0" s1] scan_digits_le [of "Fin 0" "drop 1 s1"]
    by (auto simp: num_mantissa_def Let_def case_prod_beta split: if_splits)
  have "length s2 < length num"
    using 1 assms(1) ne less_if le by (cases num) (auto simp: num_sign_def split: if_splits)
  with l3 l4 r show ?thesis by simp
qed

lemma parse_string_less: "parse_string item s = POk c r \<Longrightarrow> length r < length s"
proof -
  assume ok: "parse_string item s = POk c r"
  then obtain n l out p where s: "s \<noteq> []" "scan_string (drop 1 s) = Some (n, l)"
      "decode_string (int n) (drop 1 s) = Some (out, p)"
      "r = (if chr_at p 0 = CHR 0x22 then drop 1 p else p)"
    by (cases s) (auto simp: parse_string_def split: if_splits option.splits)
  have "length p < length s"
    using decode_scan [OF s(2,3)] s(1) by (cases s) auto
  with s(4) show ?thesis by auto
qed

lemma starts_with_drop: "starts_with p s \<Longrightarrow> p \<noteq> [] \<Longrightarrow> length (drop (length p) s) < length s"
  by (cases s) (auto simp: starts_with_def)

lemma drop_skip_less: "length p < length (skip (drop 1 s)) \<Longrightarrow> length (drop 1 p) < length s"
  using length_skip [of "drop 1 s"] by simp

lemma parse_consumes:
  "parse_value k item s = POk c r \<Longrightarrow> length r < length s"
  "parse_elements k s = POk cs r \<Longrightarrow> length r < length s"
  "parse_members k s = POk cs r \<Longrightarrow> length r < length s"
proof (induction k item s and k s and k s arbitrary: c r and cs r and cs r
    rule: parse_value_parse_elements_parse_members.induct)
  case (2 k item s)
  have empty: "chr_at (skip (drop 1 s)) 0 = x \<Longrightarrow> x \<noteq> CHR 0x00 \<Longrightarrow> length (drop 1 (skip (drop 1 s))) < length s" for x
    using chr_at_0 [of "skip (drop 1 s)" x] length_skip [of "drop 1 s"] by (cases s) auto
  have lits: "starts_with ''null'' s \<Longrightarrow> length (drop 4 s) < length s"
      "starts_with ''false'' s \<Longrightarrow> length (drop 5 s) < length s"
      "starts_with ''true'' s \<Longrightarrow> length (drop 4 s) < length s"
    using starts_with_drop [of "''null''" s] starts_with_drop [of "''false''" s]
      starts_with_drop [of "''true''" s] by simp_all
  have e: "length p < length (skip (drop 1 s))"
    if "\<not> starts_with ''null'' s" "\<not> starts_with ''false'' s" "\<not> starts_with ''true'' s"
      "chr_at s 0 = CHR ''[''" "chr_at (skip (drop 1 s)) 0 \<noteq> CHR '']''"
      "parse_elements k (skip (drop 1 s)) = POk cs p" for cs p
    using "2.IH"(1) [OF that(1-3) _ _ that(4) refl refl that(5,6)] that(4) by (simp add: is_digit_def)
  have m: "length p < length (skip (drop 1 s))"
    if "\<not> starts_with ''null'' s" "\<not> starts_with ''false'' s" "\<not> starts_with ''true'' s"
      "chr_at s 0 = CHR ''{''" "chr_at (skip (drop 1 s)) 0 \<noteq> CHR ''}''"
      "parse_members k (skip (drop 1 s)) = POk cs p" for cs p
    using "2.IH"(2) [OF that(1-3) _ _ _ that(4) refl refl that(5,6)] that(4) by (simp add: is_digit_def)
  show ?case
    using "2.prems" empty [of "CHR '']''"] empty [of "CHR ''}''"] lits parse_string_less [of item s c r]
      parse_number_less [of s item c r] drop_skip_less [of _ s] e m
    by (auto simp: parse_value.simps Let_def split: if_splits presult.splits)
next
  case (4 k s)
  from "4.prems" obtain c r1 where v: "parse_value k cJSON_New_Item (skip s) = POk c r1"
    by (simp add: parse_elements.simps split: presult.splits)
  have l: "length (skip r1) < length s"
    using "4.IH"(1) [OF v] length_skip [of r1] length_skip [of s] by simp
  show ?case
  proof (cases "chr_at (skip r1) 0 = CHR '',''")
    case True
    with "4.prems" v obtain cs2 where "parse_elements k (drop 1 (skip r1)) = POk cs2 r"
      by (auto simp: parse_elements.simps Let_def split: presult.splits)
    from "4.IH"(2) [OF v refl True this] l show ?thesis by simp
  next
    case False
    with "4.prems" v l show ?thesis by (simp add: parse_elements.simps Let_def)
  qed
next
  case (6 k s)
  from "6.prems" obtain c0 r0 where nm: "parse_string cJSON_New_Item (skip s) = POk c0 r0"
    by (simp add: parse_members.simps split: presult.splits)
  with "6.prems" have colon: "chr_at (skip r0) 0 = CHR '':''"
    by (simp add: parse_members.simps Let_def split: if_splits)
  from "6.prems" nm colon obtain c1 r1 where
    v: "parse_value k (name_child c0) (skip (drop 1 (skip r0))) = POk c1 r1"
    by (simp add: parse_members.simps Let_def split: presult.splits)
  have l: "length (skip r1) < length s"
    using "6.IH"(1) [OF nm refl _ v] colon parse_string_less [OF nm] length_skip [of r1] length_skip [of s]
      length_skip [of "drop 1 (skip r0)"] length_skip [of r0] by simp
  show ?case
  proof (cases "chr_at (skip r1) 0 = CHR '',''")
    case True
    with "6.prems" nm colon v obtain cs2 where "parse_members k (drop 1 (skip r1)) = POk cs2 r"
      by (auto simp: parse_members.simps Let_def split: presult.splits)
    from "6.IH"(2) [OF nm refl _ v refl True this] colon l show ?thesis by simp
  next
    case False
    with "6.prems" nm colon v l show ?thesis by (simp add: parse_members.simps Let_def)
  qed
qed (simp_all add: parse_value.simps parse_elements.simps parse_members.simps)

lemma parse_string_no_fuel: "parse_string item s \<noteq> PFuel"
  by (simp add: parse_string_def split: option.split prod.split)

lemma parse_number_no_fuel: "parse_number item s \<noteq> PFuel"
  by (simp add: parse_number_def Let_def split: prod.split)

lemma chr_at_length: "chr_at s 0 \<noteq> CHR 0x00 \<Longrightarrow> length (skip (drop 1 s)) < length s"
  using length_skip [of "drop 1 s"] by (cases s) auto

lemma fuel_enough:
  "2 * length s < k \<Longrightarrow> parse_value k item s \<noteq> PFuel"
  "2 * length s + 1 < k \<Longrightarrow> parse_elements k s \<noteq> PFuel"
  "2 * length s + 1 < k \<Longrightarrow> parse_members k s \<noteq> PFuel"
proof (induction k item s and k s and k s rule: parse_value_parse_elements_parse_members.induct)
  case (2 k item s)
  have len: "2 * length (skip (drop 1 s)) + 1 < k" if "chr_at s 0 = c" "c \<noteq> CHR 0x00" for c
    using chr_at_length [of s] that "2.prems" by simp
  have e: "parse_elements k (skip (drop 1 s)) \<noteq> PFuel"
    if "\<not> starts_with ''null'' s" "\<not> starts_with ''false'' s" "\<not> starts_with ''true'' s"
      "chr_at s 0 = CHR ''[''" "chr_at (skip (drop 1 s)) 0 \<noteq> CHR '']''"
    using "2.IH"(1) [OF that(1-3) _ _ that(4) refl refl that(5)] that(4) len by (simp add: is_digit_def)
  have m: "parse_members k (skip (drop 1 s)) \<noteq> PFuel"
    if "\<not> starts_with ''null'' s" "\<not> starts_with ''false'' s" "\<not> starts_with ''true'' s"
      "chr_at s 0 = CHR ''{''" "chr_at (skip (drop 1 s)) 0 \<noteq> CHR ''}''"
    using "2.IH"(2) [OF that(1-3) _ _ _ that(4) refl refl that(5)] that(4) len by (simp add: is_digit_def)
  show ?case
    using e m parse_string_no_fuel [of item s] parse_number_no_fuel [of item s]
    by (auto simp: parse_value.simps Let_def split: presult.split; blast)
next
  case (4 k s)
  have v: "parse_value k cJSON_New_Item (skip s) \<noteq> PFuel"
    using "4.IH"(1) "4.prems" length_skip [of s] by simp
  have "parse_elements k (drop 1 (skip r)) \<noteq> PFuel"
    if "parse_value k cJSON_New_Item (skip s) = POk c r" "chr_at (skip r) 0 = CHR '',''" for c r
    using "4.IH"(2) [OF that(1) refl that(2)] "4.prems" parse_consumes(1) [OF that(1)]
      length_skip [of s] length_skip [of r] by simp
  with v show ?case by (auto simp: parse_elements.simps Let_def split: presult.split)
next
  case (6 k s)
  have v: "parse_value k (name_child c0) (skip (drop 1 (skip r0))) \<noteq> PFuel"
    if "parse_string cJSON_New_Item (skip s) = POk c0 r0" "chr_at (skip r0) 0 = CHR '':''" for c0 r0
    using "6.IH"(1) [OF that(1) refl] that(2) "6.prems" parse_string_less [OF that(1)]
      length_skip [of s] length_skip [of r0] length_skip [of "drop 1 (skip r0)"] by simp
  have "parse_members k (drop 1 (skip r)) \<noteq> PFuel"
    if "parse_string cJSON_New_Item (skip s) = POk c0 r0" "chr_at (skip r0) 0 = CHR '':''"
      "parse_value k (name_child c0) (skip (drop 1 (skip r0))) = POk c r" "chr_at (skip r) 0 = CHR '',''"
    for c0 r0 c r
    using "6.IH"(2) [OF that(1) refl _ that(3) refl that(4)] that(2) "6.prems" parse_string_less [OF that(1)]
      parse_consumes(1) [OF that(3)]
      length_skip [of s] length_skip [of r0] length_skip [of r] length_skip [of "drop 1 (skip r0)"] by simp
  with v parse_string_no_fuel [of cJSON_New_Item "skip s"] show ?case
    by (auto simp: parse_members.simps Let_def split: presult.split)
qed simp_all


section \<open>What the package promises\<close>

lemma cJSON_Parse_fine:
  assumes "json_fine c" "cj_string c = None"
  shows "cJSON_Parse (render c 0 fmt) = Some (reread c)"
proof -
  have "parse_value (parse_fuel (render c 0 fmt)) (CJ 0 None 0 (Fin 0) None []) (render c 0 fmt @ []) =
      POk (cj_set_string None (reread c)) []"
    using json_parses_back [OF assms(1)] by (rule parses_backD) (simp_all add: parse_fuel_def)
  moreover have "skip (render c 0 fmt) = render c 0 fmt"
    using skip_fine [OF assms(1), of 0 fmt "[]"] by simp
  ultimately show ?thesis
    using set_string_id [OF assms(2)]
    by (simp add: cJSON_Parse_def cJSON_ParseWithOpts_def cJSON_New_Item_def)
qed

lemma cJSON_Parse_render: "json_ok c \<Longrightarrow> cj_string c = None \<Longrightarrow> cJSON_Parse (render c 0 fmt) = Some (true_ones c)"
  using cJSON_Parse_fine [of c fmt] json_ok_fine [of c] by simp

lemma cJSON_Print_fine:
  "json_fine c \<Longrightarrow> cJSON_Print c = Some (render c 0 True)"
  "json_fine c \<Longrightarrow> cJSON_PrintUnformatted c = Some (render c 0 False)"
  unfolding cJSON_Print_def cJSON_PrintUnformatted_def render_def
  using print_fine_total [of c 0] by simp_all

lemma cJSON_Print_render:
  "json_ok c \<Longrightarrow> cJSON_Print c = Some (render c 0 True)"
  "json_ok c \<Longrightarrow> cJSON_PrintUnformatted c = Some (render c 0 False)"
  unfolding cJSON_Print_def cJSON_PrintUnformatted_def render_def
  using print_value_total [of c 0] by simp_all

text \<open>
  C13: parsing what was printed gives the item back. For every item built of numbers that are zero or
  normal, strings without NUL, booleans, nulls, arrays and objects with named members,
  \<open>cJSON_Print\<close> and \<open>cJSON_PrintUnformatted\<close> succeed and \<open>cJSON_Parse\<close> of either text is the item again, each
  number being what its text reads as; when the numbers are integers up to \<open>2 ^ 53\<close> it is the same item,
  but for \<open>valueint\<close>, which is 1 in the parsed true items and 0 in the constructed ones.
\<close>

theorem json_round_trip:
  assumes "json_fine c" "cj_string c = None"
  shows "(\<exists>t1 t2. cJSON_Print c = Some t1 \<and> cJSON_Parse t1 = Some (reread c) \<and>
    cJSON_PrintUnformatted c = Some t2 \<and> cJSON_Parse t2 = Some (reread c)) \<and> (json_ok c \<longrightarrow> reread c = true_ones c)"
  using cJSON_Parse_fine [OF assms] cJSON_Print_fine [OF assms(1)] json_ok_fineD(2) by blast

text \<open>
  C33: the decoded string fits the block \<open>parse_string\<close> allocates from its first pass: whatever the
  escapes, at most the \<open>len\<close> bytes counted are written before the NUL, and the text left is the one
  behind the scanned part.
\<close>

theorem parse_string_fits:
  assumes "parse_string item str = POk c r"
  shows "\<exists>n len out. scan_string (drop 1 str) = Some (n, len) \<and> cj_valuestring c = Some out \<and>
    length out \<le> len \<and> (r = drop (n + 1) str \<or> r = drop (n + 2) str)"
proof -
  obtain n l out p where s: "str \<noteq> []" "scan_string (drop 1 str) = Some (n, l)"
      "decode_string (int n) (drop 1 str) = Some (out, p)"
      "r = (if chr_at p 0 = CHR 0x22 then drop 1 p else p)" "cj_valuestring c = Some out"
    using assms by (cases str; cases item) (auto simp: parse_string_def split: if_splits option.splits)
  with decode_scan [OF s(2,3)] show ?thesis by auto
qed

text \<open>
  C32: the parser returns on every text: its recursion is bounded by the length of the text.
\<close>

theorem parse_returns: "cJSON_ParseWithOpts s req \<noteq> PFuel"
proof -
  have "parse_value (parse_fuel s) cJSON_New_Item (skip s) \<noteq> PFuel"
    using length_skip [of s] by (intro fuel_enough) (simp add: parse_fuel_def)
  then show ?thesis
    by (simp add: cJSON_ParseWithOpts_def Let_def split: presult.split)
qed

text \<open>
  C34: two defects of the string scanner. A literal whose last character is a backslash makes the
  scanner step over the terminating NUL and read past the end of the text; and a literal without
  its closing quote is accepted.
\<close>

theorem string_scanner_defects:
  assumes "\<forall>x \<in> set s. x \<noteq> CHR 0x22 \<and> x \<noteq> CHR 0x5C"
  shows "cJSON_ParseWithOpts (CHR 0x22 # s @ [CHR 0x5C]) req = POob \<and>
    cJSON_Parse (CHR 0x22 # s) = Some (cJSON_CreateString s)"
proof -
  have 1: "scan_string (s @ [CHR 0x5C]) = None"
    using assms by (induction s) auto
  have 2: "scan_string s = Some (length s, length s)" "decode_string (int (length s)) s = Some (s, [])"
    using assms by (induction s) (auto simp: decode_string.simps [of 0] decode_plain)
  show ?thesis
    using 1 2
    by (simp add: cJSON_ParseWithOpts_def cJSON_Parse_def parse_fuel_def parse_value_quote
        parse_string_def cJSON_New_Item_def cJSON_CreateString_def)
qed

section \<open>Instances\<close>

definition ex_json :: cJSON where
  "ex_json = cJSON_AddIntToObject (cJSON_AddTrueToObject (cJSON_AddStringToObject cJSON_CreateObject
     ''title'' [CHR ''a'', CHR 0x22, CHR 0x0A, CHR 0x01]) ''tcp'') ''len'' (- 131072)"

theorem json_round_trip_witness:
  "\<exists>t. cJSON_PrintUnformatted ex_json = Some t \<and> cJSON_Parse t = Some (true_ones ex_json)"
proof -
  have "json_ok ex_json" "cj_string ex_json = None"
    using d_of_int_exact [of "- 131072"] d_to_i64_int [of "- 131072"]
    by (simp_all add: ex_json_def cJSON_AddIntToObject_def cJSON_AddTrueToObject_def cJSON_CreateInt_def
        cJSON_AddStringToObject_def cJSON_CreateObject_def cJSON_New_Item_def cJSON_CreateNumber_def
        cJSON_CreateTrue_def cJSON_CreateString_def json_types nul_free_def)
  then show ?thesis using json_round_trip [of ex_json] json_ok_fineD(1) [of ex_json] by auto
qed

theorem parse_string_fits_witness:
  "\<exists>c r. parse_string cJSON_New_Item (print_string_ptr (Some [CHR 0x0A, CHR ''x'']) @ '':1'') = POk c r \<and>
     (\<exists>len out. cj_valuestring c = Some out \<and> length out \<le> len)"
proof -
  have "nul_free [CHR 0x0A, CHR ''x'']" by (simp add: nul_free_def)
  from parse_print_string [OF this, of cJSON_New_Item "'':1''"] obtain c where
    "parse_string cJSON_New_Item (print_string_ptr (Some [CHR 0x0A, CHR ''x'']) @ '':1'') = POk c '':1''" by blast
  with parse_string_fits [OF this] show ?thesis by blast
qed

theorem string_scanner_defects_witness:
  "cJSON_ParseWithOpts [CHR 0x22, CHR ''a'', CHR 0x5C] False = POob \<and>
   cJSON_Parse [CHR 0x22, CHR ''a''] = Some (cJSON_CreateString ''a'')"
  using string_scanner_defects [of "''a''" False] by simp

end
