(* ===== verification/Cjson_Text.thy ===== *)
theory Cjson_Text
  imports Cjson_Roundtrip
begin

text \<open>
  The texts \<open>cjson.c\<close> prints: they have no NUL in them, and a number fits the block of 64 bytes that
  \<open>print_number\<close> allocates for it.
\<close>

section \<open>Printed text has no NUL\<close>

lemma nul_free_simps [simp]: "nul_free []" "nul_free (c # s) \<longleftrightarrow> c \<noteq> CHR 0x00 \<and> nul_free s"
  "nul_free (s @ s') \<longleftrightarrow> nul_free s \<and> nul_free s'"
  by (auto simp: nul_free_def)

lemma nul_free_concat: "(\<And>x. x \<in> set xs \<Longrightarrow> nul_free x) \<Longrightarrow> nul_free (concat xs)"
  by (auto simp: nul_free_def)

lemma char_of_nonzero: "0 < n \<Longrightarrow> n < 256 \<Longrightarrow> char_of (n :: nat) \<noteq> CHR 0x00"
proof
  assume n: "0 < n" "n < 256" "char_of n = CHR 0x00"
  have "(of_char (char_of n :: char) :: nat) = n" using n(2) by simp
  then have "(of_char CHR 0x00 :: nat) = n" unfolding n(3) .
  with n(1) show False by simp
qed

lemma nul_free_show_nat: "nul_free (show_nat n)"
  by (induction n rule: show_nat.induct)
    (subst show_nat.simps, auto simp: digit_char.simps char_of_nonzero)

lemma nul_free_show_int: "nul_free (show_int n)"
  by (simp add: show_int_def nul_free_show_nat)

lemma nul_free_escape: "c \<noteq> CHR 0x00 \<Longrightarrow> nul_free (escape_char c)"
proof -
  assume c: "c \<noteq> CHR 0x00"
  have "hex_digit n \<noteq> CHR 0x00" if "n < 16" for n
    using that char_of_nonzero by (auto simp: hex_digit_def)
  moreover have "(of_char c :: nat) div 16 < 16" using nat_of_char_less_256 [of c] by linarith
  ultimately have "nul_free (show_u4 c)" by (simp add: show_u4_def Let_def)
  with c show ?thesis by (simp add: escape_char_def)
qed

lemma nul_free_print_string: "(case v of None \<Rightarrow> True | Some s \<Rightarrow> nul_free s) \<Longrightarrow> nul_free (print_string_ptr v)"
  by (auto simp: print_string_ptr_def split: option.split
      intro!: nul_free_concat nul_free_escape) (auto simp: nul_free_def)

lemma nul_free_compose_array: "(\<And>e. e \<in> set es \<Longrightarrow> nul_free e) \<Longrightarrow> nul_free (compose_array fmt es)"
  by (induction fmt es rule: compose_array.induct) auto

lemma nul_free_compose_object:
  "(\<And>n e. (n, e) \<in> set es \<Longrightarrow> nul_free n \<and> nul_free e) \<Longrightarrow> nul_free (compose_object d fmt es)"
  by (induction d fmt es rule: compose_object.induct) (auto simp: tabs_def nul_free_def)

lemma nul_free_digits: "\<forall>c \<in> set s. is_digit c \<Longrightarrow> nul_free s"
  by (auto simp: nul_free_def)

lemma nul_free_pad: "nul_free s \<Longrightarrow> nul_free (pad_left w CHR ''0'' s)"
  by (auto simp: pad_left_def nul_free_def)

lemma nul_free_fixed: "nul_free (fmt_fixed prec x)"
  by (simp add: fmt_fixed_def Let_def nul_free_show_nat nul_free_pad)

lemma nul_free_exp: "nul_free (fmt_exp x)"
  by (simp add: fmt_exp_def Let_def nul_free_show_nat nul_free_pad split: prod.split)

lemma nul_free_print_number: "printable (cj_valuedouble c) \<Longrightarrow> nul_free (print_number c)"
  by (cases "cj_valuedouble c")
    (auto simp: print_number_def printable_def Let_def nul_free_show_int nul_free_fixed nul_free_exp)

lemma nul_free_render_fine: "json_fine c \<Longrightarrow> nul_free (render c d fmt)"
proof (induction c arbitrary: d)
  case (CJ t vs vi vd nm ch)
  note ok = CJ.prems
  consider "t = cJSON_NULL" | "t = cJSON_False" | "t = cJSON_True" | "t = cJSON_Number" | "t = cJSON_String"
    | "t = cJSON_Array" | "t = cJSON_Object"
    using json_fine_type [OF ok] by (auto simp: json_types)
  then show ?case
  proof cases
    case 4
    then have "printable vd" using ok by (auto simp: json_types)
    with 4 ok nul_free_print_number [of "CJ t vs vi vd nm ch"] show ?thesis by (simp only: fine_cases) simp
  next
    case 5
    with ok have "case vs of None \<Rightarrow> True | Some s \<Rightarrow> nul_free s" by (auto simp: json_types)
    with 5 ok show ?thesis by (simp only: fine_cases nul_free_print_string)
  next
    case 6
    have "nul_free (compose_array fmt (map (\<lambda>c. render c (Suc d) fmt) ch))"
      using CJ 6 by (auto simp: json_types intro!: nul_free_compose_array)
    with 6 ok show ?thesis by (simp only: fine_array array_text_def nul_free_simps) simp
  next
    case 7
    have "nul_free (compose_object (Suc d) fmt (map (\<lambda>c. (print_string_ptr (cj_string c), render c (Suc d) fmt)) ch))"
      using CJ 7 by (auto simp: json_types intro!: nul_free_compose_object nul_free_print_string) (metis option.simps(5))
    with 7 ok show ?thesis by (simp only: fine_object object_text_def) (simp add: tabs_def, simp add: nul_free_def)
  qed (use ok in \<open>simp_all only: fine_cases\<close>, simp_all)
qed

lemma nul_free_render: "json_ok c \<Longrightarrow> nul_free (render c d fmt)"
  by (rule nul_free_render_fine [OF json_ok_fineD(1)])

section \<open>The length of a number\<close>

lemma dec_exp_up_bound: "x < 10 ^ Suc fuel \<Longrightarrow> x / 10 ^ dec_exp_up fuel x < 10"
proof (induction fuel x rule: dec_exp_up.induct)
  case (2 fuel x)
  show ?case
  proof (cases "x < 10")
    case False
    then have "x / 10 / 10 ^ dec_exp_up fuel (x / 10) < 10" by (intro "2.IH") (use "2.prems" in simp_all)
    with False show ?thesis by simp
  qed simp
qed simp

lemma dec_exp_down_bound: "x < 10 \<Longrightarrow> x * 10 ^ dec_exp_down fuel x < 10"
proof (induction fuel x rule: dec_exp_down.induct)
  case (2 fuel x)
  show ?case
  proof (cases "1 \<le> x")
    case False
    then have "x * 10 * 10 ^ dec_exp_down fuel (x * 10) < 10" by (intro "2.IH") simp_all
    with False show ?thesis by (simp add: mult.assoc)
  qed (use "2.prems" in simp)
qed simp

lemma dec_exp_limit: "\<bar>dec_exp x\<bar> \<le> 400"
proof -
  have "dec_exp_up n x \<le> n" "dec_exp_down n x \<le> n" for n
    by (induction n arbitrary: x) auto
  then show ?thesis by (simp add: dec_exp_def)
qed

lemma dec_exp_bound: "x < 10 ^ 401 \<Longrightarrow> x / pow10r (dec_exp x) < 10"
proof (cases "1 \<le> x")
  case True
  define n where "n = dec_exp_up 400 x"
  assume "x < 10 ^ 401"
  then have "x < 10 ^ Suc 400" by (simp only: Suc_numeral semiring_norm)
  from dec_exp_up_bound [OF this] have "x / 10 ^ n < 10" by (simp only: n_def)
  with True show ?thesis by (simp add: dec_exp_def pow10r_def flip: n_def)
next
  case False
  define n where "n = dec_exp_down 400 x"
  have "x * 10 ^ n < 10" unfolding n_def by (rule dec_exp_down_bound) (use False in simp)
  with False show ?thesis by (simp add: dec_exp_def pow10r_def flip: n_def)
qed

lemma pow10r_minus6: "pow10r k = pow10r (k - 6) * 10 ^ 6"
proof (cases "6 \<le> k")
  case True
  then have "nat k = nat (k - 6) + 6" by simp
  with True show ?thesis by (simp add: pow10r_def power_add)
next
  case False
  show ?thesis
  proof (cases "0 \<le> k")
    case True
    then have "6 = nat k + nat (6 - k)" using False by simp
    then have "(10 :: rat) ^ 6 = 10 ^ nat k * 10 ^ nat (6 - k)" by (metis power_add)
    with True False show ?thesis by (simp add: pow10r_def field_simps)
  next
    case neg: False
    then have "nat (6 - k) = nat (- k) + 6" by simp
    with False neg show ?thesis by (simp add: pow10r_def power_add)
  qed
qed

lemma pow10r_pos: "0 < pow10r k"
  by (simp add: pow10r_def)

lemma mantissa_bound:
  assumes "x < 10 ^ 401" "0 < x"
  shows "x / pow10r (dec_exp x - 6) < 10 ^ 7"
proof -
  have "x < 10 * pow10r (dec_exp x)" using dec_exp_bound [OF assms(1)] pow10r_pos by (simp add: divide_less_eq)
  then have "x < 10 ^ 7 * pow10r (dec_exp x - 6)" by (subst (asm) pow10r_minus6) simp
  then show ?thesis using pow10r_pos by (simp add: divide_less_eq)
qed

lemma round_half_even_le: "of_int (round_half_even x) \<le> x + 1 / 2"
  unfolding round_half_even_def Let_def
  by (auto simp: not_less intro: order_trans [OF of_int_floor_le])

lemma round_half_even_bound: "x \<le> of_int n \<Longrightarrow> round_half_even x \<le> n"
proof -
  assume "x \<le> of_int n"
  then have "of_int (round_half_even x) < (of_int (n + 1) :: rat)" using round_half_even_le [of x] by simp
  then show ?thesis by (simp only: of_int_less_iff)
qed

lemma bitlen_1e60: "bitlen (10 ^ 60) = 200"
proof -
  have "200 \<le> bitlen (10 ^ 60 :: int)" by (subst bitlen_ge_iff_power) simp_all
  moreover have "bitlen (10 ^ 60 :: int) \<le> 200" by (subst bitlen_le_iff_power) simp_all
  ultimately show ?thesis by simp
qed

lemma pow10_9: "pow10 9 = Fin (10 ^ 9)"
  using rnd_int [of "10 ^ 9"] by (simp add: pow10_def)

lemma pow10_60: "d_lt (Fin x) (pow10 60) \<Longrightarrow> x < 10 ^ 61"
proof -
  assume lt: "d_lt (Fin x) (pow10 60)"
  define z :: rat where "z = 10 ^ 60 / 2 ^ 147"
  have q: "max (binexp (10 ^ 60) - 52) (- 1074) = 147"
    using binexp_int [of "10 ^ 60"] bitlen_1e60 by simp
  have "pow10 60 = rnd (10 ^ 60)" by (simp add: pow10_def)
  also have "\<dots> = (let y = of_int (round_half_even z) * 2 ^ 147 in
      if pow2r 1024 \<le> y then PInf else if y \<le> - pow2r 1024 then NInf else Fin y)"
    using q by (simp add: rnd_def rnd_fmt_def z_def Let_def pow2r_def)
  finally have p: "pow10 60 = (let y = of_int (round_half_even z) * 2 ^ 147 in
      if pow2r 1024 \<le> y then PInf else if y \<le> - pow2r 1024 then NInf else Fin y)" .
  have "of_int (round_half_even z) * 2 ^ 147 \<le> (z + 1 / 2) * (2 ^ 147 :: rat)"
    using round_half_even_le by (intro mult_right_mono) simp_all
  also have "\<dots> < 10 ^ 61" by (simp add: z_def)
  finally have "of_int (round_half_even z) * 2 ^ 147 < (10 ^ 61 :: rat)" .
  moreover have "(10 :: rat) ^ 61 < pow2r 1024" by (simp add: pow2r_def)
  ultimately show ?thesis using lt p by (auto simp: Let_def split: if_splits)
qed

lemma length_pad: "length (pad_left w c s) = max w (length s)"
  by (simp add: pad_left_def)

lemma length_fixed:
  assumes "\<bar>x\<bar> * 10 ^ prec \<le> 10 ^ (k + prec)"
  shows "length (fmt_fixed prec x) \<le> k + 2 + (if prec = 0 then 0 else prec + 1)"
proof -
  define m where "m = nat (round_half_even (\<bar>x\<bar> * 10 ^ prec))"
  have "round_half_even (\<bar>x\<bar> * 10 ^ prec) \<le> 10 ^ (k + prec)"
    by (rule round_half_even_bound) (use assms in simp)
  then have "m \<le> 10 ^ (k + prec)" by (simp add: m_def nat_le_iff)
  then have "m div 10 ^ prec \<le> 10 ^ (k + prec) div 10 ^ prec" by (rule div_le_mono)
  then have "m div 10 ^ prec \<le> 10 ^ k" by (simp add: power_add)
  then have "m div 10 ^ prec < 10 ^ Suc k" by (simp add: le_less_trans)
  then have ip: "length (show_nat (m div 10 ^ prec)) \<le> Suc k" by (rule length_show_nat) simp
  have fp: "length (show_nat (m mod 10 ^ prec)) \<le> prec" if "prec \<noteq> 0"
    by (rule length_show_nat) (use that in simp_all)
  have "fmt_fixed prec x = (if x < 0 then ''-'' else []) @ show_nat (m div 10 ^ prec) @
      (if prec = 0 then [] else ''.'' @ pad_left prec CHR ''0'' (show_nat (m mod 10 ^ prec)))"
    by (simp only: fmt_fixed_def Let_def m_def)
  moreover have "length (if x < 0 then ''-'' else []) \<le> 1" by simp
  ultimately show ?thesis using ip fp by (cases "prec = 0") (simp_all only: length_append length_pad, simp_all add: length_pad)
qed

lemma length_exp:
  assumes "\<bar>x\<bar> < 10 ^ 401"
  shows "length (fmt_exp x) \<le> 20"
proof -
  define k where "k = (if x = 0 then 0 else dec_exp \<bar>x\<bar>)"
  define m0 where "m0 = nat (round_half_even (\<bar>x\<bar> / pow10r (k - 6)))"
  define m where "m = (if m0 = 10 ^ 7 then 10 ^ 6 else m0)"
  define k' where "k' = (if m0 = 10 ^ 7 then k + 1 else k)"
  have "\<bar>x\<bar> / pow10r (k - 6) \<le> of_int (10 ^ 7)"
    using mantissa_bound [OF assms] by (cases "x = 0") (simp_all add: k_def)
  then have "round_half_even (\<bar>x\<bar> / pow10r (k - 6)) \<le> 10 ^ 7" by (rule round_half_even_bound)
  then have "m0 \<le> 10 ^ 7" by (simp add: m0_def nat_le_iff)
  then have "m < 10 ^ 7" by (simp add: m_def)
  then have "m div 10 ^ 6 < 10 ^ 1" by (simp add: less_mult_imp_div_less)
  then have ip: "length (show_nat (m div 10 ^ 6)) \<le> 1" by (rule length_show_nat) simp
  have fp: "length (show_nat (m mod 10 ^ 6)) \<le> 6" by (rule length_show_nat) simp_all
  have "nat \<bar>k'\<bar> < 10 ^ 3" using dec_exp_limit [of "\<bar>x\<bar>"] by (auto simp: k'_def k_def)
  then have ex: "length (show_nat (nat \<bar>k'\<bar>)) \<le> 3" by (rule length_show_nat) simp
  have "fmt_exp x = (if x < 0 then ''-'' else []) @ show_nat (m div 10 ^ 6) @ ''.'' @
      pad_left 6 CHR ''0'' (show_nat (m mod 10 ^ 6)) @ ''e'' @ (if k' < 0 then ''-'' else ''+'') @
      pad_left 2 CHR ''0'' (show_nat (nat \<bar>k'\<bar>))"
    unfolding fmt_exp_def Let_def k_def [symmetric] m0_def [symmetric] by (simp add: m_def k'_def)
  moreover have "length (if x < 0 then ''-'' else []) \<le> 1" "length (if k' < 0 then ''-'' else ''+'') \<le> 1" by simp_all
  ultimately show ?thesis using ip fp ex by (simp only: length_append length_pad) simp
qed

lemma length_show_int: "\<bar>n\<bar> \<le> 2 ^ 63 \<Longrightarrow> length (show_int n) \<le> 20"
proof -
  assume "\<bar>n\<bar> \<le> 2 ^ 63"
  then have "nat n < 10 ^ 19" "nat (- n) < 10 ^ 19" by (auto simp: nat_less_iff)
  then have "length (show_nat (nat n)) \<le> 19" "length (show_nat (nat (- n))) \<le> 19" by (auto intro: length_show_nat)
  then show ?thesis by (simp add: show_int_def)
qed

text \<open>A finite double is below \<open>2 ^ 1024\<close>.\<close>

fun d_in_range :: "double \<Rightarrow> bool" where
  "d_in_range (Fin x) = (\<bar>x\<bar> < 2 ^ 1024)"
| "d_in_range _ = True"

lemma number_fits:
  assumes "\<bar>cj_valueint c\<bar> \<le> 2 ^ 63" "d_in_range (cj_valuedouble c)"
  shows "length (print_number c) < (if d_eq (cj_valuedouble c) (Fin 0) then 2 else 64)"
proof (cases "cj_valuedouble c")
  case (Fin x)
  have "(2 :: rat) ^ 1024 < 10 ^ 401" by simp
  moreover have "\<bar>x\<bar> < 2 ^ 1024" using assms(2) unfolding Fin d_in_range.simps .
  ultimately have "\<bar>x\<bar> < 10 ^ 401" by (rule less_trans [rotated])
  then have exp: "length (fmt_exp x) \<le> 20" by (rule length_exp)
  have f0: "length (fmt_fixed 0 x) \<le> 64 - 1" if "d_lt (Fin \<bar>x\<bar>) (pow10 60)"
    using length_fixed [of x 0 61] pow10_60 [OF that] by simp
  have f6: "length (fmt_fixed 6 x) \<le> 63" if "\<not> d_lt (pow10 9) (Fin \<bar>x\<bar>)"
    using that length_fixed [of x 6 9] by (simp add: pow10_9)
  show ?thesis
    using Fin f0 f6 exp length_show_int [OF assms(1)] by (auto simp: print_number_def Let_def)
qed (use length_show_int [OF assms(1)] in \<open>auto simp: print_number_def Let_def\<close>)

end
