(* ===== verification/Wire.thy ===== *)
theory Wire
  imports Iperf Cjson_Text
begin

text \<open>
  The JSON messages of the control connection (\<open>iperf_api.c\<close>): framing with a length of four bytes,
  the parameters the client sends and the results both sides exchange.
\<close>

section \<open>Framing\<close>

text \<open>\<open>htonl\<close>, \<open>ntohl\<close>: a 32-bit number as four bytes, the most significant first.\<close>

definition byte_of :: "int \<Rightarrow> char" where
  "byte_of n = char_of (nat (n mod 256))"

definition be32 :: "int \<Rightarrow> string" where
  "be32 n = [byte_of (n div 2 ^ 24), byte_of (n div 2 ^ 16), byte_of (n div 2 ^ 8), byte_of n]"

definition of_be :: "string \<Rightarrow> int" where
  "of_be bs = foldl (\<lambda>n c. n * 256 + of_char c) 0 bs"

definition JSON_write :: "int \<Rightarrow> cJSON \<Rightarrow> int iperf_m" where
  "JSON_write fd json =
     (case cJSON_PrintUnformatted json of
        None \<Rightarrow> ret (-1)
      | Some str \<Rightarrow> do {
          let hsize = u32 (int (length str));
          r \<leftarrow> Nwrite fd (be32 hsize);
          if r < 0 then ret (-1)
          else do {
            r2 \<leftarrow> Nwrite fd (take (nat hsize) str);
            ret (if r2 < 0 then -1 else 0) } })"

text \<open>
  When fewer than four bytes arrive the rest of \<open>nsize\<close> is what the stack held. The block has
  \<open>hsize + 1\<close> bytes, computed in 32 bits.
\<close>

definition JSON_read_alloc :: "int \<Rightarrow> int" where
  "JSON_read_alloc hsize = u32 (hsize + 1)"

definition JSON_read :: "int \<Rightarrow> cJSON option iperf_m" where
  "JSON_read fd = do {
     (rc, hb) \<leftarrow> Nread fd 4;
     if rc < 0 then ret None
     else do {
       g \<leftarrow> (if length hb < 4 then do { u \<leftarrow> syscall (SUninit 4); ret (sr_data u @ replicate 4 CHR 0x00) } else ret []);
       let hsize = of_be (take 4 (hb @ drop (length hb) g));
       ok \<leftarrow> sys_malloc (''JSON '' @ show_int (JSON_read_alloc hsize));
       if \<not> ok then ret None
       else do {
         (rc2, d) \<leftarrow> Nread fd (nat hsize);
         if rc2 < 0 then ret None
         else if u32 rc2 = hsize then ret (cJSON_Parse (c_str d))
         else do {
           sys_do (SStdout (''WARNING:  Size of data read does not correspond to offered length'' @ nl));
           ret None } } } }"

section \<open>Parameters\<close>

definition IPERF_VERSION :: string where "IPERF_VERSION = ''3.1.3''"

text \<open>
  An object is built from a list of members; a member that is absent, or whose condition does not
  hold, is \<open>None\<close>.
\<close>

definition num_item :: "int \<Rightarrow> cJSON option" where
  "num_item n = Some (cJSON_CreateInt n)"

definition double_item :: "double \<Rightarrow> cJSON option" where
  "double_item d = Some (cJSON_CreateNumber d)"

definition nonzero_item :: "int \<Rightarrow> cJSON option" where
  "nonzero_item n = (if n \<noteq> 0 then num_item n else None)"

definition affinity_item :: "int \<Rightarrow> cJSON option" where
  "affinity_item n = (if n \<noteq> -1 then num_item n else None)"

definition true_item :: "bool \<Rightarrow> cJSON option" where
  "true_item b = (if b then Some cJSON_CreateTrue else None)"

definition str_item :: "string option \<Rightarrow> cJSON option" where
  "str_item v = map_option cJSON_CreateString v"

definition add_items :: "cJSON \<Rightarrow> (string \<times> cJSON option) list \<Rightarrow> cJSON" where
  "add_items j es = foldl (\<lambda>j (nm, item). cJSON_AddItemToObject j nm item) j es"

definition params_items :: "iperf_test \<Rightarrow> (string \<times> cJSON option) list" where
  "params_items t =
     (let st = t_settings t in
      [(''tcp'', true_item (protocol_id_is t Ptcp)),
       (''udp'', true_item (\<not> protocol_id_is t Ptcp \<and> protocol_id_is t Pudp)),
       (''sctp'', true_item (\<not> protocol_id_is t Ptcp \<and> \<not> protocol_id_is t Pudp \<and> protocol_id_is t 12)),
       (''omit'', num_item (t_omit t)),
       (''server_affinity'', affinity_item (t_server_affinity t)),
       (''time'', nonzero_item (t_duration t)),
       (''num'', nonzero_item (st_bytes st)),
       (''blockcount'', nonzero_item (st_blocks st)),
       (''MSS'', nonzero_item (st_mss st)),
       (''nodelay'', true_item (t_no_delay t \<noteq> 0)),
       (''parallel'', num_item (t_num_streams t)),
       (''reverse'', true_item (t_reverse t \<noteq> 0)),
       (''window'', nonzero_item (st_socket_bufsize st)),
       (''len'', nonzero_item (st_blksize st)),
       (''bandwidth'', nonzero_item (st_rate st)),
       (''burst'', nonzero_item (st_burst st)),
       (''TOS'', nonzero_item (st_tos st)),
       (''flowlabel'', nonzero_item (st_flowlabel st)),
       (''title'', str_item (t_title t)),
       (''congestion'', str_item (t_congestion t)),
       (''get_server_output'', nonzero_item (iperf_get_test_get_server_output t)),
       (''udp_counters_64bit'', nonzero_item (iperf_get_test_udp_counters_64bit t)),
       (''no_fq_socket_pacing'', nonzero_item (iperf_get_no_fq_socket_pacing t)),
       (''client_version'', str_item (Some IPERF_VERSION))])"

definition params_json :: "iperf_test \<Rightarrow> cJSON" where
  "params_json t = add_items cJSON_CreateObject (params_items t)"

definition debug_json :: "string \<Rightarrow> cJSON \<Rightarrow> unit iperf_m" where
  "debug_json what j = do {
     d \<leftarrow> get_t t_debug;
     when_m (d \<noteq> 0) (sys_do (SStdout (what @ nl @ (case cJSON_Print j of None \<Rightarrow> ''(null)'' | Some x \<Rightarrow> x) @ nl))) }"

definition send_parameters :: "int iperf_m" where
  "send_parameters = do {
     t \<leftarrow> get_t id;
     let j = params_json t;
     debug_json ''send_parameters:'' j;
     r \<leftarrow> JSON_write (t_ctrl_sck t) j;
     if r < 0 then do { set_i_errno IESENDPARAMS; ret (-1) } else ret 0 }"

definition on_item :: "cJSON \<Rightarrow> string \<Rightarrow> (cJSON \<Rightarrow> unit iperf_m) \<Rightarrow> unit iperf_m" where
  "on_item j nm f = (case cJSON_GetObjectItem (Some j) nm of None \<Rightarrow> skip_m | Some p \<Rightarrow> f p)"

definition item_t :: "cJSON \<Rightarrow> string \<Rightarrow> (int \<Rightarrow> iperf_test \<Rightarrow> iperf_test) \<Rightarrow> unit iperf_m" where
  "item_t j nm f = on_item j nm (\<lambda>p. mod_t (f (cj_valueint p)))"

text \<open>\<open>strdup\<close> of the string of an item; a null pointer crashes the process.\<close>

definition item_str :: "cJSON \<Rightarrow> string \<Rightarrow> (string \<Rightarrow> iperf_test \<Rightarrow> iperf_test) \<Rightarrow> unit iperf_m" where
  "item_str j nm f = on_item j nm (\<lambda>p.
     case cj_valuestring p of None \<Rightarrow> sys_do (SCrash ''strdup'') | Some x \<Rightarrow> mod_t (f x))"

definition apply_parameters :: "cJSON \<Rightarrow> unit iperf_m" where
  "apply_parameters j = do {
     on_item j ''tcp'' (\<lambda>_. do { _ \<leftarrow> set_protocol Ptcp; skip_m });
     on_item j ''udp'' (\<lambda>_. do { _ \<leftarrow> set_protocol Pudp; skip_m });
     on_item j ''sctp'' (\<lambda>_. do { _ \<leftarrow> set_protocol 12; skip_m });
     item_t j ''omit'' (\<lambda>n t. t\<lparr>t_omit := i32 n\<rparr>);
     item_t j ''server_affinity'' (\<lambda>n t. t\<lparr>t_server_affinity := i32 n\<rparr>);
     item_t j ''time'' (\<lambda>n t. t\<lparr>t_duration := i32 n\<rparr>);
     item_t j ''num'' (\<lambda>n. set_st (\<lambda>s. s\<lparr>st_bytes := u64 n\<rparr>));
     item_t j ''blockcount'' (\<lambda>n. set_st (\<lambda>s. s\<lparr>st_blocks := u64 n\<rparr>));
     item_t j ''MSS'' (\<lambda>n. set_st (\<lambda>s. s\<lparr>st_mss := i32 n\<rparr>));
     item_t j ''nodelay'' (\<lambda>n t. t\<lparr>t_no_delay := 1\<rparr>);
     item_t j ''parallel'' (\<lambda>n t. t\<lparr>t_num_streams := i32 n\<rparr>);
     item_t j ''reverse'' (\<lambda>n. iperf_set_test_reverse 1);
     item_t j ''window'' (\<lambda>n. set_st (\<lambda>s. s\<lparr>st_socket_bufsize := i32 n\<rparr>));
     item_t j ''len'' (\<lambda>n. set_st (\<lambda>s. s\<lparr>st_blksize := i32 n\<rparr>));
     item_t j ''bandwidth'' (\<lambda>n. set_st (\<lambda>s. s\<lparr>st_rate := u64 n\<rparr>));
     item_t j ''burst'' (\<lambda>n. set_st (\<lambda>s. s\<lparr>st_burst := i32 n\<rparr>));
     item_t j ''TOS'' (\<lambda>n. set_st (\<lambda>s. s\<lparr>st_tos := i32 n\<rparr>));
     item_t j ''flowlabel'' (\<lambda>n. set_st (\<lambda>s. s\<lparr>st_flowlabel := i32 n\<rparr>));
     item_str j ''title'' (\<lambda>x t. t\<lparr>t_title := Some x\<rparr>);
     item_str j ''congestion'' (\<lambda>x t. t\<lparr>t_congestion := Some x\<rparr>);
     item_t j ''get_server_output'' (\<lambda>n. iperf_set_test_get_server_output 1);
     item_t j ''udp_counters_64bit'' (\<lambda>n. iperf_set_test_udp_counters_64bit 1);
     item_t j ''no_fq_socket_pacing'' (\<lambda>n. iperf_set_no_fq_socket_pacing 1);
     mod_t (\<lambda>t. if t_sender t \<noteq> 0 \<and> protocol_id_is t Ptcp \<and> has_tcpinfo_retransmits \<noteq> 0
       then t\<lparr>t_sender_has_retransmits := 1\<rparr> else t) }"

definition get_parameters :: "int iperf_m" where
  "get_parameters = do {
     fd \<leftarrow> get_t t_ctrl_sck;
     r \<leftarrow> JSON_read fd;
     case r of
       None \<Rightarrow> do { set_i_errno IERECVPARAMS; ret (-1) }
     | Some j \<Rightarrow> do {
         debug_json ''get_parameters:'' j;
         apply_parameters j;
         ret 0 } }"

section \<open>Results\<close>

definition stream_json :: "iperf_test \<Rightarrow> iperf_stream \<Rightarrow> cJSON" where
  "stream_json t sp =
     (let rp = sp_result sp;
          bytes_transferred = (if t_sender t \<noteq> 0 then u64 (rp_bytes_sent rp - rp_bytes_sent_omit rp) else rp_bytes_received rp);
          retransmits = (if t_sender t \<noteq> 0 \<and> t_sender_has_retransmits t \<noteq> 0 then rp_stream_retrans rp else -1)
      in add_items cJSON_CreateObject
        [(''id'', num_item (sp_id sp)),
         (''bytes'', num_item bytes_transferred),
         (''retransmits'', num_item retransmits),
         (''jitter'', double_item (sp_jitter sp)),
         (''errors'', num_item (sp_cnt_error sp)),
         (''packets'', num_item (sp_packet_count sp))])"

text \<open>
  The server's own output goes with its results when the client asked for it; in JSON mode the
  document so far is included by reference.
\<close>

definition server_output_items :: "iperf_test \<Rightarrow> (string \<times> cJSON option) list" where
  "server_output_items t =
     (if t_role t = CHR ''s'' \<and> t_get_server_output t \<noteq> 0 then
        (if t_json_output t \<noteq> 0 then [(''server_output_json'', map_option create_reference (t_json_top t))]
         else [(''server_output_text'', str_item (Some (concat (t_server_output_list t))))])
      else [])"

definition results_json :: "iperf_test \<Rightarrow> (nat \<Rightarrow> iperf_stream) \<Rightarrow> cJSON" where
  "results_json t h =
     (let (c0, c1, c2) = t_cpu_util t;
          sender_has_retransmits = (if t_sender t = 0 then -1 else t_sender_has_retransmits t)
      in add_items cJSON_CreateObject
        ([(''cpu_util_total'', double_item c0),
          (''cpu_util_user'', double_item c1),
          (''cpu_util_system'', double_item c2),
          (''sender_has_retransmits'', num_item sender_has_retransmits)] @
         server_output_items t @
         [(''streams'', Some (foldl (\<lambda>a sp. cJSON_AddItemToArray a (Some (stream_json t (h sp))))
            cJSON_CreateArray (t_streams t)))]))"

definition send_results :: "int iperf_m" where
  "send_results = do {
     t \<leftarrow> get_t id;
     h \<leftarrow> gets strms;
     let j = results_json t h;
     debug_json ''send_results'' j;
     r \<leftarrow> JSON_write (t_ctrl_sck t) j;
     if r < 0 then do { set_i_errno IESENDRESULTS; ret (-1) } else ret 0 }"

definition find_stream :: "nat list \<Rightarrow> (nat \<Rightarrow> iperf_stream) \<Rightarrow> int \<Rightarrow> nat option" where
  "find_stream sps h sid = List.find (\<lambda>sp. sp_id (h sp) = sid) sps"

text \<open>What one entry of the peer's \<open>streams\<close> does; the result is 0 or -1.\<close>

definition apply_stream_result :: "cJSON \<Rightarrow> int iperf_m" where
  "apply_stream_result j_stream =
     (let item = (\<lambda>nm. cJSON_GetObjectItem (Some j_stream) nm) in
      case (item ''id'', item ''bytes'', item ''retransmits'', item ''jitter'', item ''errors'', item ''packets'') of
        (Some j_id, Some j_bytes, Some j_retransmits, Some j_jitter, Some j_errors, Some j_packets) \<Rightarrow> do {
          t \<leftarrow> get_t id;
          h \<leftarrow> gets strms;
          case find_stream (t_streams t) h (i32 (cj_valueint j_id)) of
            None \<Rightarrow> do { set_i_errno IESTREAMID; ret (-1) }
          | Some sp \<Rightarrow> do {
              (if t_sender t \<noteq> 0 then
                 mod_sp sp (\<lambda>x. set_rp (\<lambda>rp. rp\<lparr>rp_bytes_received := u64 (cj_valueint j_bytes)\<rparr>)
                   (x\<lparr>sp_jitter := cj_valuedouble j_jitter, sp_cnt_error := i32 (cj_valueint j_errors),
                      sp_packet_count := i32 (cj_valueint j_packets)\<rparr>))
               else
                 mod_sp sp (set_rp (\<lambda>rp. rp\<lparr>rp_bytes_sent := u64 (cj_valueint j_bytes),
                   rp_stream_retrans := i32 (cj_valueint j_retransmits)\<rparr>)));
              ret 0 } }
      | _ \<Rightarrow> do { set_i_errno IERECVRESULTS; ret (-1) })"

fun apply_stream_results :: "cJSON list \<Rightarrow> int \<Rightarrow> int iperf_m" where
  "apply_stream_results [] r = ret r"
| "apply_stream_results (j # js) r = do {
     r1 \<leftarrow> apply_stream_result j;
     apply_stream_results js (if r1 < 0 then -1 else r) }"

definition take_server_output :: "cJSON \<Rightarrow> unit iperf_m" where
  "take_server_output j = do {
     t \<leftarrow> get_t id;
     when_m (t_role t = CHR ''c'' \<and> iperf_get_test_get_server_output t \<noteq> 0)
       (case fst (cJSON_DetachItemFromObject j ''server_output_json'') of
          Some o1 \<Rightarrow> mod_t (\<lambda>t. t\<lparr>t_json_server_output := Some o1\<rparr>)
        | None \<Rightarrow> item_str j ''server_output_text'' (\<lambda>x t. t\<lparr>t_server_output_text := Some x\<rparr>)) }"

definition apply_results :: "cJSON \<Rightarrow> int iperf_m" where
  "apply_results j =
     (let item = (\<lambda>nm. cJSON_GetObjectItem (Some j) nm) in
      case (item ''cpu_util_total'', item ''cpu_util_user'', item ''cpu_util_system'', item ''sender_has_retransmits'') of
        (Some c0, Some c1, Some c2, Some shr) \<Rightarrow> do {
          debug_json ''get_results'' j;
          mod_t (\<lambda>t. t\<lparr>t_remote_cpu_util := (cj_valuedouble c0, cj_valuedouble c1, cj_valuedouble c2)\<rparr>);
          mod_t (\<lambda>t. if t_sender t = 0 then t\<lparr>t_sender_has_retransmits := i32 (cj_valueint shr)\<rparr> else t);
          case item ''streams'' of
            None \<Rightarrow> do { set_i_errno IERECVRESULTS; ret (-1) }
          | Some js \<Rightarrow> do {
              r \<leftarrow> apply_stream_results (cj_child js) 0;
              take_server_output j;
              ret r } }
      | _ \<Rightarrow> do { set_i_errno IERECVRESULTS; ret (-1) })"

definition get_results :: "int iperf_m" where
  "get_results = do {
     fd \<leftarrow> get_t t_ctrl_sck;
     r \<leftarrow> JSON_read fd;
     case r of
       None \<Rightarrow> do { set_i_errno IERECVRESULTS; ret (-1) }
     | Some j \<Rightarrow> apply_results j }"

definition iperf_exchange_results :: "int iperf_m" where
  "iperf_exchange_results = do {
     role \<leftarrow> get_t t_role;
     if role = CHR ''c'' then do {
       r \<leftarrow> send_results;
       if r < 0 then ret (-1)
       else do { r2 \<leftarrow> get_results; ret (if r2 < 0 then -1 else 0) } }
     else do {
       r \<leftarrow> get_results;
       if r < 0 then ret (-1)
       else do { r2 \<leftarrow> send_results; ret (if r2 < 0 then -1 else 0) } } }"

definition orelse :: "'a option \<Rightarrow> 'a option \<Rightarrow> 'a option" where
  "orelse a b = (case a of None \<Rightarrow> b | Some x \<Rightarrow> Some x)"

lemma orelse_None [simp]: "orelse a None = a" "orelse None b = b"
  by (simp_all add: orelse_def split: option.split)

definition named :: "string \<Rightarrow> cJSON option \<Rightarrow> cJSON option" where
  "named k it = map_option (cj_set_string (Some k)) it"

fun lookup :: "(string \<times> cJSON option) list \<Rightarrow> string \<Rightarrow> cJSON option" where
  "lookup [] nm = None"
| "lookup ((k, it) # es) nm =
     (if strcasecmp k nm = 0 then orelse (named k it) (lookup es nm) else lookup es nm)"

definition items :: "(string \<times> cJSON option) list \<Rightarrow> cJSON list" where
  "items es = concat (map (\<lambda>(k, it). case it of None \<Rightarrow> [] | Some x \<Rightarrow> [cj_set_string (Some k) x]) es)"

lemma add_items_child: "add_items j es = cj_set_child (cj_child j @ items es) j"
proof (induction es arbitrary: j)
  case Nil
  then show ?case by (cases j) (simp add: add_items_def items_def)
next
  case (Cons e es)
  obtain k it where e: "e = (k, it)" by force
  show ?case
    using Cons [of "cJSON_AddItemToObject j k it"]
    by (cases it; cases j) (simp_all add: add_items_def items_def e)
qed

lemma true_ones_sel [simp]: "cj_string (true_ones c) = cj_string c" "cj_valuestring (true_ones c) = cj_valuestring c"
  "cj_valuedouble (true_ones c) = cj_valuedouble c" "cj_child (true_ones c) = map true_ones (cj_child c)"
  "cj_valueint (true_ones c) = (if cj_type c = cJSON_True then 1 else cj_valueint c)"
  by (cases c; simp)+

lemma find_items: "find_child (map true_ones (items es)) nm = map_option true_ones (lookup es nm)"
  by (induction es nm rule: lookup.induct) (auto simp: items_def named_def orelse_def split: option.splits)

lemma item_of_object: "cJSON_GetObjectItem (Some (true_ones (add_items cJSON_CreateObject es))) nm =
    map_option true_ones (lookup es nm)"
  by (simp add: cJSON_GetObjectItem_def add_items_child find_items cJSON_CreateObject_def cJSON_New_Item_def)


lemma lookup_params:
  "lookup (params_items t) ''tcp'' = named ''tcp'' (true_item (protocol_id_is t Ptcp))"
  "lookup (params_items t) ''udp'' = named ''udp'' (true_item (\<not> protocol_id_is t Ptcp \<and> protocol_id_is t Pudp))"
  "lookup (params_items t) ''sctp'' =
    named ''sctp'' (true_item (\<not> protocol_id_is t Ptcp \<and> \<not> protocol_id_is t Pudp \<and> protocol_id_is t 12))"
  "lookup (params_items t) ''omit'' = named ''omit'' (num_item (t_omit t))"
  "lookup (params_items t) ''server_affinity'' = named ''server_affinity'' (affinity_item (t_server_affinity t))"
  "lookup (params_items t) ''time'' = named ''time'' (nonzero_item (t_duration t))"
  "lookup (params_items t) ''num'' = named ''num'' (nonzero_item (st_bytes (t_settings t)))"
  "lookup (params_items t) ''blockcount'' = named ''blockcount'' (nonzero_item (st_blocks (t_settings t)))"
  "lookup (params_items t) ''MSS'' = named ''MSS'' (nonzero_item (st_mss (t_settings t)))"
  "lookup (params_items t) ''nodelay'' = named ''nodelay'' (true_item (t_no_delay t \<noteq> 0))"
  "lookup (params_items t) ''parallel'' = named ''parallel'' (num_item (t_num_streams t))"
  "lookup (params_items t) ''reverse'' = named ''reverse'' (true_item (t_reverse t \<noteq> 0))"
  "lookup (params_items t) ''window'' = named ''window'' (nonzero_item (st_socket_bufsize (t_settings t)))"
  "lookup (params_items t) ''len'' = named ''len'' (nonzero_item (st_blksize (t_settings t)))"
  "lookup (params_items t) ''bandwidth'' = named ''bandwidth'' (nonzero_item (st_rate (t_settings t)))"
  "lookup (params_items t) ''burst'' = named ''burst'' (nonzero_item (st_burst (t_settings t)))"
  "lookup (params_items t) ''TOS'' = named ''TOS'' (nonzero_item (st_tos (t_settings t)))"
  "lookup (params_items t) ''flowlabel'' = named ''flowlabel'' (nonzero_item (st_flowlabel (t_settings t)))"
  "lookup (params_items t) ''title'' = named ''title'' (str_item (t_title t))"
  "lookup (params_items t) ''congestion'' = named ''congestion'' (str_item (t_congestion t))"
  "lookup (params_items t) ''get_server_output'' = named ''get_server_output'' (nonzero_item (t_get_server_output t))"
  "lookup (params_items t) ''udp_counters_64bit'' = named ''udp_counters_64bit'' (nonzero_item (t_udp_counters_64bit t))"
  "lookup (params_items t) ''no_fq_socket_pacing'' = named ''no_fq_socket_pacing'' (nonzero_item (t_no_fq_socket_pacing t))"
  by (simp_all add: params_items_def c_tolower_def Let_def
      iperf_get_test_get_server_output_def iperf_get_test_udp_counters_64bit_def iperf_get_no_fq_socket_pacing_def)

definition upd_if :: "bool \<Rightarrow> (iperf_test \<Rightarrow> iperf_test) \<Rightarrow> iperf_test \<Rightarrow> iperf_test" where
  "upd_if b f t = (if b then f t else t)"

lemma upd_if_simps [simp]: "upd_if True f = f" "upd_if False f = (\<lambda>t. t)"
  by (simp_all add: upd_if_def fun_eq_iff)

text \<open>A field of the test after a conditional update of another field, or of the field itself.\<close>

lemma upd_if_other: "(\<And>x. sel (f x) = sel x) \<Longrightarrow> sel (upd_if b f T) = sel T"
  by (simp add: upd_if_def)

lemmas upd_if_others =
  upd_if_other [where sel = t_protocol]
  upd_if_other [where sel = t_omit]
  upd_if_other [where sel = t_num_streams]
  upd_if_other [where sel = t_duration]
  upd_if_other [where sel = t_reverse]
  upd_if_other [where sel = t_sender]
  upd_if_other [where sel = t_no_delay]
  upd_if_other [where sel = t_get_server_output]
  upd_if_other [where sel = t_udp_counters_64bit]
  upd_if_other [where sel = t_title]
  upd_if_other [where sel = t_congestion]
  upd_if_other [where sel = t_streams]
  upd_if_other [where sel = t_ctrl_sck]
  upd_if_other [where sel = t_state]
  upd_if_other [where sel = "\<lambda>t. st_bytes (t_settings t)"]
  upd_if_other [where sel = "\<lambda>t. st_blocks (t_settings t)"]
  upd_if_other [where sel = "\<lambda>t. st_mss (t_settings t)"]
  upd_if_other [where sel = "\<lambda>t. st_socket_bufsize (t_settings t)"]
  upd_if_other [where sel = "\<lambda>t. st_blksize (t_settings t)"]
  upd_if_other [where sel = "\<lambda>t. st_rate (t_settings t)"]
  upd_if_other [where sel = "\<lambda>t. st_burst (t_settings t)"]
  upd_if_other [where sel = "\<lambda>t. st_tos (t_settings t)"]
  upd_if_other [where sel = "\<lambda>t. st_flowlabel (t_settings t)"]

lemma upd_if_same:
  "t_omit (upd_if b (\<lambda>t. t\<lparr>t_omit := v\<rparr>) T) = (if b then v else t_omit T)"
  "t_num_streams (upd_if b (\<lambda>t. t\<lparr>t_num_streams := v\<rparr>) T) = (if b then v else t_num_streams T)"
  "t_duration (upd_if b (\<lambda>t. t\<lparr>t_duration := v\<rparr>) T) = (if b then v else t_duration T)"
  "t_no_delay (upd_if b (\<lambda>t. t\<lparr>t_no_delay := v\<rparr>) T) = (if b then v else t_no_delay T)"
  "t_title (upd_if b (\<lambda>t. t\<lparr>t_title := w\<rparr>) T) = (if b then w else t_title T)"
  "t_congestion (upd_if b (\<lambda>t. t\<lparr>t_congestion := w\<rparr>) T) = (if b then w else t_congestion T)"
  "st_bytes (t_settings (upd_if b (set_st (\<lambda>s. s\<lparr>st_bytes := v\<rparr>)) T)) = (if b then v else st_bytes (t_settings T))"
  "st_blocks (t_settings (upd_if b (set_st (\<lambda>s. s\<lparr>st_blocks := v\<rparr>)) T)) = (if b then v else st_blocks (t_settings T))"
  "st_mss (t_settings (upd_if b (set_st (\<lambda>s. s\<lparr>st_mss := v\<rparr>)) T)) = (if b then v else st_mss (t_settings T))"
  "st_socket_bufsize (t_settings (upd_if b (set_st (\<lambda>s. s\<lparr>st_socket_bufsize := v\<rparr>)) T)) = (if b then v else st_socket_bufsize (t_settings T))"
  "st_blksize (t_settings (upd_if b (set_st (\<lambda>s. s\<lparr>st_blksize := v\<rparr>)) T)) = (if b then v else st_blksize (t_settings T))"
  "st_rate (t_settings (upd_if b (set_st (\<lambda>s. s\<lparr>st_rate := v\<rparr>)) T)) = (if b then v else st_rate (t_settings T))"
  "st_burst (t_settings (upd_if b (set_st (\<lambda>s. s\<lparr>st_burst := v\<rparr>)) T)) = (if b then v else st_burst (t_settings T))"
  "st_tos (t_settings (upd_if b (set_st (\<lambda>s. s\<lparr>st_tos := v\<rparr>)) T)) = (if b then v else st_tos (t_settings T))"
  "st_flowlabel (t_settings (upd_if b (set_st (\<lambda>s. s\<lparr>st_flowlabel := v\<rparr>)) T)) = (if b then v else st_flowlabel (t_settings T))"
  "t_reverse (upd_if b (iperf_set_test_reverse 1) T) = (if b then 1 else t_reverse T)"
  "t_sender (upd_if b (iperf_set_test_reverse 1) T) = (if b then b2i (t_sender T = 0) else t_sender T)"
  "t_get_server_output (upd_if b (iperf_set_test_get_server_output 1) T) = (if b then 1 else t_get_server_output T)"
  "t_udp_counters_64bit (upd_if b (iperf_set_test_udp_counters_64bit 1) T) = (if b then 1 else t_udp_counters_64bit T)"
  by (simp_all add: upd_if_def iperf_set_test_reverse_def check_sender_has_retransmits_def
      iperf_set_test_get_server_output_def iperf_set_test_udp_counters_64bit_def Let_def)

definition upd :: "(iperf_test \<Rightarrow> iperf_test) \<Rightarrow> iperf_state \<Rightarrow> iperf_state" where
  "upd f s = s\<lparr>tst := f (tst s)\<rparr>"

lemma true_ones_set_string: "true_ones (cj_set_string k c) = cj_set_string k (true_ones c)"
  by (cases c) simp

lemma int_item:
  assumes "\<bar>n\<bar> \<le> 2 ^ 53"
  shows "cj_valueint (true_ones (cj_set_string k (cJSON_CreateInt n))) = n"
  using assms by (simp add: cJSON_CreateInt_def cJSON_CreateNumber_def json_types)

lemma run_item_t:
  assumes "lookup es nm = named nm it"
  shows "run_state (item_t (true_ones (add_items cJSON_CreateObject es)) nm f) s =
    (case it of None \<Rightarrow> ((), s) | Some x \<Rightarrow> ((), upd (f (cj_valueint (true_ones x))) s))"
  using assms
  by (auto simp: item_t_def on_item_def item_of_object named_def upd_def true_ones_set_string split: option.split)

lemma run_item_num:
  assumes "lookup es nm = named nm (num_item n)" "\<bar>n\<bar> \<le> 2 ^ 53"
  shows "run_state (item_t (true_ones (add_items cJSON_CreateObject es)) nm f) s = ((), upd (upd_if True (f n)) s)"
  using assms(2) run_item_t [OF assms(1)] int_item [of n None]
  by (simp add: num_item_def true_ones_set_string)

lemma run_item_nonzero:
  assumes "lookup es nm = named nm (nonzero_item n)" "\<bar>n\<bar> \<le> 2 ^ 53"
  shows "run_state (item_t (true_ones (add_items cJSON_CreateObject es)) nm f) s = ((), upd (upd_if (n \<noteq> 0) (f n)) s)"
  using assms(2) run_item_t [OF assms(1)] int_item [of n None]
  by (simp add: nonzero_item_def num_item_def upd_def true_ones_set_string cong: if_cong split: if_splits)

lemma run_item_affinity:
  assumes "lookup es nm = named nm (affinity_item n)" "\<bar>n\<bar> \<le> 2 ^ 53"
  shows "run_state (item_t (true_ones (add_items cJSON_CreateObject es)) nm f) s = ((), upd (upd_if (n \<noteq> -1) (f n)) s)"
  using assms(2) run_item_t [OF assms(1)] int_item [of n None]
  by (simp add: affinity_item_def num_item_def upd_def true_ones_set_string cong: if_cong split: if_splits)

lemma run_item_true:
  assumes "lookup es nm = named nm (true_item b)"
  shows "run_state (item_t (true_ones (add_items cJSON_CreateObject es)) nm f) s = ((), upd (upd_if b (f 1)) s)"
  using run_item_t [OF assms]
  by (simp add: true_item_def upd_def cJSON_CreateTrue_def cJSON_New_Item_def json_types split: if_splits)

lemma run_item_str:
  assumes "lookup es nm = named nm (str_item v)"
  shows "run_state (item_str (true_ones (add_items cJSON_CreateObject es)) nm f) s = ((), upd (upd_if (v \<noteq> None) (f (the v))) s)"
  using assms
  by (cases v) (simp_all add: item_str_def on_item_def item_of_object named_def str_item_def upd_def
      cJSON_CreateString_def)

lemma run_item_protocol:
  assumes "lookup es nm = named nm (true_item b)" "find_protocol (t_protocols (tst s)) i = Some p"
  shows "run_state (on_item (true_ones (add_items cJSON_CreateObject es)) nm (\<lambda>_. do { _ \<leftarrow> set_protocol i; skip_m })) s =
    ((), upd (upd_if b (\<lambda>t. check_sender_has_retransmits (t\<lparr>t_protocol := Some p\<rparr>))) s)"
  using assms
  by (simp add: on_item_def item_of_object named_def true_item_def upd_def set_protocol_def)

lemma run_item_none:
  assumes "lookup es nm = named nm (true_item b)" "\<not> b"
  shows "run_state (on_item (true_ones (add_items cJSON_CreateObject es)) nm f) s = ((), s)"
  using assms by (simp add: on_item_def item_of_object named_def true_item_def)

text \<open>The ranges a client's parameters are in, after its arguments were checked.\<close>

definition params_ok :: "iperf_test \<Rightarrow> bool" where
  "params_ok c \<longleftrightarrow>
     (t_protocol c = Some tcp_protocol \<or> t_protocol c = Some udp_protocol) \<and>
     list_all in_i32 [t_omit c, t_server_affinity c, t_duration c, t_num_streams c,
       st_mss (t_settings c), st_socket_bufsize (t_settings c), st_blksize (t_settings c), st_burst (t_settings c),
       st_tos (t_settings c), st_flowlabel (t_settings c), t_get_server_output c, t_udp_counters_64bit c,
       t_no_fq_socket_pacing c] \<and>
     list_all (\<lambda>n. 0 \<le> n \<and> n \<le> 2 ^ 53) [st_bytes (t_settings c), st_blocks (t_settings c), st_rate (t_settings c)] \<and>
     (case t_title c of None \<Rightarrow> True | Some x \<Rightarrow> nul_free x) \<and>
     (case t_congestion c of None \<Rightarrow> True | Some x \<Rightarrow> nul_free x)"

definition kept :: "int \<Rightarrow> int \<Rightarrow> int" where
  "kept new old = (if new \<noteq> 0 then new else old)"

lemma upd_tst [simp]: "tst (upd f s) = f (tst s)" "upd f (upd g s) = upd (\<lambda>t. f (g t)) s"
  by (simp_all add: upd_def)

lemma mod_t_upd: "run_state (mod_t f) s = ((), upd f s)"
  by (simp add: upd_def)

lemma protocols_upd_if [simp]: "t_protocols (upd_if b (\<lambda>t. check_sender_has_retransmits (t\<lparr>t_protocol := w\<rparr>)) T) = t_protocols T"
  by (simp add: upd_if_def check_sender_has_retransmits_def)

lemma in_i32_53: "in_i32 n \<Longrightarrow> \<bar>n\<bar> \<le> 9007199254740992"
  by (auto simp: in_i32_def)

lemma check_sender_fields: "check_sender_has_retransmits t =
    t\<lparr>t_sender_has_retransmits := b2i (t_sender t \<noteq> 0 \<and> protocol_id_is t Ptcp)\<rparr>"
  by (simp add: check_sender_has_retransmits_def has_tcpinfo_retransmits_def)

lemma if_retransmits: "(if b then t\<lparr>t_sender_has_retransmits := 1\<rparr> else t) =
    t\<lparr>t_sender_has_retransmits := if b then 1 else t_sender_has_retransmits t\<rparr>" for t :: iperf_test
  by simp

text \<open>
  What the server's test is to be after the parameters of a client arrived: \<open>c\<close> is the client's
  test, \<open>t\<close> and \<open>t'\<close> the server's before and after. A number that is 0 and a text that is absent are not
  transmitted, so the server keeps what it had.
\<close>

definition agrees :: "iperf_test \<Rightarrow> iperf_test \<Rightarrow> iperf_test \<Rightarrow> bool" where
  "agrees c t t' \<longleftrightarrow>
     t_protocol t' = t_protocol c \<and> t_omit t' = t_omit c \<and> t_num_streams t' = t_num_streams c \<and>
     t_duration t' = kept (t_duration c) (t_duration t) \<and>
     st_bytes (t_settings t') = kept (st_bytes (t_settings c)) (st_bytes (t_settings t)) \<and>
     st_blocks (t_settings t') = kept (st_blocks (t_settings c)) (st_blocks (t_settings t)) \<and>
     st_mss (t_settings t') = kept (st_mss (t_settings c)) (st_mss (t_settings t)) \<and>
     st_socket_bufsize (t_settings t') = kept (st_socket_bufsize (t_settings c)) (st_socket_bufsize (t_settings t)) \<and>
     st_blksize (t_settings t') = kept (st_blksize (t_settings c)) (st_blksize (t_settings t)) \<and>
     st_rate (t_settings t') = kept (st_rate (t_settings c)) (st_rate (t_settings t)) \<and>
     st_burst (t_settings t') = kept (st_burst (t_settings c)) (st_burst (t_settings t)) \<and>
     st_tos (t_settings t') = kept (st_tos (t_settings c)) (st_tos (t_settings t)) \<and>
     st_flowlabel (t_settings t') = kept (st_flowlabel (t_settings c)) (st_flowlabel (t_settings t)) \<and>
     t_reverse t' = (if t_reverse c \<noteq> 0 then 1 else t_reverse t) \<and>
     t_sender t' = (if t_reverse c \<noteq> 0 then b2i (t_sender t = 0) else t_sender t) \<and>
     t_no_delay t' = (if t_no_delay c \<noteq> 0 then 1 else t_no_delay t) \<and>
     t_get_server_output t' = (if t_get_server_output c \<noteq> 0 then 1 else t_get_server_output t) \<and>
     t_udp_counters_64bit t' = (if t_udp_counters_64bit c \<noteq> 0 then 1 else t_udp_counters_64bit t) \<and>
     t_title t' = (if t_title c \<noteq> None then t_title c else t_title t) \<and>
     t_congestion t' = (if t_congestion c \<noteq> None then t_congestion c else t_congestion t) \<and>
     t_streams t' = t_streams t \<and> t_ctrl_sck t' = t_ctrl_sck t \<and> t_state t' = t_state t"

lemmas item_steps = run_item_protocol lookup_params run_item_none run_item_num run_item_nonzero
  run_item_affinity run_item_true run_item_str mod_t_upd in_i32_53

lemma u64_53: "0 \<le> n \<Longrightarrow> n \<le> 9007199254740992 \<Longrightarrow> u64 n = n"
  by (simp add: u64_def)

definition received_params :: "iperf_test \<Rightarrow> iperf_test \<Rightarrow> iperf_test" where
  "received_params c =
     (\<lambda>t. if t_sender t \<noteq> 0 \<and> protocol_id_is t Ptcp \<and> has_tcpinfo_retransmits \<noteq> 0
       then t\<lparr>t_sender_has_retransmits := 1\<rparr> else t) \<circ>
     upd_if (t_no_fq_socket_pacing c \<noteq> 0) (iperf_set_no_fq_socket_pacing 1) \<circ>
     upd_if (t_udp_counters_64bit c \<noteq> 0) (iperf_set_test_udp_counters_64bit 1) \<circ>
     upd_if (t_get_server_output c \<noteq> 0) (iperf_set_test_get_server_output 1) \<circ>
     upd_if (t_congestion c \<noteq> None) (\<lambda>t. t\<lparr>t_congestion := Some (the (t_congestion c))\<rparr>) \<circ>
     upd_if (t_title c \<noteq> None) (\<lambda>t. t\<lparr>t_title := Some (the (t_title c))\<rparr>) \<circ>
     upd_if (st_flowlabel (t_settings c) \<noteq> 0) (set_st (\<lambda>s. s\<lparr>st_flowlabel := st_flowlabel (t_settings c)\<rparr>)) \<circ>
     upd_if (st_tos (t_settings c) \<noteq> 0) (set_st (\<lambda>s. s\<lparr>st_tos := st_tos (t_settings c)\<rparr>)) \<circ>
     upd_if (st_burst (t_settings c) \<noteq> 0) (set_st (\<lambda>s. s\<lparr>st_burst := st_burst (t_settings c)\<rparr>)) \<circ>
     upd_if (st_rate (t_settings c) \<noteq> 0) (set_st (\<lambda>s. s\<lparr>st_rate := st_rate (t_settings c)\<rparr>)) \<circ>
     upd_if (st_blksize (t_settings c) \<noteq> 0) (set_st (\<lambda>s. s\<lparr>st_blksize := st_blksize (t_settings c)\<rparr>)) \<circ>
     upd_if (st_socket_bufsize (t_settings c) \<noteq> 0) (set_st (\<lambda>s. s\<lparr>st_socket_bufsize := st_socket_bufsize (t_settings c)\<rparr>)) \<circ>
     upd_if (t_reverse c \<noteq> 0) (iperf_set_test_reverse 1) \<circ>
     upd_if (True) (\<lambda>t. t\<lparr>t_num_streams := t_num_streams c\<rparr>) \<circ>
     upd_if (t_no_delay c \<noteq> 0) (\<lambda>t. t\<lparr>t_no_delay := 1\<rparr>) \<circ>
     upd_if (st_mss (t_settings c) \<noteq> 0) (set_st (\<lambda>s. s\<lparr>st_mss := st_mss (t_settings c)\<rparr>)) \<circ>
     upd_if (st_blocks (t_settings c) \<noteq> 0) (set_st (\<lambda>s. s\<lparr>st_blocks := st_blocks (t_settings c)\<rparr>)) \<circ>
     upd_if (st_bytes (t_settings c) \<noteq> 0) (set_st (\<lambda>s. s\<lparr>st_bytes := st_bytes (t_settings c)\<rparr>)) \<circ>
     upd_if (t_duration c \<noteq> 0) (\<lambda>t. t\<lparr>t_duration := t_duration c\<rparr>) \<circ>
     upd_if (t_server_affinity c \<noteq> -1) (\<lambda>t. t\<lparr>t_server_affinity := t_server_affinity c\<rparr>) \<circ>
     upd_if (True) (\<lambda>t. t\<lparr>t_omit := t_omit c\<rparr>) \<circ>
     upd_if (\<not> protocol_id_is c Ptcp \<and> protocol_id_is c Pudp) (\<lambda>t. check_sender_has_retransmits (t\<lparr>t_protocol := Some udp_protocol\<rparr>)) \<circ>
     upd_if (protocol_id_is c Ptcp) (\<lambda>t. check_sender_has_retransmits (t\<lparr>t_protocol := Some tcp_protocol\<rparr>))"

lemma params_protocol: "params_ok c \<Longrightarrow> (\<not> protocol_id_is c Ptcp \<and> \<not> protocol_id_is c Pudp \<and> protocol_id_is c 12) = False"
  by (auto simp: params_ok_def protocol_id_is_def tcp_protocol_def udp_protocol_def)

lemma run_apply_parameters:
  assumes "params_ok c"
    and "find_protocol (t_protocols (tst s)) Ptcp = Some tcp_protocol"
    and "find_protocol (t_protocols (tst s)) Pudp = Some udp_protocol"
  shows "run_state (apply_parameters (true_ones (params_json c))) s = ((), upd (received_params c) s)"
  using assms params_protocol [OF assms(1)]
  unfolding apply_parameters_def params_json_def params_ok_def received_params_def
  by (simp add: item_steps i32_in u64_53 comp_def del: run_mod_t)

lemmas setter_defs = set_st_def iperf_set_test_reverse_def check_sender_has_retransmits_def Let_def
  iperf_set_test_get_server_output_def iperf_set_test_udp_counters_64bit_def iperf_set_no_fq_socket_pacing_def


lemma received_fields:
  "t_omit (received_params c t) = t_omit c"
  "t_num_streams (received_params c t) = t_num_streams c"
  "t_duration (received_params c t) = kept (t_duration c) (t_duration t)"
  "st_bytes (t_settings (received_params c t)) = kept (st_bytes (t_settings c)) (st_bytes (t_settings t))"
  "st_blocks (t_settings (received_params c t)) = kept (st_blocks (t_settings c)) (st_blocks (t_settings t))"
  "st_mss (t_settings (received_params c t)) = kept (st_mss (t_settings c)) (st_mss (t_settings t))"
  "st_socket_bufsize (t_settings (received_params c t)) = kept (st_socket_bufsize (t_settings c)) (st_socket_bufsize (t_settings t))"
  "st_blksize (t_settings (received_params c t)) = kept (st_blksize (t_settings c)) (st_blksize (t_settings t))"
  "st_rate (t_settings (received_params c t)) = kept (st_rate (t_settings c)) (st_rate (t_settings t))"
  "st_burst (t_settings (received_params c t)) = kept (st_burst (t_settings c)) (st_burst (t_settings t))"
  "st_tos (t_settings (received_params c t)) = kept (st_tos (t_settings c)) (st_tos (t_settings t))"
  "st_flowlabel (t_settings (received_params c t)) = kept (st_flowlabel (t_settings c)) (st_flowlabel (t_settings t))"
  "t_reverse (received_params c t) = (if t_reverse c \<noteq> 0 then 1 else t_reverse t)"
  "t_sender (received_params c t) = (if t_reverse c \<noteq> 0 then b2i (t_sender t = 0) else t_sender t)"
  "t_no_delay (received_params c t) = (if t_no_delay c \<noteq> 0 then 1 else t_no_delay t)"
  "t_get_server_output (received_params c t) = (if t_get_server_output c \<noteq> 0 then 1 else t_get_server_output t)"
  "t_udp_counters_64bit (received_params c t) = (if t_udp_counters_64bit c \<noteq> 0 then 1 else t_udp_counters_64bit t)"
  "t_title (received_params c t) = (if t_title c \<noteq> None then t_title c else t_title t)"
  "t_congestion (received_params c t) = (if t_congestion c \<noteq> None then t_congestion c else t_congestion t)"
  "t_streams (received_params c t) = t_streams t"
  "t_ctrl_sck (received_params c t) = t_ctrl_sck t"
  "t_state (received_params c t) = t_state t"
  unfolding received_params_def comp_def if_retransmits
  by (simp add: upd_if_same upd_if_others setter_defs kept_def del: upd_if_simps)+

lemma agrees_received:
  assumes "t_protocol c = Some tcp_protocol \<or> t_protocol c = Some udp_protocol"
  shows "agrees c t (received_params c t)"
proof -
  have tcp: "t_protocol c = Some tcp_protocol \<and> protocol_id_is c Ptcp \<or>
      t_protocol c = Some udp_protocol \<and> \<not> protocol_id_is c Ptcp \<and> protocol_id_is c Pudp"
    using assms by (auto simp: protocol_id_is_def tcp_protocol_def udp_protocol_def Ptcp_def Pudp_def sock_defs)
  have p: "t_protocol (received_params c t) = t_protocol c"
    unfolding received_params_def comp_def if_retransmits
    using tcp by (elim disjE conjE; simp add: upd_if_others setter_defs)
  show ?thesis
    unfolding agrees_def by (intro conjI p received_fields)
qed

definition ok_item :: "cJSON option \<Rightarrow> bool" where
  "ok_item it \<longleftrightarrow> (case it of None \<Rightarrow> True | Some x \<Rightarrow> json_ok x)"

lemma json_ok_set_string: "json_ok (cj_set_string k x) = json_ok x"
  by (cases x) simp

lemma items_named: "x \<in> set (items es) \<Longrightarrow> \<exists>k y. (k, Some y) \<in> set es \<and> x = cj_set_string (Some k) y"
  by (auto simp: items_def split: option.splits)

lemma json_ok_add_items:
  assumes "list_all (\<lambda>(k, it). nul_free k \<and> ok_item it) es"
  shows "json_ok (add_items cJSON_CreateObject es)" "cj_string (add_items cJSON_CreateObject es) = None"
proof -
  have "json_ok x \<and> (\<exists>s. cj_string x = Some s \<and> nul_free s)" if x: "x \<in> set (items es)" for x
  proof -
    obtain k y where "(k, Some y) \<in> set es" "x = cj_set_string (Some k) y" using items_named [OF x] by blast
    then show ?thesis using assms by (auto simp: list_all_iff ok_item_def json_ok_set_string)
  qed
  then show "json_ok (add_items cJSON_CreateObject es)"
    by (simp add: add_items_child cJSON_CreateObject_def cJSON_New_Item_def json_types)
  show "cj_string (add_items cJSON_CreateObject es) = None"
    by (simp add: add_items_child cJSON_CreateObject_def cJSON_New_Item_def)
qed

lemma ok_items:
  "\<bar>n\<bar> \<le> 9007199254740992 \<Longrightarrow> ok_item (num_item n)"
  "\<bar>n\<bar> \<le> 9007199254740992 \<Longrightarrow> ok_item (nonzero_item n)"
  "\<bar>n\<bar> \<le> 9007199254740992 \<Longrightarrow> ok_item (affinity_item n)"
  "ok_item (true_item b)"
  "(case v of None \<Rightarrow> True | Some x \<Rightarrow> nul_free x) \<Longrightarrow> ok_item (str_item v)"
  using d_of_int_exact [of n] d_to_i64_int [of n]
  by (auto simp: ok_item_def num_item_def nonzero_item_def affinity_item_def true_item_def str_item_def
      cJSON_CreateInt_def cJSON_CreateNumber_def cJSON_CreateTrue_def cJSON_New_Item_def cJSON_CreateString_def
      json_types split: option.splits)

lemma json_ok_params:
  assumes "params_ok c"
  shows "json_ok (params_json c)" "cj_string (params_json c) = None"
proof -
  have "list_all (\<lambda>(k, it). nul_free k \<and> ok_item it) (params_items c)"
    using assms
    by (simp add: params_items_def Let_def params_ok_def ok_items in_i32_53 nul_free_def IPERF_VERSION_def
      iperf_get_test_get_server_output_def iperf_get_test_udp_counters_64bit_def iperf_get_no_fq_socket_pacing_def)
  then show "json_ok (params_json c)" "cj_string (params_json c) = None"
    by (simp_all add: params_json_def json_ok_add_items)
qed

lemma more_iperf:
  fixes s s' :: iperf_state
  assumes "world.more s' = world.more s"
  shows "tst s' = tst s" "strms s' = strms s" "strm_brk s' = strm_brk s" "invoke_flag s' = invoke_flag s"
    "timers s' = timers s" "free_timers s' = free_timers s" "tm_brk s' = tm_brk s"
  using assms by (cases s; cases s'; simp)+

lemma os_only_iperf:
  fixes m :: "'a iperf_m"
  assumes "os_only m" "run_state m s = (a, s')"
  shows "tst s' = tst s" "strms s' = strms s" "timers s' = timers s"
  using os_onlyD [OF assms] more_iperf by blast+

lemma os_only_JSON [os_frame]: "os_only (JSON_write fd j)" "os_only (JSON_read fd)"
  by (auto simp: JSON_write_def JSON_read_def Let_def intro!: os_frame)

section \<open>What the framing promises\<close>

lemma of_char_byte: "(of_char (byte_of n) :: int) = n mod 256"
proof -
  have "nat (n mod 256) < 256" by (simp add: nat_less_iff)
  then have "(of_char (byte_of n) :: nat) = nat (n mod 256)" by (simp add: byte_of_def)
  moreover have "(of_char (byte_of n) :: int) = int (of_char (byte_of n))"
    by (rule of_nat_of_char [symmetric])
  ultimately show ?thesis by (metis nat_0_le pos_mod_sign zero_less_numeral)
qed

lemma of_be_append: "of_be (xs @ [c]) = of_be xs * 256 + of_char c"
  by (simp add: of_be_def)

lemma of_be_byte: "of_be xs = n div 256 \<Longrightarrow> of_be (xs @ [byte_of n]) = n"
  by (simp add: of_be_append of_char_byte)

lemma of_be_be32: "0 \<le> n \<Longrightarrow> n < 2 ^ 32 \<Longrightarrow> of_be (be32 n) = n"
proof -
  assume n: "0 \<le> n" "n < 2 ^ 32"
  have d: "n div 2 ^ 24 div 256 = 0" using n by simp
  have e: "n div 2 ^ 24 = n div 2 ^ 16 div 256" "n div 2 ^ 16 = n div 2 ^ 8 div 256" "n div 2 ^ 8 = n div 256"
    by (simp_all add: zdiv_zmult2_eq [symmetric])
  have "of_be ([] @ [byte_of (n div 2 ^ 24)]) = n div 2 ^ 24"
    using d by (intro of_be_byte) (simp add: of_be_def)
  then have "of_be (([] @ [byte_of (n div 2 ^ 24)]) @ [byte_of (n div 2 ^ 16)]) = n div 2 ^ 16"
    by (intro of_be_byte) (simp add: e)
  then have "of_be ((([] @ [byte_of (n div 2 ^ 24)]) @ [byte_of (n div 2 ^ 16)]) @ [byte_of (n div 2 ^ 8)]) = n div 2 ^ 8"
    by (intro of_be_byte) (simp add: e)
  then have "of_be (((([] @ [byte_of (n div 2 ^ 24)]) @ [byte_of (n div 2 ^ 16)]) @ [byte_of (n div 2 ^ 8)]) @ [byte_of n]) = n"
    by (intro of_be_byte) (simp add: e)
  then show ?thesis by (simp add: be32_def)
qed

lemma length_be32 [simp]: "length (be32 n) = 4"
  by (simp add: be32_def)

lemma c_str_nul_free: "nul_free s \<Longrightarrow> c_str s = s"
  unfolding c_str_def nul_free_def by (rule takeWhile_eq_all_conv [THEN iffD2]) auto

lemma os_only_debug_json [os_frame]: "os_only (debug_json what j)"
  by (auto simp: debug_json_def get_t_def intro!: os_frame)

lemma run_JSON_read:
  assumes "run_state (Nread fd 4) s = ((4, be32 (int (length str))), s1)" "length str < 2 ^ 31"
    and "0 \<le> sr_val (answer s1 (SMalloc (''JSON '' @ show_int (int (length str) + 1))))"
    and "run_state (Nread fd (length str)) (after s1 (SMalloc (''JSON '' @ show_int (int (length str) + 1)))) =
      ((int (length str), str), s2)"
  shows "run_state (JSON_read fd) s = (cJSON_Parse (c_str str), s2)"
proof -
  have n: "of_be (be32 (int (length str))) = int (length str)" "u32 (int (length str)) = int (length str)"
    "JSON_read_alloc (int (length str)) = int (length str) + 1"
    using assms(2) by (auto simp: of_be_be32 u32_def JSON_read_alloc_def)
  show ?thesis
    using assms unfolding JSON_read_def by (simp add: Let_def n)
qed

lemma of_be_bound: "0 \<le> of_be xs \<and> of_be xs < 256 ^ length xs"
proof (induction xs rule: rev_induct)
  case (snoc c xs)
  have "(of_char c :: int) = int (of_char c)" by (rule of_nat_of_char [symmetric])
  then have "0 \<le> (of_char c :: int)" "(of_char c :: int) < 256"
    using nat_of_char_less_256 [of c] by linarith+
  with snoc show ?case by (simp add: of_be_append)
qed (simp add: of_be_def)

text \<open>
  C38: the frame is read back exactly. When \<open>JSON_read\<close> gets the four bytes of the length and then that
  many bytes, it parses those bytes; when it gets fewer, or cannot allocate, it returns nothing. The
  block it allocates holds the bytes and a NUL for every announced length but the largest, for
  which the sum wraps and the block has no byte at all.
\<close>

theorem JSON_read_frame:
  assumes "run_state (Nread fd 4) s = ((4, h), s1)" "length h = 4" "of_be h = n"
    and "run_state (Nread fd (nat n)) (after s1 (SMalloc (''JSON '' @ show_int (JSON_read_alloc n)))) = ((rc, d), s2)"
  shows "fst (run_state (JSON_read fd) s) =
      (if 0 \<le> sr_val (answer s1 (SMalloc (''JSON '' @ show_int (JSON_read_alloc n)))) \<and> 0 \<le> rc \<and> u32 rc = n
       then cJSON_Parse (c_str d) else None) \<and>
    0 \<le> n \<and> n < 2 ^ 32 \<and> (n < JSON_read_alloc n \<longleftrightarrow> n \<noteq> 2 ^ 32 - 1) \<and> JSON_read_alloc (2 ^ 32 - 1) = 0"
proof -
  have "0 \<le> n" "n < 2 ^ 32" using of_be_bound [of h] assms(2,3) by simp_all
  then have "0 \<le> n \<and> n < 2 ^ 32 \<and> (n < JSON_read_alloc n \<longleftrightarrow> n \<noteq> 2 ^ 32 - 1) \<and> JSON_read_alloc (2 ^ 32 - 1) = 0"
    by (auto simp: JSON_read_alloc_def u32_def)
  moreover have "fst (run_state (JSON_read fd) s) =
      (if 0 \<le> sr_val (answer s1 (SMalloc (''JSON '' @ show_int (JSON_read_alloc n)))) \<and> 0 \<le> rc \<and> u32 rc = n
       then cJSON_Parse (c_str d) else None)"
    using assms unfolding JSON_read_def by (auto simp: Let_def)
  ultimately show ?thesis by simp
qed


section \<open>Instances\<close>

text \<open>A client that asks for four reverse TCP streams, and the world in which its request arrives.\<close>

definition ex_client :: iperf_test where
  "ex_client = (default_test test0)\<lparr>t_role := CHR ''c'', t_sender := 1, t_protocol := Some tcp_protocol,
     t_reverse := 1, t_num_streams := 4\<rparr>"

lemma ex_client_fields:
  "t_omit ex_client = 0" "t_server_affinity ex_client = -1" "t_duration ex_client = 10"
  "t_no_delay ex_client = 0" "t_num_streams ex_client = 4" "t_reverse ex_client = 1"
  "t_settings ex_client = default_settings settings0" "t_title ex_client = None" "t_congestion ex_client = None"
  "t_get_server_output ex_client = 0" "t_udp_counters_64bit ex_client = 0" "t_no_fq_socket_pacing ex_client = 0"
  "t_protocol ex_client = Some tcp_protocol"
  by (simp_all add: ex_client_def default_test_def test0_def set_st_def OMIT_def DURATION_def)

lemma items_simps: "items [] = []" "items ((k, None) # es) = items es"
  "items ((k, Some x) # es) = cj_set_string (Some k) x # items es"
  by (simp_all add: items_def)

lemma ex_client_items: "items (params_items ex_client) =
   map (\<lambda>(k, x). cj_set_string (Some k) x)
    [(''tcp'', cJSON_CreateTrue), (''omit'', cJSON_CreateInt 0), (''time'', cJSON_CreateInt 10),
     (''parallel'', cJSON_CreateInt 4), (''reverse'', cJSON_CreateTrue), (''len'', cJSON_CreateInt 131072),
     (''client_version'', cJSON_CreateString ''3.1.3'')]"
  by (simp add: params_items_def items_simps ex_client_fields default_settings_def settings0_def
    DEFAULT_TCP_BLKSIZE_def protocol_id_is_def nonzero_item_def affinity_item_def true_item_def str_item_def num_item_def
    tcp_protocol_def sock_defs Ptcp_def Pudp_def IPERF_VERSION_def
    iperf_get_test_get_server_output_def iperf_get_test_udp_counters_64bit_def iperf_get_no_fq_socket_pacing_def)

lemma ex_client_ok: "params_ok ex_client"
  by (simp add: params_ok_def ex_client_fields default_settings_def settings0_def in_i32_def
      DEFAULT_TCP_BLKSIZE_def)

lemma render_named_num: "\<bar>n\<bar> \<le> 2 ^ 53 \<Longrightarrow> nul_free k \<Longrightarrow>
    render (cj_set_string (Some k) (cJSON_CreateInt n)) d f = show_int n"
  using d_of_int_exact [of n] d_to_i64_int [of n] render_cases(4) [of None n "d_of_int n" "Some k" "[]" d f]
  by (simp add: cJSON_CreateInt_def cJSON_CreateNumber_def json_types)

lemma render_named_str: "nul_free v \<Longrightarrow> nul_free k \<Longrightarrow>
    render (cj_set_string (Some k) (cJSON_CreateString v)) d f = print_string_ptr (Some v)"
  using render_cases(5) [of "Some v" 0 "Fin 0" "Some k" "[]" d f]
  by (simp add: cJSON_CreateString_def json_types)

lemma render_named_true: "nul_free k \<Longrightarrow> render (cj_set_string (Some k) cJSON_CreateTrue) d f = ''true''"
  using render_cases(3) [of None 0 "Fin 0" "Some k" "[]" d f]
  by (simp add: cJSON_CreateTrue_def cJSON_New_Item_def json_types)

lemma render_params: "params_ok c \<Longrightarrow> render (params_json c) 0 False =
    object_text 0 False (map (\<lambda>x. (print_string_ptr (cj_string x), render x 1 False)) (items (params_items c)))"
  using json_ok_params(1) [of c]
  by (simp add: params_json_def add_items_child cJSON_CreateObject_def cJSON_New_Item_def render_object)

lemma ex_number_lengths:
  "map (length \<circ> show_int) [0, 10, 4, 131072] = [1, 2, 1, 6]"
  by (simp add: show_int_def show_nat.simps)

lemma ex_string_lengths:
  "map (\<lambda>s. length (print_string_ptr (Some s)))
     [''tcp'', ''omit'', ''time'', ''parallel'', ''reverse'', ''len'', ''client_version'', ''3.1.3''] =
    [5, 6, 6, 10, 9, 5, 16, 7]"
  by code_simp

lemma ex_client_length: "length (render (params_json ex_client) 0 False) = 97"
  using ex_number_lengths ex_string_lengths
  by (simp add: render_params [OF ex_client_ok] ex_client_items render_named_num render_named_str render_named_true
    nul_free_def object_text_def)

definition ex_params :: string where
  "ex_params = the (cJSON_PrintUnformatted (params_json ex_client))"

definition ex_state :: "(syscall list \<Rightarrow> sysret) \<Rightarrow> iperf_test \<Rightarrow> iperf_state" where
  "ex_state orc t = \<lparr>w_oracle = orc, w_trace = [], errno = 0, h_errno = 0, i_errno = 0,
     timers = [], free_timers = [], tm_brk = 0,
     cu_last = Timeval 0 0, cu_clast = 0, cu_utime = Timeval 0 0, cu_stime = Timeval 0 0,
     tst = t, strms = (\<lambda>_. undefined), strm_brk = 0, invoke_flag = 1\<rparr>"

definition ex_server :: iperf_test where
  "ex_server = (default_test test0)\<lparr>t_role := CHR ''s'', t_protocol := Some tcp_protocol,
     t_protocols := [tcp_protocol, udp_protocol], t_ctrl_sck := 5\<rparr>"

definition ex_peer :: "syscall list \<Rightarrow> sysret" where
  "ex_peer tr = (case tr of
     SRead fd n # _ \<Rightarrow> SysRet 1 0 (if n = 4 then be32 (int (length ex_params)) else ex_params) []
   | _ \<Rightarrow> SysRet 0 0 [] [])"

lemma Nread_whole:
  assumes "read_result n (answer s (SRead fd n)) = (int n, d)" "length d = n" "0 < n" "n < 2 ^ 31"
  shows "run_state (Nread fd n) s = ((int n, d), after s (SRead fd n))"
  using assms by (simp add: Nread_def Nread_loop.simps cint_simps)

lemma ex_params_length: "length ex_params = 97"
  using ex_client_length cJSON_Print_render(2) [OF json_ok_params(1) [OF ex_client_ok]] by (simp add: ex_params_def)

lemma ex_params_text: "cJSON_PrintUnformatted (params_json ex_client) = Some ex_params"
  using cJSON_Print_render(2) [OF json_ok_params(1) [OF ex_client_ok]] by (simp add: ex_params_def)


theorem JSON_read_frame_witness:
  "\<exists>orc. fst (run_state (JSON_read 5) (ex_state orc ex_server)) = cJSON_Parse ''[]''"
proof
  let ?orc = "\<lambda>tr. case tr of SRead fd n # _ \<Rightarrow> SysRet 1 0 (if n = 4 then be32 2 else ''[]'') [] | _ \<Rightarrow> SysRet 0 0 [] []"
  define s where "s = ex_state ?orc ex_server"
  define m where "m = SMalloc (''JSON '' @ show_int (JSON_read_alloc 2))"
  have ans: "answer s (SRead 5 4) = SysRet 1 0 (be32 2) []" "answer (after s (SRead 5 4)) m = SysRet 0 0 [] []"
    "answer (after (after s (SRead 5 4)) m) (SRead 5 2) = SysRet 1 0 ''[]'' []"
    by (simp_all add: answer_def s_def ex_state_def m_def)
  have r1: "run_state (Nread 5 4) s = ((4, be32 2), after s (SRead 5 4))"
    using Nread_whole [of 4 s 5 "be32 2"] by (simp add: ans read_result_def)
  have r2: "run_state (Nread 5 2) (after (after s (SRead 5 4)) m) = ((2, ''[]''), after (after (after s (SRead 5 4)) m) (SRead 5 2))"
    using Nread_whole [of 2 "after (after s (SRead 5 4)) m" 5 "''[]''"] by (simp add: ans read_result_def)
  have "fst (run_state (JSON_read 5) s) = cJSON_Parse ''[]''"
    using JSON_read_frame [OF r1, of 2, folded m_def] r2 by (simp add: of_be_be32 ans u32_def c_str_def)
  then show "fst (run_state (JSON_read 5) (ex_state ?orc ex_server)) = cJSON_Parse ''[]''"
    by (simp only: s_def)
qed

end
