(* ===== verification/Streams.thy ===== *)
theory Streams
  imports Wire
begin

text \<open>
  The data streams of a test: the operations of the two protocols (\<open>iperf_tcp.c\<close>, \<open>iperf_udp.c\<close>), the
  creation of a stream, and the part of \<open>iperf_api.c\<close> that sends and receives on all streams and
  paces them. A stream lives at an address of \<open>strms\<close>; the list of a test's streams holds addresses.

  The buffer of a stream is the memory \<open>mmap\<close> gives: \<open>blksize\<close> random bytes and zeros up to the end of
  the page. What a read delivers overwrites the front of it. A read that ends in a hard error leaves
  the buffer as it was; the code never looks at the buffer after such an error.
\<close>

section \<open>Descriptor sets and memory\<close>

definition fd_set :: "int \<Rightarrow> int list \<Rightarrow> int list" where
  "fd_set fd fds = (if fd \<in> set fds then fds else fd # fds)"

definition fd_clr :: "int \<Rightarrow> int list \<Rightarrow> int list" where
  "fd_clr fd fds = removeAll fd fds"

definition fd_isset :: "int \<Rightarrow> int list \<Rightarrow> bool" where
  "fd_isset fd fds \<longleftrightarrow> fd \<in> set fds"

definition be64 :: "int \<Rightarrow> string" where
  "be64 n = be32 (n div 2 ^ 32) @ be32 n"

text \<open>Leave a function after a socket was opened and an address found.\<close>

definition give_up :: "int \<Rightarrow> addr \<Rightarrow> int \<Rightarrow> int iperf_m" where
  "give_up s res code = do {
     saved_errno \<leftarrow> get_errno;
     close_fd s;
     freeaddrinfo res;
     set_errno saved_errno;
     set_i_errno code;
     ret (-1) }"

text \<open>Socket options in turn; the result is the error code of the first that fails, or 0.\<close>

fun set_options :: "int \<Rightarrow> (string \<times> int \<times> int) list \<Rightarrow> int iperf_m" where
  "set_options s [] = ret 0"
| "set_options s ((name, v, code) # os) = do {
     r \<leftarrow> sys_val (SSetsockopt s name v);
     if r < 0 then ret code else set_options s os }"

definition bufsize_options :: "iperf_test \<Rightarrow> (string \<times> int \<times> int) list" where
  "bufsize_options t =
     (let opt = st_socket_bufsize (t_settings t) in
      if opt \<noteq> 0 then [(''SO_RCVBUF'', opt, IESETBUF), (''SO_SNDBUF'', opt, IESETBUF)] else [])"

definition tcp_options :: "iperf_test \<Rightarrow> (string \<times> int \<times> int) list" where
  "tcp_options t =
     (if t_no_delay t \<noteq> 0 then [(''TCP_NODELAY'', 1, IESETNODELAY)] else []) @
     (if st_mss (t_settings t) \<noteq> 0 then [(''TCP_MAXSEG'', st_mss (t_settings t), IESETMSS)] else []) @
     bufsize_options t"

text \<open>In debug mode the size of the send buffer is read back and printed.\<close>

definition debug_sndbuf :: "int \<Rightarrow> int iperf_m" where
  "debug_sndbuf s = do {
     d \<leftarrow> get_t t_debug;
     if d = 0 then ret 0
     else do {
       r \<leftarrow> syscall (SGetsockopt s ''SO_SNDBUF'');
       if sr_val r < 0 then ret IESETBUF
       else do {
         sys_do (SStdout (c_printf (''SO_SNDBUF is %u'' @ nl) [PInt (u32 (nth_int (sr_ints r) 0))]));
         ret 0 } } }"

section \<open>TCP\<close>

definition iperf_tcp_recv :: "nat \<Rightarrow> int iperf_m" where
  "iperf_tcp_recv sp = do {
     blksize \<leftarrow> get_st st_blksize;
     sck \<leftarrow> get_sp sp sp_socket;
     (r, d) \<leftarrow> Nread sck (nat blksize);
     if r < 0 then ret r
     else do {
       mod_sp sp (\<lambda>x. x\<lparr>sp_buffer := poke 0 d (sp_buffer x)\<rparr>);
       mod_sp sp (set_rp (\<lambda>rp. rp\<lparr>rp_bytes_received := u64 (rp_bytes_received rp + r),
         rp_bytes_received_this_interval := u64 (rp_bytes_received_this_interval rp + r)\<rparr>));
       ret r } }"

definition iperf_tcp_send :: "nat \<Rightarrow> int iperf_m" where
  "iperf_tcp_send sp = do {
     blksize \<leftarrow> get_st st_blksize;
     zerocopy \<leftarrow> get_t t_zerocopy;
     st \<leftarrow> get_sp sp id;
     r \<leftarrow> (if zerocopy \<noteq> 0 then Nsendfile (sp_buffer_fd st) (sp_socket st) (nat blksize)
          else Nwrite (sp_socket st) (take (nat blksize) (sp_buffer st)));
     if r < 0 then ret r
     else do {
       mod_sp sp (set_rp (\<lambda>rp. rp\<lparr>rp_bytes_sent := u64 (rp_bytes_sent rp + r),
         rp_bytes_sent_this_interval := u64 (rp_bytes_sent_this_interval rp + r)\<rparr>));
       ret r } }"

text \<open>
  The cookie is read into 37 bytes of the stack; when fewer arrive the others are what was there.
  A stranger's connection is told so and closed, and its descriptor is returned all the same.
\<close>

definition iperf_tcp_accept :: "int iperf_m" where
  "iperf_tcp_accept = do {
     listener \<leftarrow> get_t t_listener;
     s \<leftarrow> sys_val (SAccept listener);
     if s < 0 then do { set_i_errno IESTREAMCONNECT; ret (-1) }
     else do {
       (r, d) \<leftarrow> Nread s COOKIE_SIZE;
       if r < 0 then do { set_i_errno IERECVCOOKIE; ret (-1) }
       else do {
         rest \<leftarrow> (if length d < COOKIE_SIZE
                 then do { g \<leftarrow> syscall (SUninit (COOKIE_SIZE - length d)); ret (sr_data g) } else ret []);
         mine \<leftarrow> get_t t_cookie;
         if c_str mine \<noteq> c_str (d @ rest) then do {
           w \<leftarrow> Nwrite s [byte_of ACCESS_DENIED];
           if w < 0 then do { set_i_errno IESENDMESSAGE; ret (-1) }
           else do { close_fd s; ret s } }
         else ret s } } }"

definition iperf_tcp_listen :: "int iperf_m" where
  "iperf_tcp_listen = do {
     t \<leftarrow> get_t id;
     let st = t_settings t;
     if t_no_delay t \<noteq> 0 \<or> st_mss st \<noteq> 0 \<or> st_socket_bufsize st \<noteq> 0 then do {
       mod_t (\<lambda>t. t\<lparr>t_read_set := fd_clr (t_listener t) (t_read_set t)\<rparr>);
       close_fd (t_listener t);
       a \<leftarrow> getaddrinfo (t_bind_address t) (Some (t_server_port t))
              (if st_domain st = AF_UNSPEC \<and> t_bind_address t = None then AF_INET6 else st_domain st) SOCK_STREAM;
       case a of
         None \<Rightarrow> do { set_i_errno IESTREAMLISTEN; ret (-1) }
       | Some res \<Rightarrow> do {
           s \<leftarrow> sys_val (SSocket (ai_family res) SOCK_STREAM);
           if s < 0 then do { freeaddrinfo res; set_i_errno IESTREAMLISTEN; ret (-1) }
           else do {
             e1 \<leftarrow> set_options s (tcp_options t);
             if e1 \<noteq> 0 then give_up s res e1
             else do {
               e2 \<leftarrow> debug_sndbuf s;
               if e2 \<noteq> 0 then give_up s res e2
               else do {
                 e3 \<leftarrow> set_options s
                   ((''SO_REUSEADDR'', 1, IEREUSEADDR) #
                    (if ai_family res = AF_INET6 \<and> (st_domain st = AF_UNSPEC \<or> st_domain st = AF_INET)
                     then [(''IPV6_V6ONLY'', if st_domain st = AF_UNSPEC then 0 else 1, IEV6ONLY)] else []));
                 if e3 \<noteq> 0 then give_up s res e3
                 else do {
                   b \<leftarrow> sys_val (SBind s (ai_addr res) None);
                   if b < 0 then give_up s res IESTREAMLISTEN
                   else do {
                     freeaddrinfo res;
                     l \<leftarrow> sys_val (SListen s 5);
                     if l < 0 then do { set_i_errno IESTREAMLISTEN; ret (-1) }
                     else do {
                       mod_t (\<lambda>t. t\<lparr>t_listener := s\<rparr>);
                       ret s } } } } } } } }
     else ret (t_listener t) }"

text \<open>\<open>iperf_tcp_connect\<close> once the addresses are known and the socket is bound.\<close>

definition tcp_connect_bound :: "int \<Rightarrow> addr \<Rightarrow> int iperf_m" where
  "tcp_connect_bound s server_res = do {
     t \<leftarrow> get_t id;
     e1 \<leftarrow> set_options s (tcp_options t);
     if e1 \<noteq> 0 then give_up s server_res e1
     else do {
       e2 \<leftarrow> debug_sndbuf s;
       if e2 \<noteq> 0 then give_up s server_res e2
       else do {
         c \<leftarrow> sys_val (SConnect s (ai_addr server_res) (t_server_port t));
         e \<leftarrow> get_errno;
         if c < 0 \<and> e \<noteq> EINPROGRESS then give_up s server_res IESTREAMCONNECT
         else do {
           freeaddrinfo server_res;
           w \<leftarrow> Nwrite s (take COOKIE_SIZE (t_cookie t));
           if w < 0 then do {
             saved_errno \<leftarrow> get_errno;
             close_fd s;
             set_errno saved_errno;
             set_i_errno IESENDCOOKIE;
             ret (-1) }
           else ret s } } } }"

definition tcp_connect_to :: "addr option \<Rightarrow> int iperf_m" where
  "tcp_connect_to local_res = do {
     t \<leftarrow> get_t id;
     a \<leftarrow> getaddrinfo (t_server_hostname t) (Some (t_server_port t)) (st_domain (t_settings t)) SOCK_STREAM;
     case a of
       None \<Rightarrow> do {
         (case local_res of None \<Rightarrow> skip_m | Some l \<Rightarrow> freeaddrinfo l);
         set_i_errno IESTREAMCONNECT;
         ret (-1) }
     | Some server_res \<Rightarrow> do {
         s \<leftarrow> sys_val (SSocket (ai_family server_res) SOCK_STREAM);
         if s < 0 then do {
           (case local_res of None \<Rightarrow> skip_m | Some l \<Rightarrow> freeaddrinfo l);
           freeaddrinfo server_res;
           set_i_errno IESTREAMCONNECT;
           ret (-1) }
         else
           (case local_res of
              None \<Rightarrow> tcp_connect_bound s server_res
            | Some l \<Rightarrow> do {
                b \<leftarrow> sys_val (SBind s (ai_addr l) (Some (t_bind_port t)));
                if b < 0 then do {
                  saved_errno \<leftarrow> get_errno;
                  close_fd s;
                  freeaddrinfo l;
                  freeaddrinfo server_res;
                  set_errno saved_errno;
                  set_i_errno IESTREAMCONNECT;
                  ret (-1) }
                else do {
                  freeaddrinfo l;
                  tcp_connect_bound s server_res } }) } }"

definition iperf_tcp_connect :: "int iperf_m" where
  "iperf_tcp_connect = do {
     t \<leftarrow> get_t id;
     case t_bind_address t of
       None \<Rightarrow> tcp_connect_to None
     | Some b \<Rightarrow> do {
         a \<leftarrow> getaddrinfo (Some b) None (st_domain (t_settings t)) SOCK_STREAM;
         case a of
           None \<Rightarrow> do { set_i_errno IESTREAMCONNECT; ret (-1) }
         | Some l \<Rightarrow> tcp_connect_to (Some l) } }"

section \<open>UDP\<close>

text \<open>
  The header of a datagram: the time it was sent and its number, which is 64 bits wide when both
  sides agreed on that.
\<close>

definition udp_header :: "bool \<Rightarrow> timeval \<Rightarrow> int \<Rightarrow> string" where
  "udp_header wide tv pcount =
     be32 (tv_sec tv) @ be32 (tv_usec tv) @ (if wide then be64 pcount else be32 pcount)"

definition udp_parse :: "bool \<Rightarrow> string \<Rightarrow> timeval \<times> int" where
  "udp_parse wide buf =
     (Timeval (of_be (take 4 buf)) (of_be (take 4 (drop 4 buf))),
      of_be (take (if wide then 8 else 4) (drop 8 buf)))"

text \<open>
  The number of a datagram against the highest one seen. The sum is one of 32 bits and is compared
  as a 64-bit number.
\<close>

definition udp_next :: "iperf_stream \<Rightarrow> int" where
  "udp_next sp = u64 (i32 (sp_packet_count sp + 1))"

definition udp_count :: "int \<Rightarrow> iperf_stream \<Rightarrow> iperf_stream" where
  "udp_count pcount sp =
     (if udp_next sp \<le> pcount then
        (let sp1 = (if udp_next sp < pcount
                    then sp\<lparr>sp_cnt_error := i32 (sp_cnt_error sp + (pcount - 1 - sp_packet_count sp))\<rparr> else sp)
         in sp1\<lparr>sp_packet_count := i32 pcount\<rparr>)
      else sp\<lparr>sp_outoforder_packets := i32 (sp_outoforder_packets sp + 1)\<rparr>)"

definition udp_jitter :: "timeval \<Rightarrow> timeval \<Rightarrow> iperf_stream \<Rightarrow> iperf_stream" where
  "udp_jitter sent_time arrival_time sp =
     (let transit = timeval_diff sent_time arrival_time;
          d0 = d_sub transit (sp_prev_transit sp);
          d = (if d_lt d0 (Fin 0) then d_neg d0 else d0)
      in sp\<lparr>sp_prev_transit := transit,
            sp_jitter := d_add (sp_jitter sp) (d_div (d_sub d (sp_jitter sp)) (Fin 16))\<rparr>)"

definition iperf_udp_recv :: "nat \<Rightarrow> int iperf_m" where
  "iperf_udp_recv sp = do {
     size \<leftarrow> get_st st_blksize;
     sck \<leftarrow> get_sp sp sp_socket;
     (r, d) \<leftarrow> Nread sck (nat size);
     if r \<le> 0 then ret r
     else do {
       mod_sp sp (\<lambda>x. x\<lparr>sp_buffer := poke 0 d (sp_buffer x)\<rparr>);
       mod_sp sp (set_rp (\<lambda>rp. rp\<lparr>rp_bytes_received := u64 (rp_bytes_received rp + r),
         rp_bytes_received_this_interval := u64 (rp_bytes_received_this_interval rp + r)\<rparr>));
       wide \<leftarrow> get_t t_udp_counters_64bit;
       buf \<leftarrow> get_sp sp sp_buffer;
       let hd = udp_parse (wide \<noteq> 0) buf;
       st \<leftarrow> get_sp sp id;
       mod_sp sp (udp_count (snd hd));
       when_m (\<not> udp_next st \<le> snd hd)
         (iperf_err True ''OUT OF ORDER - incoming packet = %zu and received packet = %d AND SP = %d''
           [PInt (snd hd), PInt (sp_packet_count st), PInt sck]);
       (_, arrival_time) \<leftarrow> gettimeofday;
       mod_sp sp (udp_jitter (fst hd) arrival_time);
       debug \<leftarrow> get_t t_debug;
       pc \<leftarrow> get_sp sp sp_packet_count;
       when_m (debug \<noteq> 0) (sys_do (SStderr (c_printf (''packet_count %d'' @ nl) [PInt pc])));
       ret r } }"

definition iperf_udp_send :: "nat \<Rightarrow> int iperf_m" where
  "iperf_udp_send sp = do {
     size \<leftarrow> get_st st_blksize;
     (_, before) \<leftarrow> gettimeofday;
     mod_sp sp (\<lambda>x. x\<lparr>sp_packet_count := i32 (sp_packet_count x + 1)\<rparr>);
     wide \<leftarrow> get_t t_udp_counters_64bit;
     mod_sp sp (\<lambda>x. x\<lparr>sp_buffer := poke 0 (udp_header (wide \<noteq> 0) before (sp_packet_count x)) (sp_buffer x)\<rparr>);
     st \<leftarrow> get_sp sp id;
     r \<leftarrow> Nwrite (sp_socket st) (take (nat size) (sp_buffer st));
     if r < 0 then ret r
     else do {
       mod_sp sp (set_rp (\<lambda>rp. rp\<lparr>rp_bytes_sent := u64 (rp_bytes_sent rp + r),
         rp_bytes_sent_this_interval := u64 (rp_bytes_sent_this_interval rp + r)\<rparr>));
       ret r } }"

text \<open>The four bytes of an \<open>int\<close> in memory, on the little-endian processors of the target.\<close>

definition le32 :: "int \<Rightarrow> string" where
  "le32 n = rev (be32 n)"

definition iperf_udp_accept :: "int iperf_m" where
  "iperf_udp_accept = do {
     s \<leftarrow> get_t t_prot_listener;
     (sz, _) \<leftarrow> sys_recv s 4;
     if sz < 0 then do { set_i_errno IESTREAMACCEPT; ret (-1) }
     else do {
       c \<leftarrow> sys_val (SConnectPeer s);
       if c < 0 then do { set_i_errno IESTREAMACCEPT; ret (-1) }
       else do {
         t \<leftarrow> get_t id;
         e \<leftarrow> set_options s (bufsize_options t);
         if e \<noteq> 0 then do { set_i_errno e; ret (-1) }
         else do {
           l \<leftarrow> netannounce (st_domain (t_settings t)) Pudp (t_bind_address t) (t_server_port t);
           mod_t (\<lambda>t. t\<lparr>t_prot_listener := l\<rparr>);
           if l < 0 then do { set_i_errno IESTREAMLISTEN; ret (-1) }
           else do {
             mod_t (\<lambda>t. t\<lparr>t_read_set := fd_set l (t_read_set t),
               t_max_fd := (if t_max_fd t < l then l else t_max_fd t)\<rparr>);
             w \<leftarrow> sys_write s (le32 987654321);
             if w < 0 then do { set_i_errno IESTREAMWRITE; ret (-1) }
             else ret s } } } } }"

definition iperf_udp_listen :: "int iperf_m" where
  "iperf_udp_listen = do {
     t \<leftarrow> get_t id;
     s \<leftarrow> netannounce (st_domain (t_settings t)) Pudp (t_bind_address t) (t_server_port t);
     if s < 0 then do { set_i_errno IESTREAMLISTEN; ret (-1) } else ret s }"

definition iperf_udp_connect :: "int iperf_m" where
  "iperf_udp_connect = do {
     t \<leftarrow> get_t id;
     s \<leftarrow> netdial (st_domain (t_settings t)) Pudp (t_bind_address t) (t_bind_port t)
            (t_server_hostname t) (t_server_port t);
     if s < 0 then do { set_i_errno IESTREAMCONNECT; ret (-1) }
     else do {
       e \<leftarrow> set_options s (bufsize_options t);
       if e \<noteq> 0 then do { set_i_errno e; ret (-1) }
       else do {
         sys_do (SSetsockopt s ''SO_RCVTIMEO'' 30);
         w \<leftarrow> sys_write s (le32 123456789);
         if w < 0 then do { set_i_errno IESTREAMWRITE; ret (-1) }
         else do {
           (sz, _) \<leftarrow> sys_recv s 4;
           if sz < 0 then do { set_i_errno IESTREAMREAD; ret (-1) }
           else ret s } } } }"

definition iperf_udp_init :: "int iperf_m" where
  "iperf_udp_init = ret 0"

section \<open>The operations of the test's protocol\<close>

text \<open>A call through a null pointer crashes.\<close>

definition null_call :: "int iperf_m" where
  "null_call = do { sys_do (SCrash ''null function''); ret (-1) }"

definition protocol_call :: "int iperf_m \<Rightarrow> int iperf_m \<Rightarrow> int iperf_m" where
  "protocol_call tcp udp = do {
     p \<leftarrow> get_t t_protocol;
     case p of
       None \<Rightarrow> null_call
     | Some pr \<Rightarrow> (case pr_fns pr of Tcp_fns \<Rightarrow> tcp | Udp_fns \<Rightarrow> udp) }"

definition protocol_accept :: "int iperf_m" where
  "protocol_accept = protocol_call iperf_tcp_accept iperf_udp_accept"

definition protocol_listen :: "int iperf_m" where
  "protocol_listen = protocol_call iperf_tcp_listen iperf_udp_listen"

definition protocol_connect :: "int iperf_m" where
  "protocol_connect = protocol_call iperf_tcp_connect iperf_udp_connect"

text \<open>TCP has no \<open>init\<close>.\<close>

definition protocol_init :: "int iperf_m" where
  "protocol_init = protocol_call (ret 0) iperf_udp_init"

definition protocol_io :: "iperf_test \<Rightarrow> io_fn" where
  "protocol_io t = (case t_protocol t of None \<Rightarrow> Io_null
     | Some p \<Rightarrow> (case pr_fns p of Tcp_fns \<Rightarrow> Tcp_io | Udp_fns \<Rightarrow> Udp_io))"

text \<open>\<open>snd2\<close> and \<open>rcv2\<close>, and with \<open>-F\<close> the routines around them.\<close>

definition stream_snd2 :: "nat \<Rightarrow> io_fn \<Rightarrow> int iperf_m" where
  "stream_snd2 sp f = (case f of Tcp_io \<Rightarrow> iperf_tcp_send sp | Udp_io \<Rightarrow> iperf_udp_send sp | _ \<Rightarrow> null_call)"

definition stream_rcv2 :: "nat \<Rightarrow> io_fn \<Rightarrow> int iperf_m" where
  "stream_rcv2 sp f = (case f of Tcp_io \<Rightarrow> iperf_tcp_recv sp | Udp_io \<Rightarrow> iperf_udp_recv sp | _ \<Rightarrow> null_call)"

definition diskfile_send :: "nat \<Rightarrow> int iperf_m" where
  "diskfile_send sp = do {
     blksize \<leftarrow> get_st st_blksize;
     st \<leftarrow> get_sp sp id;
     (r, d) \<leftarrow> sys_read (sp_diskfile_fd st) (nat blksize);
     mod_sp sp (\<lambda>x. x\<lparr>sp_buffer := poke 0 d (sp_buffer x)\<rparr>);
     if r = 0 then do { mod_t (\<lambda>t. t\<lparr>t_done := 1\<rparr>); ret r }
     else stream_snd2 sp (sp_snd2 st) }"

definition diskfile_recv :: "nat \<Rightarrow> int iperf_m" where
  "diskfile_recv sp = do {
     f \<leftarrow> get_sp sp sp_rcv2;
     r \<leftarrow> stream_rcv2 sp f;
     st \<leftarrow> get_sp sp id;
     when_m (0 < r) (do {
       _ \<leftarrow> sys_write (sp_diskfile_fd st) (take (nat r) (sp_buffer st));
       sys_do (SFsync (sp_diskfile_fd st)) });
     ret r }"

definition stream_snd :: "nat \<Rightarrow> int iperf_m" where
  "stream_snd sp = do {
     f \<leftarrow> get_sp sp sp_snd;
     if f = Diskfile_io then diskfile_send sp else stream_snd2 sp f }"

definition stream_rcv :: "nat \<Rightarrow> int iperf_m" where
  "stream_rcv sp = do {
     f \<leftarrow> get_sp sp sp_rcv;
     if f = Diskfile_io then diskfile_recv sp else stream_rcv2 sp f }"

section \<open>Creating a stream\<close>

definition result0 :: iperf_stream_result where
  "result0 = \<lparr>rp_bytes_received = 0, rp_bytes_sent = 0, rp_bytes_received_this_interval = 0,
     rp_bytes_sent_this_interval = 0, rp_bytes_sent_omit = 0, rp_stream_prev_total_retrans = 0,
     rp_stream_retrans = 0, rp_stream_max_rtt = 0, rp_stream_min_rtt = 0, rp_stream_sum_rtt = 0,
     rp_stream_count_rtt = 0, rp_stream_max_snd_cwnd = 0, rp_start_time = Timeval 0 0,
     rp_end_time = Timeval 0 0, rp_start_time_fixed = Timeval 0 0, rp_interval_results = []\<rparr>"

definition stream0 :: iperf_stream where
  "stream0 = \<lparr>sp_socket = 0, sp_id = 0, sp_result = result0, sp_send_timer = None, sp_green_light = 0,
     sp_buffer_fd = 0, sp_buffer = [], sp_diskfile_fd = 0, sp_packet_count = 0,
     sp_omitted_packet_count = 0, sp_jitter = Fin 0, sp_prev_transit = Fin 0, sp_outoforder_packets = 0,
     sp_omitted_outoforder_packets = 0, sp_cnt_error = 0, sp_omitted_cnt_error = 0,
     sp_local_addr = ('''', 0), sp_remote_addr = ('''', 0), sp_rcv = Io_null, sp_snd = Io_null,
     sp_rcv2 = Io_null, sp_snd2 = Io_null\<rparr>"

fun random_bytes :: "nat \<Rightarrow> string iperf_m" where
  "random_bytes 0 = ret []"
| "random_bytes (Suc n) = do {
     r \<leftarrow> sys_val SRandom;
     rs \<leftarrow> random_bytes n;
     ret (byte_of r # rs) }"

text \<open>Pages of 4096 bytes.\<close>

definition page_pad :: "string \<Rightarrow> string" where
  "page_pad b = b @ replicate ((4096 - length b mod 4096) mod 4096) CHR 0x00"

definition iperf_init_stream :: "nat \<Rightarrow> int iperf_m" where
  "iperf_init_stream sp = do {
     sck \<leftarrow> get_sp sp sp_socket;
     l \<leftarrow> syscall (SGetsockname sck);
     if sr_val l < 0 then do { set_i_errno IEINITSTREAM; ret (-1) }
     else do {
       mod_sp sp (\<lambda>x. x\<lparr>sp_local_addr := (sr_data l, nth_int (sr_ints l) 1)\<rparr>);
       p \<leftarrow> syscall (SGetpeername sck);
       if sr_val p < 0 then do { set_i_errno IEINITSTREAM; ret (-1) }
       else do {
         mod_sp sp (\<lambda>x. x\<lparr>sp_remote_addr := (sr_data p, nth_int (sr_ints p) 0)\<rparr>);
         tos \<leftarrow> get_st st_tos;
         if tos = 0 then ret 0
         else do {
           dom \<leftarrow> getsockdomain sck;
           if dom = AF_INET6 then do {
             r \<leftarrow> sys_val (SSetsockopt sck ''IPV6_TCLASS'' tos);
             if r < 0 then do { set_i_errno IESETCOS; ret (-1) } else ret 0 }
           else do {
             r \<leftarrow> sys_val (SSetsockopt sck ''IP_TOS'' tos);
             if r < 0 then do { set_i_errno IESETTOS; ret (-1) } else ret 0 } } } } }"

text \<open>The first stream gets the number 1; \<open>i\<close> starts at 2 and counts every stream there is.\<close>

definition iperf_add_stream :: "nat \<Rightarrow> unit iperf_m" where
  "iperf_add_stream sp = do {
     sps \<leftarrow> get_t t_streams;
     mod_t (\<lambda>t. t\<lparr>t_streams := t_streams t @ [sp]\<rparr>);
     mod_sp sp (\<lambda>x. x\<lparr>sp_id := (if sps = [] then 1 else foldl (\<lambda>i n. i + 1) 2 sps)\<rparr>) }"

definition stream_failed :: "int \<Rightarrow> nat option iperf_m" where
  "stream_failed code = do { set_i_errno code; ret None }"

text \<open>The stream at \<open>sp\<close> once it has a buffer.\<close>

definition new_stream_open :: "nat \<Rightarrow> int \<Rightarrow> nat option iperf_m" where
  "new_stream_open sp s = do {
     t \<leftarrow> get_t id;
     let blksize = st_blksize (t_settings t);
     mod_sp sp (\<lambda>x. x\<lparr>sp_socket := s, sp_snd := protocol_io t, sp_rcv := protocol_io t\<rparr>);
     fd \<leftarrow> (case t_diskfile_name t of
              None \<Rightarrow> do { mod_sp sp (\<lambda>x. x\<lparr>sp_diskfile_fd := -1\<rparr>); ret 0 }
            | Some f \<Rightarrow> do {
                fd \<leftarrow> sys_val (SOpen f (if t_sender t \<noteq> 0 then ''r'' else ''w''));
                mod_sp sp (\<lambda>x. x\<lparr>sp_diskfile_fd := fd\<rparr>);
                when_m (fd \<noteq> -1)
                  (mod_sp sp (\<lambda>x. x\<lparr>sp_snd2 := sp_snd x, sp_snd := Diskfile_io,
                                     sp_rcv2 := sp_rcv x, sp_rcv := Diskfile_io\<rparr>));
                ret fd });
     if fd = -1 then do {
       set_i_errno IEFILE;
       sys_do (SMunmap blksize);
       ret None }
     else do {
       r \<leftarrow> iperf_init_stream sp;
       if r < 0 then do {
         bfd \<leftarrow> get_sp sp sp_buffer_fd;
         close_fd bfd;
         sys_do (SMunmap blksize);
         ret None }
       else do {
         iperf_add_stream sp;
         ret (Some sp) } } }"

definition stream_template :: "iperf_test \<Rightarrow> string" where
  "stream_template t = take 1023 (case t_tmp_template t of Some x \<Rightarrow> x | None \<Rightarrow> ''/tmp/iperf3.XXXXXX'')"

definition iperf_new_stream :: "int \<Rightarrow> nat option iperf_m" where
  "iperf_new_stream s = do {
     t \<leftarrow> get_t id;
     let blksize = st_blksize (t_settings t);
     modify (\<lambda>s. s\<lparr>h_errno := 0\<rparr>);
     ok \<leftarrow> sys_malloc ''iperf_stream'';
     if \<not> ok then stream_failed IECREATESTREAM
     else do {
       ok2 \<leftarrow> sys_malloc ''iperf_stream_result'';
       if \<not> ok2 then stream_failed IECREATESTREAM
       else do {
         sp \<leftarrow> gets strm_brk;
         modify (\<lambda>s. s\<lparr>strm_brk := Suc sp\<rparr>);
         mod_sp sp (\<lambda>_. stream0);
         m \<leftarrow> syscall (SMkstemp (stream_template t));
         mod_sp sp (\<lambda>x. x\<lparr>sp_buffer_fd := sr_val m\<rparr>);
         if sr_val m = -1 then stream_failed IECREATESTREAM
         else do {
           u \<leftarrow> sys_val (SUnlink (sr_data m));
           if u < 0 then stream_failed IECREATESTREAM
           else do {
             f \<leftarrow> sys_val (SFtruncate (sr_val m) blksize);
             if f < 0 then stream_failed IECREATESTREAM
             else do {
               mm \<leftarrow> sys_val (SMmap (sr_val m) blksize);
               if mm < 0 then stream_failed IECREATESTREAM
               else do {
                 _ \<leftarrow> sys_val STime;
                 bytes \<leftarrow> random_bytes (nat blksize);
                 mod_sp sp (\<lambda>x. x\<lparr>sp_buffer := page_pad bytes\<rparr>);
                 new_stream_open sp s } } } } } } }"

section \<open>Pacing, sending and receiving\<close>

definition iperf_check_throttle :: "nat \<Rightarrow> timeval \<Rightarrow> unit iperf_m" where
  "iperf_check_throttle sp now = do {
     t \<leftarrow> get_t id;
     when_m (t_done t = 0) (do {
       st \<leftarrow> get_sp sp id;
       let seconds = timeval_diff (rp_start_time_fixed (sp_result st)) now;
       let bits_per_second = d_to_u64 (d_div (d_of_int (u64 (rp_bytes_sent (sp_result st) * 8))) seconds);
       if bits_per_second < st_rate (t_settings t) then do {
         mod_sp sp (\<lambda>x. x\<lparr>sp_green_light := 1\<rparr>);
         mod_t (\<lambda>t. t\<lparr>t_write_set := fd_set (sp_socket st) (t_write_set t)\<rparr>) }
       else do {
         mod_sp sp (\<lambda>x. x\<lparr>sp_green_light := 0\<rparr>);
         mod_t (\<lambda>t. t\<lparr>t_write_set := fd_clr (sp_socket st) (t_write_set t)\<rparr>) } }) }"

definition send_multi :: "iperf_test \<Rightarrow> int" where
  "send_multi t =
     (if st_burst (t_settings t) \<noteq> 0 then st_burst (t_settings t)
      else if st_rate (t_settings t) = 0 then t_multisend t else 1)"

definition may_send :: "iperf_test \<Rightarrow> iperf_stream \<Rightarrow> int list option \<Rightarrow> bool" where
  "may_send t sp write_set \<longleftrightarrow> t_no_fq_socket_pacing t = 0 \<or>
     (sp_green_light sp \<noteq> 0 \<and> (case write_set of None \<Rightarrow> True | Some w \<Rightarrow> fd_isset (sp_socket sp) w))"

definition paced :: "iperf_test \<Rightarrow> bool" where
  "paced t \<longleftrightarrow> st_rate (t_settings t) \<noteq> 0 \<and> st_burst (t_settings t) = 0"

text \<open>Enough was sent: the two \<open>break\<close>s at the end of the loop over the streams.\<close>

definition send_enough :: "nat \<Rightarrow> iperf_test \<Rightarrow> bool" where
  "send_enough multisend t \<longleftrightarrow>
     (1 < multisend \<and> st_bytes (t_settings t) \<noteq> 0 \<and> st_bytes (t_settings t) \<le> t_bytes_sent t) \<or>
     (1 < multisend \<and> st_blocks (t_settings t) \<noteq> 0 \<and> st_blocks (t_settings t) \<le> t_blocks_sent t)"

definition count_block :: "int \<Rightarrow> iperf_test \<Rightarrow> iperf_test" where
  "count_block r t = t\<lparr>t_bytes_sent := u64 (t_bytes_sent t + r), t_blocks_sent := u64 (t_blocks_sent t + 1)\<rparr>"

text \<open>One round over the streams: the value the function returns at once, if any, and \<open>streams_active\<close>.\<close>

fun send_streams ::
  "nat \<Rightarrow> timeval \<Rightarrow> int list option \<Rightarrow> nat list \<Rightarrow> bool \<Rightarrow> (int option \<times> bool) iperf_m" where
  "send_streams multisend now write_set [] active = ret (None, active)"
| "send_streams multisend now write_set (sp # sps) active = do {
     t \<leftarrow> get_t id;
     st \<leftarrow> get_sp sp id;
     if may_send t st write_set then do {
       r \<leftarrow> stream_snd sp;
       if r < 0 then
         (if r = NET_SOFTERROR then ret (None, active)
          else do { set_i_errno IESTREAMWRITE; ret (Some r, active) })
       else do {
         mod_t (count_block r);
         when_m (paced t) (iperf_check_throttle sp now);
         t1 \<leftarrow> get_t id;
         if send_enough multisend t1 then ret (None, True)
         else send_streams multisend now write_set sps True } }
     else send_streams multisend now write_set sps active }"

fun send_rounds :: "nat \<Rightarrow> timeval \<Rightarrow> int list option \<Rightarrow> int option iperf_m" where
  "send_rounds 0 now write_set = ret None"
| "send_rounds (Suc m) now write_set = do {
     t \<leftarrow> get_t id;
     now1 \<leftarrow> (if paced t then do { (_, n) \<leftarrow> gettimeofday; ret n } else ret now);
     (r, active) \<leftarrow> send_streams (Suc m) now1 write_set (t_streams t) False;
     case r of
       Some v \<Rightarrow> ret (Some v)
     | None \<Rightarrow> if \<not> active then ret None else send_rounds m now1 write_set }"

text \<open>The second component of the result is the caller's write set afterwards.\<close>

definition iperf_send :: "int list option \<Rightarrow> (int \<times> int list option) iperf_m" where
  "iperf_send write_set = do {
     t \<leftarrow> get_t id;
     r \<leftarrow> send_rounds (nat (send_multi t)) (Timeval 0 0) write_set;
     case r of
       Some v \<Rightarrow> ret (v, write_set)
     | None \<Rightarrow> do {
         when_m (st_burst (t_settings t) \<noteq> 0) (do {
           (_, now) \<leftarrow> gettimeofday;
           foreach_m (t_streams t) (\<lambda>sp. iperf_check_throttle sp now) });
         h \<leftarrow> gets strms;
         ret (0, map_option (\<lambda>w. foldl (\<lambda>w sp. fd_clr (sp_socket (h sp)) w) w (t_streams t)) write_set) } }"

fun recv_streams :: "int list \<Rightarrow> nat list \<Rightarrow> (int \<times> int list) iperf_m" where
  "recv_streams read_set [] = ret (0, read_set)"
| "recv_streams read_set (sp # sps) = do {
     st \<leftarrow> get_sp sp id;
     if fd_isset (sp_socket st) read_set then do {
       r \<leftarrow> stream_rcv sp;
       if r < 0 then do { set_i_errno IESTREAMREAD; ret (r, read_set) }
       else do {
         mod_t (count_block r);
         recv_streams (fd_clr (sp_socket st) read_set) sps } }
     else recv_streams read_set sps }"

definition iperf_recv :: "int list \<Rightarrow> (int \<times> int list) iperf_m" where
  "iperf_recv read_set = do {
     sps \<leftarrow> get_t t_streams;
     recv_streams read_set sps }"

section \<open>Starting a test\<close>

definition iperf_set_send_state :: "int \<Rightarrow> int iperf_m" where
  "iperf_set_send_state st = do {
     mod_t (\<lambda>t. t\<lparr>t_state := st\<rparr>);
     fd \<leftarrow> get_t t_ctrl_sck;
     r \<leftarrow> Nwrite fd [byte_of st];
     if r < 0 then do { set_i_errno IESENDMESSAGE; ret (-1) } else ret 0 }"

definition iperf_init_test :: "int iperf_m" where
  "iperf_init_test = do {
     r \<leftarrow> protocol_init;
     if r < 0 then ret (-1)
     else do {
       (g, now) \<leftarrow> gettimeofday;
       if g < 0 then do { set_i_errno IEINITTEST; ret (-1) }
       else do {
         sps \<leftarrow> get_t t_streams;
         foreach_m sps (\<lambda>sp. mod_sp sp (set_rp (\<lambda>rp. rp\<lparr>rp_start_time := now, rp_start_time_fixed := now\<rparr>)));
         iperf_on_test_start;
         ret 0 } } }"

definition send_timer_proc :: "nat \<Rightarrow> timeval \<Rightarrow> unit iperf_m" where
  "send_timer_proc sp now = iperf_check_throttle sp now"

definition iperf_create_send_timers :: "int iperf_m" where
  "iperf_create_send_timers = do {
     (g, _) \<leftarrow> gettimeofday;
     if g < 0 then do { set_i_errno IEINITTEST; ret (-1) }
     else do {
       sps \<leftarrow> get_t t_streams;
       r \<leftarrow> until_m sps (\<lambda>sp. do {
         mod_sp sp (\<lambda>x. x\<lparr>sp_green_light := 1\<rparr>);
         rate \<leftarrow> get_st st_rate;
         if rate = 0 then ret None
         else do {
           a \<leftarrow> tmr_create None Send_timer_proc (Stream_ptr sp) 100000 True;
           mod_sp sp (\<lambda>x. x\<lparr>sp_send_timer := a\<rparr>);
           if a = None then do { set_i_errno IEINITTEST; ret (Some (-1)) } else ret None } });
       ret (case r of Some v \<Rightarrow> v | None \<Rightarrow> 0) } }"

definition send_server_error :: "int iperf_m" where
  "send_server_error = do {
     r \<leftarrow> iperf_set_send_state SERVER_ERROR;
     if r \<noteq> 0 then ret (-1)
     else do {
       fd \<leftarrow> get_t t_ctrl_sck;
       ie \<leftarrow> gets i_errno;
       w1 \<leftarrow> Nwrite fd (be32 ie);
       if w1 < 0 then do { set_i_errno IECTRLWRITE; ret (-1) }
       else do {
         e \<leftarrow> get_errno;
         w2 \<leftarrow> Nwrite fd (be32 e);
         if w2 < 0 then do { set_i_errno IECTRLWRITE; ret (-1) } else ret (-1) } } }"

definition iperf_exchange_parameters :: "int iperf_m" where
  "iperf_exchange_parameters = do {
     role \<leftarrow> get_t t_role;
     if role = CHR ''c'' then do {
       r \<leftarrow> send_parameters;
       ret (if r < 0 then -1 else 0) }
     else do {
       r \<leftarrow> get_parameters;
       if r < 0 then ret (-1)
       else do {
         s \<leftarrow> protocol_listen;
         if s < 0 then send_server_error
         else do {
           mod_t (\<lambda>t. t\<lparr>t_read_set := fd_set s (t_read_set t),
             t_max_fd := (if t_max_fd t < s then s else t_max_fd t), t_prot_listener := s\<rparr>);
           c \<leftarrow> iperf_set_send_state CREATE_STREAMS;
           ret (if c \<noteq> 0 then -1 else 0) } } } }"

end
