(* ===== verification/Queue.thy ===== *)
theory Queue
  imports Streams
begin

text \<open>
  \<open>queue.h\<close>: the two kinds of lists the program uses, singly linked lists (\<open>SLIST\<close>: streams and
  protocols) and tail queues (\<open>TAILQ\<close>: intervals and lines of the server's output), as assignments to
  pointers in a heap. Everywhere else of the development they are HOL lists; here is why they may be.
  An element is an address; a heap holds one list. The macros that mark a removed element as invalid
  do nothing in this build.
\<close>

section \<open>Singly linked lists\<close>

record slist =
  slh_first :: "nat option"
  sle_next :: "nat \<Rightarrow> nat option"

definition SLIST_FIRST :: "slist \<Rightarrow> nat option" where
  "SLIST_FIRST h = slh_first h"

definition SLIST_EMPTY :: "slist \<Rightarrow> bool" where
  "SLIST_EMPTY h \<longleftrightarrow> SLIST_FIRST h = None"

definition SLIST_NEXT :: "nat \<Rightarrow> slist \<Rightarrow> nat option" where
  "SLIST_NEXT a h = sle_next h a"

definition SLIST_INIT :: "slist \<Rightarrow> slist" where
  "SLIST_INIT h = h\<lparr>slh_first := None\<rparr>"

definition SLIST_INSERT_AFTER :: "nat \<Rightarrow> nat \<Rightarrow> slist \<Rightarrow> slist" where
  "SLIST_INSERT_AFTER b a h =
     (let h1 = h\<lparr>sle_next := (sle_next h)(a := sle_next h b)\<rparr>
      in h1\<lparr>sle_next := (sle_next h1)(b := Some a)\<rparr>)"

definition SLIST_INSERT_HEAD :: "nat \<Rightarrow> slist \<Rightarrow> slist" where
  "SLIST_INSERT_HEAD a h =
     (let h1 = h\<lparr>sle_next := (sle_next h)(a := slh_first h)\<rparr>
      in h1\<lparr>slh_first := Some a\<rparr>)"

text \<open>\<open>None\<close> is the dereference of the null pointer of an empty list.\<close>

definition SLIST_REMOVE_HEAD :: "slist \<Rightarrow> slist option" where
  "SLIST_REMOVE_HEAD h = map_option (\<lambda>a. h\<lparr>slh_first := sle_next h a\<rparr>) (slh_first h)"

text \<open>\<open>SLIST_FOREACH\<close> with a body that reads only; it would not end on a circular list.\<close>

partial_function (option) slist_foreach :: "(nat \<Rightarrow> 'a \<Rightarrow> 'a) \<Rightarrow> nat option \<Rightarrow> slist \<Rightarrow> 'a \<Rightarrow> 'a option" where
  "slist_foreach f p h x =
     (case p of None \<Rightarrow> Some x | Some a \<Rightarrow> slist_foreach f (SLIST_NEXT a h) h (f a x))"

definition SLIST_FOREACH :: "(nat \<Rightarrow> 'a \<Rightarrow> 'a) \<Rightarrow> slist \<Rightarrow> 'a \<Rightarrow> 'a option" where
  "SLIST_FOREACH f h = slist_foreach f (SLIST_FIRST h) h"

text \<open>
  \<open>iperf_add_stream\<close> on the links, with the number it gives the stream. Its variables are the last
  element seen and the counter.
\<close>

definition add_stream_h :: "nat \<Rightarrow> slist \<Rightarrow> (slist \<times> int) option" where
  "add_stream_h sp h =
     (if SLIST_EMPTY h then Some (SLIST_INSERT_HEAD sp h, 1)
      else Option.bind (SLIST_FOREACH (\<lambda>n (prev, i). (Some n, i + 1)) h (None, 2))
        (\<lambda>(prev, i). map_option (\<lambda>b. (SLIST_INSERT_AFTER b sp h, i)) prev))"

section \<open>Tail queues\<close>

text \<open>
  A tail queue keeps the address of the pointer at its end, which is the head's first word or the
  \<open>next\<close> field of the last element. In both structures the word after it is an address of the same
  kind - \<open>tqh_last\<close> there, \<open>tqe_prev\<close> here - and \<open>TAILQ_LAST\<close> reads it by a cast from one to the other.
\<close>

datatype place = Head_first | Next_of nat

record tailq =
  tqh_first :: "nat option"
  tqh_last :: place
  tqe_next :: "nat \<Rightarrow> nat option"
  tqe_prev :: "nat \<Rightarrow> place"

definition at_place :: "place \<Rightarrow> tailq \<Rightarrow> nat option" where
  "at_place p h = (case p of Head_first \<Rightarrow> tqh_first h | Next_of a \<Rightarrow> tqe_next h a)"

definition after_place :: "place \<Rightarrow> tailq \<Rightarrow> place" where
  "after_place p h = (case p of Head_first \<Rightarrow> tqh_last h | Next_of a \<Rightarrow> tqe_prev h a)"

definition put_place :: "place \<Rightarrow> nat option \<Rightarrow> tailq \<Rightarrow> tailq" where
  "put_place p v h = (case p of Head_first \<Rightarrow> h\<lparr>tqh_first := v\<rparr> | Next_of a \<Rightarrow> h\<lparr>tqe_next := (tqe_next h)(a := v)\<rparr>)"

definition TAILQ_FIRST :: "tailq \<Rightarrow> nat option" where
  "TAILQ_FIRST h = tqh_first h"

definition TAILQ_NEXT :: "nat \<Rightarrow> tailq \<Rightarrow> nat option" where
  "TAILQ_NEXT a h = tqe_next h a"

definition TAILQ_LAST :: "tailq \<Rightarrow> nat option" where
  "TAILQ_LAST h = at_place (after_place (tqh_last h) h) h"

definition TAILQ_EMPTY :: "tailq \<Rightarrow> bool" where
  "TAILQ_EMPTY h \<longleftrightarrow> TAILQ_FIRST h = None"

definition TAILQ_INIT :: "tailq \<Rightarrow> tailq" where
  "TAILQ_INIT h = h\<lparr>tqh_first := None, tqh_last := Head_first\<rparr>"

definition TAILQ_INSERT_TAIL :: "nat \<Rightarrow> tailq \<Rightarrow> tailq" where
  "TAILQ_INSERT_TAIL a h =
     (let h1 = h\<lparr>tqe_next := (tqe_next h)(a := None)\<rparr>;
          h2 = h1\<lparr>tqe_prev := (tqe_prev h1)(a := tqh_last h1)\<rparr>;
          h3 = put_place (tqh_last h2) (Some a) h2
      in h3\<lparr>tqh_last := Next_of a\<rparr>)"

definition TAILQ_REMOVE :: "nat \<Rightarrow> tailq \<Rightarrow> tailq" where
  "TAILQ_REMOVE a h =
     (let h1 = (case tqe_next h a of
                  Some b \<Rightarrow> h\<lparr>tqe_prev := (tqe_prev h)(b := tqe_prev h a)\<rparr>
                | None \<Rightarrow> h\<lparr>tqh_last := tqe_prev h a\<rparr>)
      in put_place (tqe_prev h1 a) (tqe_next h1 a) h1)"

partial_function (option) tailq_foreach :: "(nat \<Rightarrow> 'a \<Rightarrow> 'a) \<Rightarrow> nat option \<Rightarrow> tailq \<Rightarrow> 'a \<Rightarrow> 'a option" where
  "tailq_foreach f p h x =
     (case p of None \<Rightarrow> Some x | Some a \<Rightarrow> tailq_foreach f (TAILQ_NEXT a h) h (f a x))"

definition TAILQ_FOREACH :: "(nat \<Rightarrow> 'a \<Rightarrow> 'a) \<Rightarrow> tailq \<Rightarrow> 'a \<Rightarrow> 'a option" where
  "TAILQ_FOREACH f h = tailq_foreach f (TAILQ_FIRST h) h"

text \<open>The loops that empty a list: as long as there is one, take out the first element.\<close>

partial_function (option) drain :: "('h \<Rightarrow> nat option) \<Rightarrow> (nat \<Rightarrow> 'h \<Rightarrow> 'h) \<Rightarrow> 'h \<Rightarrow> (nat list \<times> 'h) option" where
  "drain first take_out h =
     (case first h of
        None \<Rightarrow> Some ([], h)
      | Some a \<Rightarrow> Option.bind (drain first take_out (take_out a h)) (\<lambda>(as, h1). Some (a # as, h1)))"

section \<open>The contract\<close>

text \<open>A list in a heap: elements come in at the end and can be taken out, and the first one is at hand.\<close>

locale linked_list =
  fixes holds :: "'h \<Rightarrow> nat list \<Rightarrow> bool"
    and first :: "'h \<Rightarrow> nat option"
    and append_to :: "nat \<Rightarrow> 'h \<Rightarrow> 'h"
    and take_out :: "nat \<Rightarrow> 'h \<Rightarrow> 'h"
  assumes first_of: "holds h xs \<Longrightarrow> first h = (case xs of [] \<Rightarrow> None | a # _ \<Rightarrow> Some a)"
    and append_holds: "holds h xs \<Longrightarrow> a \<notin> set xs \<Longrightarrow> holds (append_to a h) (xs @ [a])"
    and take_first: "holds h (a # xs) \<Longrightarrow> holds (take_out a h) xs"
begin

lemma append_all: "holds h xs \<Longrightarrow> distinct (xs @ ys) \<Longrightarrow> holds (foldl (\<lambda>h a. append_to a h) h ys) (xs @ ys)"
proof (induction ys arbitrary: h xs)
  case (Cons a ys)
  then have "holds (append_to a h) (xs @ [a])" by (intro append_holds) simp_all
  with Cons.IH [of "append_to a h" "xs @ [a]"] Cons.prems show ?case by simp
qed simp

lemma drains: "holds h xs \<Longrightarrow> \<exists>h'. drain first take_out h = Some (xs, h') \<and> holds h' []"
proof (induction xs arbitrary: h)
  case Nil
  then show ?case using first_of [OF Nil] by (subst drain.simps) simp
next
  case (Cons a xs)
  obtain h' where "drain first take_out (take_out a h) = Some (xs, h')" "holds h' []"
    using Cons.IH [OF take_first [OF Cons.prems]] by blast
  then show ?case using first_of [OF Cons.prems] by (subst drain.simps) simp
qed

text \<open>First in, first out.\<close>

lemma fifo: "holds h [] \<Longrightarrow> distinct ys \<Longrightarrow>
    \<exists>h'. drain first take_out (foldl (\<lambda>h a. append_to a h) h ys) = Some (ys, h') \<and> holds h' []"
  using append_all [of h "[]" ys] drains by simp

end

section \<open>Singly linked lists are lists\<close>

fun links :: "slist \<Rightarrow> nat option \<Rightarrow> nat list \<Rightarrow> bool" where
  "links h p [] \<longleftrightarrow> p = None"
| "links h p (a # as) \<longleftrightarrow> p = Some a \<and> links h (sle_next h a) as"

definition slist_holds :: "slist \<Rightarrow> nat list \<Rightarrow> bool" where
  "slist_holds h xs \<longleftrightarrow> distinct xs \<and> links h (slh_first h) xs"

lemma links_next: "b \<notin> set xs \<Longrightarrow> links (h\<lparr>sle_next := (sle_next h)(b := v)\<rparr>) p xs = links h p xs"
  by (induction xs arbitrary: p) auto

lemma links_first [simp]: "links (h\<lparr>slh_first := v\<rparr>) p xs = links h p xs"
  by (induction xs arbitrary: p) auto

lemma links_foreach: "links h p xs \<Longrightarrow> slist_foreach f p h x = Some (fold f xs x)"
  by (induction xs arbitrary: p x) (subst slist_foreach.simps, simp add: SLIST_NEXT_def)+

lemma links_insert_after:
  "links h p (xs @ b # ys) \<Longrightarrow> distinct (xs @ b # ys) \<Longrightarrow> a \<notin> set (xs @ b # ys) \<Longrightarrow> links (SLIST_INSERT_AFTER b a h) p (xs @ b # a # ys)"
proof (induction xs arbitrary: p)
  case Nil
  then show ?case
    using links_next [of a ys h "sle_next h b"]
    by (simp add: SLIST_INSERT_AFTER_def Let_def links_next [of b ys "h\<lparr>sle_next := _\<rparr>", simplified])
next
  case (Cons x xs)
  then show ?case by (auto simp: SLIST_INSERT_AFTER_def Let_def)
qed

lemma slist_init: "slist_holds (SLIST_INIT h) []"
  by (simp add: slist_holds_def SLIST_INIT_def)

lemma slist_insert_after: "slist_holds h (xs @ b # ys) \<Longrightarrow> a \<notin> set (xs @ b # ys) \<Longrightarrow> slist_holds (SLIST_INSERT_AFTER b a h) (xs @ b # a # ys)"
  using links_insert_after [of h "slh_first h" xs b ys a]
  by (auto simp: slist_holds_def) (simp add: SLIST_INSERT_AFTER_def)

lemma slist_insert_head: "slist_holds h xs \<Longrightarrow> a \<notin> set xs \<Longrightarrow> slist_holds (SLIST_INSERT_HEAD a h) (a # xs)"
  by (simp add: slist_holds_def SLIST_INSERT_HEAD_def Let_def links_next)

lemma slist_remove_head: "slist_holds h (a # xs) \<Longrightarrow> \<exists>h'. SLIST_REMOVE_HEAD h = Some h' \<and> slist_holds h' xs"
  by (simp add: slist_holds_def SLIST_REMOVE_HEAD_def)

lemma slist_first: "slist_holds h xs \<Longrightarrow> SLIST_FIRST h = (case xs of [] \<Rightarrow> None | a # _ \<Rightarrow> Some a)"
  by (cases xs) (simp_all add: slist_holds_def SLIST_FIRST_def)

lemma slist_foreach: "slist_holds h xs \<Longrightarrow> SLIST_FOREACH f h x = Some (fold f xs x)"
  by (simp add: slist_holds_def SLIST_FOREACH_def SLIST_FIRST_def links_foreach)

lemma fold_last_count: "fold (\<lambda>n (prev, i). (Some n, i + 1)) xs (q, k) = (if xs = [] then q else Some (last xs), k + int (length xs))"
  by (induction xs arbitrary: q k) auto

lemma add_stream_holds:
  assumes "slist_holds h xs" "a \<notin> set xs"
  shows "\<exists>h'. add_stream_h a h = Some (h', if xs = [] then 1 else 2 + int (length xs)) \<and> slist_holds h' (xs @ [a])"
proof (cases xs rule: rev_cases)
  case Nil
  then show ?thesis using slist_insert_head [OF assms] slist_first [OF assms(1)]
    by (simp add: add_stream_h_def SLIST_EMPTY_def)
next
  case (snoc ys b)
  then have "\<not> SLIST_EMPTY h" using slist_first [OF assms(1)] by (cases ys) (simp_all add: SLIST_EMPTY_def)
  moreover have "SLIST_FOREACH (\<lambda>n (prev, i). (Some n, i + 1)) h (None, 2 :: int) = Some (Some b, 3 + int (length ys))"
    unfolding slist_foreach [OF assms(1)] fold_last_count using snoc by simp
  ultimately show ?thesis
    using slist_insert_after [of h ys b "[]" a] assms snoc by (simp add: add_stream_h_def)
qed

interpretation slist: linked_list slist_holds SLIST_FIRST "\<lambda>a h. fst (the (add_stream_h a h))" "\<lambda>_ h. the (SLIST_REMOVE_HEAD h)"
  by unfold_locales (use slist_first add_stream_holds slist_remove_head in fastforce)+

section \<open>Tail queues are lists\<close>

text \<open>The elements from a place on, each pointing back to where it is pointed at, and the place they end at.\<close>

fun seg :: "tailq \<Rightarrow> place \<Rightarrow> nat list \<Rightarrow> bool" where
  "seg h p [] \<longleftrightarrow> True"
| "seg h p (a # as) \<longleftrightarrow> at_place p h = Some a \<and> tqe_prev h a = p \<and> seg h (Next_of a) as"

definition end_place :: "place \<Rightarrow> nat list \<Rightarrow> place" where
  "end_place p xs = (if xs = [] then p else Next_of (last xs))"

definition tailq_holds :: "tailq \<Rightarrow> nat list \<Rightarrow> bool" where
  "tailq_holds h xs \<longleftrightarrow> distinct xs \<and> seg h Head_first xs \<and> at_place (end_place Head_first xs) h = None \<and>
     tqh_last h = end_place Head_first xs"

lemma end_place_simps [simp]: "end_place p [] = p" "end_place p (xs @ [a]) = Next_of a"
  "end_place p (a # xs) = end_place (Next_of a) xs"
  by (simp_all add: end_place_def)

lemma seg_append: "seg h p (xs @ ys) \<longleftrightarrow> seg h p xs \<and> seg h (end_place p xs) ys"
  by (induction xs arbitrary: p) (auto simp: end_place_def)

lemma seg_cong:
  "xs \<noteq> [] \<longrightarrow> at_place p h' = at_place p h \<Longrightarrow> \<forall>x \<in> set (butlast xs). tqe_next h' x = tqe_next h x \<Longrightarrow>
    \<forall>x \<in> set xs. tqe_prev h' x = tqe_prev h x \<Longrightarrow> seg h' p xs = seg h p xs"
  by (induction xs arbitrary: p) (auto simp: at_place_def split: if_splits)

lemma at_put [simp]: "at_place q (put_place p v h) = (if q = p then v else at_place q h)"
  by (auto simp: at_place_def put_place_def split: place.splits)

lemma put_fields [simp]: "tqe_prev (put_place p v h) = tqe_prev h" "tqh_last (put_place p v h) = tqh_last h"
  by (simp_all add: put_place_def split: place.split)

lemma next_at: "tqe_next h a = at_place (Next_of a) h"
  by (simp add: at_place_def)

lemma at_fields [simp]: "at_place p (h\<lparr>tqe_prev := v\<rparr>) = at_place p h" "at_place p (h\<lparr>tqh_last := w\<rparr>) = at_place p h"
  by (simp_all add: at_place_def split: place.split)

lemma tailq_init: "tailq_holds (TAILQ_INIT h) []"
  by (simp add: tailq_holds_def TAILQ_INIT_def at_place_def)

lemma tailq_insert_tail:
  assumes "tailq_holds h xs" "a \<notin> set xs"
  shows "tailq_holds (TAILQ_INSERT_TAIL a h) (xs @ [a])"
proof -
  let ?e = "end_place Head_first xs" and ?h = "TAILQ_INSERT_TAIL a h"
  have e: "tqh_last h = ?e" "?e \<noteq> Next_of a" using assms by (auto simp: tailq_holds_def end_place_def)
  then have at: "at_place q ?h = (if q = ?e then Some a else if q = Next_of a then None else at_place q h)" for q
    by (auto simp: TAILQ_INSERT_TAIL_def Let_def at_place_def put_place_def split: place.split)
  have prev: "tqe_prev ?h = (tqe_prev h)(a := ?e)" "tqh_last ?h = Next_of a"
    using e by (simp_all add: TAILQ_INSERT_TAIL_def)
  have "seg ?h Head_first xs = seg h Head_first xs"
  proof (rule seg_cong)
    show "xs \<noteq> [] \<longrightarrow> at_place Head_first ?h = at_place Head_first h" by (auto simp: at end_place_def)
    have "last xs \<notin> set (butlast xs)" if "xs \<noteq> []"
      using assms(1) that by (metis append_butlast_last_id distinct_append list.set_intros(1) disjoint_iff tailq_holds_def)
    then show "\<forall>x \<in> set (butlast xs). tqe_next ?h x = tqe_next h x"
      using assms(2) by (auto simp: next_at at end_place_def dest: in_set_butlastD split: if_splits)
    show "\<forall>x \<in> set xs. tqe_prev ?h x = tqe_prev h x" using assms(2) by (auto simp: prev)
  qed
  with assms e(2) show ?thesis by (simp add: tailq_holds_def seg_append at prev)
qed

lemma tailq_remove:
  assumes "tailq_holds h (xs @ a # ys)"
  shows "tailq_holds (TAILQ_REMOVE a h) (xs @ ys)"
proof -
  let ?p = "end_place Head_first xs" and ?h = "TAILQ_REMOVE a h"
  have d: "distinct (xs @ a # ys)" and sg: "seg h Head_first xs" "at_place ?p h = Some a" "tqe_prev h a = ?p" "seg h (Next_of a) ys"
    and fin: "at_place (end_place (Next_of a) ys) h = None" "tqh_last h = end_place (Next_of a) ys"
    using assms by (auto simp: tailq_holds_def seg_append end_place_def)
  have p: "?p \<noteq> Next_of a" "Next_of y \<noteq> ?p" if "y \<in> set ys" for y
    using d that last_in_set [of xs] by (auto simp: end_place_def disjoint_iff)
  have nx: "tqe_next h a = (case ys of [] \<Rightarrow> None | b # _ \<Rightarrow> Some b)"
    using sg(4) fin(1) by (cases ys) (simp_all add: next_at)
  have at: "at_place q ?h = (if q = ?p then tqe_next h a else at_place q h)" for q
    using sg(3) d by (auto simp: TAILQ_REMOVE_def Let_def nx split: list.split)
  have prev: "tqe_prev ?h = (case ys of [] \<Rightarrow> tqe_prev h | b # _ \<Rightarrow> (tqe_prev h)(b := ?p))"
    "tqh_last ?h = (case ys of [] \<Rightarrow> ?p | _ \<Rightarrow> tqh_last h)"
    using sg(3) by (auto simp: TAILQ_REMOVE_def Let_def nx split: list.split)
  have "seg ?h Head_first xs = seg h Head_first xs"
  proof (rule seg_cong)
    show "xs \<noteq> [] \<longrightarrow> at_place Head_first ?h = at_place Head_first h" by (auto simp: at end_place_def)
    have "last xs \<notin> set (butlast xs)" if "xs \<noteq> []"
      using d that by (metis append_butlast_last_id distinct_append list.set_intros(1) disjoint_iff)
    then show "\<forall>x \<in> set (butlast xs). tqe_next ?h x = tqe_next h x"
      by (auto simp: next_at at end_place_def split: if_splits)
    show "\<forall>x \<in> set xs. tqe_prev ?h x = tqe_prev h x" using d by (auto simp: prev split: list.split)
  qed
  moreover have "seg ?h ?p ys \<and> at_place (end_place ?p ys) ?h = None \<and> tqh_last ?h = end_place ?p ys"
  proof (cases ys)
    case Nil
    then show ?thesis using nx by (simp add: at prev)
  next
    case (Cons b zs)
    have "seg ?h (Next_of b) zs = seg h (Next_of b) zs"
      using p(2) d Cons by (intro seg_cong) (auto simp: next_at at prev dest: in_set_butlastD)
    moreover have "last ys \<in> set ys" using Cons by simp
    ultimately show ?thesis
      using sg(4) fin nx p(2) [of "last ys"] Cons by (auto simp: at prev end_place_def)
  qed
  ultimately show ?thesis
    using d sg(1) by (auto simp: tailq_holds_def seg_append end_place_def)
qed

lemma tailq_first: "tailq_holds h xs \<Longrightarrow> TAILQ_FIRST h = (case xs of [] \<Rightarrow> None | a # _ \<Rightarrow> Some a)"
  by (cases xs) (simp_all add: tailq_holds_def TAILQ_FIRST_def at_place_def)

text \<open>The cast of \<open>TAILQ_LAST\<close> finds the last element, and nothing in an empty queue.\<close>

lemma tailq_last: "tailq_holds h xs \<Longrightarrow> TAILQ_LAST h = (if xs = [] then None else Some (last xs))"
  by (cases xs rule: rev_cases) (simp_all add: tailq_holds_def TAILQ_LAST_def after_place_def seg_append)

lemma seg_foreach: "seg h p xs \<Longrightarrow> at_place (end_place p xs) h = None \<Longrightarrow>
    tailq_foreach f (at_place p h) h x = Some (fold f xs x)"
proof (induction xs arbitrary: p x)
  case (Cons a xs)
  then show ?case by (subst tailq_foreach.simps) (simp add: TAILQ_NEXT_def next_at)
qed (subst tailq_foreach.simps, simp)

lemma tailq_foreach: "tailq_holds h xs \<Longrightarrow> TAILQ_FOREACH f h x = Some (fold f xs x)"
  using seg_foreach [of h Head_first xs f x]
  by (simp add: tailq_holds_def TAILQ_FOREACH_def TAILQ_FIRST_def at_place_def)

interpretation tailq: linked_list tailq_holds TAILQ_FIRST TAILQ_INSERT_TAIL TAILQ_REMOVE
  by unfold_locales (use tailq_first tailq_insert_tail tailq_remove [of _ "[]"] in auto)

section \<open>The lists of the program\<close>

text \<open>
  C29: the tail queues are lists. Whatever a queue holds, inserting at its end appends, removing an
  element takes that element out wherever it is, and first, last and the loop over it see the list;
  the last one comes from reading an element's link as if it were the head of a queue.
\<close>

theorem tail_queue_correct:
  assumes "tailq_holds h xs"
  shows "TAILQ_FIRST h = (case xs of [] \<Rightarrow> None | a # _ \<Rightarrow> Some a) \<and> (TAILQ_EMPTY h \<longleftrightarrow> xs = []) \<and>
    TAILQ_LAST h = (if xs = [] then None else Some (last xs)) \<and> TAILQ_FOREACH f h x = Some (fold f xs x) \<and>
    (\<forall>a. a \<notin> set xs \<longrightarrow> tailq_holds (TAILQ_INSERT_TAIL a h) (xs @ [a])) \<and>
    (\<forall>a \<in> set xs. tailq_holds (TAILQ_REMOVE a h) (remove1 a xs)) \<and>
    (\<exists>h'. drain TAILQ_FIRST TAILQ_REMOVE h = Some (xs, h') \<and> tailq_holds h' [])"
proof (intro conjI)
  show "\<forall>a \<in> set xs. tailq_holds (TAILQ_REMOVE a h) (remove1 a xs)"
  proof
    fix a assume "a \<in> set xs"
    then obtain ys zs where "xs = ys @ a # zs" "a \<notin> set ys" by (meson split_list_first)
    then show "tailq_holds (TAILQ_REMOVE a h) (remove1 a xs)" using tailq_remove [of h ys a zs] assms by (simp add: remove1_append)
  qed
  show "TAILQ_EMPTY h \<longleftrightarrow> xs = []" using tailq_first [OF assms] by (cases xs) (simp_all add: TAILQ_EMPTY_def)
qed (use tailq_first [OF assms] tailq_last [OF assms] tailq_foreach [OF assms] tailq_insert_tail [OF assms] tailq.drains [OF assms]
    in simp_all)

text \<open>
  C28: \<open>iperf_add_stream\<close> on the links does what the model of it does on the list: the new stream is the
  last one, with the number the walk over the others counted, and the loop that frees the streams
  meets all of them in their order.
\<close>

theorem add_stream_refines:
  assumes "slist_holds h (t_streams (tst s))" "sp \<notin> set (t_streams (tst s))" "run_state (iperf_add_stream sp) s = ((), s')"
  shows "\<exists>h'. add_stream_h sp h = Some (h', sp_id (strms s' sp)) \<and> slist_holds h' (t_streams (tst s')) \<and>
    t_streams (tst s') = t_streams (tst s) @ [sp] \<and>
    (\<exists>h2. drain SLIST_FIRST (\<lambda>_ h. the (SLIST_REMOVE_HEAD h)) h' = Some (t_streams (tst s'), h2) \<and> slist_holds h2 [])"
proof -
  have n: "foldl (\<lambda>i n. i + 1) k xs = k + int (length xs)" for k and xs :: "nat list"
    by (induction xs arbitrary: k) simp_all
  have s': "t_streams (tst s') = t_streams (tst s) @ [sp]"
    "sp_id (strms s' sp) = (if t_streams (tst s) = [] then 1 else 2 + int (length (t_streams (tst s))))"
    using assms(3) by (auto simp: iperf_add_stream_def n)
  obtain h' where "add_stream_h sp h = Some (h', sp_id (strms s' sp))" "slist_holds h' (t_streams (tst s'))"
    using add_stream_holds [OF assms(1,2)] unfolding s' by blast
  with slist.drains [OF this(2)] s'(1) show ?thesis by simp
qed

section \<open>Instances\<close>

definition ex_queue :: tailq where
  "ex_queue = \<lparr>tqh_first = None, tqh_last = Next_of 9, tqe_next = (\<lambda>_. Some 7), tqe_prev = (\<lambda>_. Next_of 8)\<rparr>"

theorem tail_queue_correct_witness:
  "TAILQ_LAST (TAILQ_INSERT_TAIL 2 (TAILQ_INSERT_TAIL 1 (TAILQ_INIT ex_queue))) = Some 2 \<and>
   TAILQ_FOREACH (\<lambda>a n. n + a) (TAILQ_INSERT_TAIL 2 (TAILQ_INSERT_TAIL 1 (TAILQ_INIT ex_queue))) 0 = Some 3"
proof -
  have "tailq_holds (TAILQ_INSERT_TAIL 2 (TAILQ_INSERT_TAIL 1 (TAILQ_INIT ex_queue))) [1, 2]"
    using tailq_insert_tail [OF tailq_insert_tail [OF tailq_init, of 1 ex_queue], of 2] by simp
  from tail_queue_correct [OF this, of "\<lambda>a n. n + a" 0] show ?thesis by (simp add: numeral_eq_Suc)
qed

theorem add_stream_refines_witness:
  "\<exists>h'. add_stream_h 5 \<lparr>slh_first = Some 3, sle_next = (\<lambda>_. None)\<rparr> = Some (h', 3) \<and> slist_holds h' [3, 5]"
proof -
  define s where "s = ex_state (\<lambda>_. SysRet 0 0 [] []) ((default_test test0)\<lparr>t_streams := [3]\<rparr>)"
  have "slist_holds \<lparr>slh_first = Some 3, sle_next = (\<lambda>_. None)\<rparr> (t_streams (tst s))" "5 \<notin> set (t_streams (tst s))"
    by (simp_all add: s_def ex_state_def slist_holds_def)
  moreover have "run_state (iperf_add_stream 5) s = ((), snd (run_state (iperf_add_stream 5) s))"
    by (simp add: prod_eq_iff)
  moreover have "sp_id (strms (snd (run_state (iperf_add_stream 5) s)) 5) = 3" "t_streams (tst (snd (run_state (iperf_add_stream 5) s))) = [3, 5]"
    by (simp_all add: iperf_add_stream_def s_def ex_state_def)
  ultimately show ?thesis using add_stream_refines by metis
qed

end
