(* ===== verification/Errors.thy ===== *)
theory Errors
  imports Iperf
begin

text \<open>
  \<open>iperf_strerror\<close> (\<open>iperf_error.c\<close>): the text of an error code, with the reason the system gives where
  the code asks for it. The text lives in a static buffer of 256 bytes.
\<close>

definition IENOSCTP :: int where "IENOSCTP = 18"
definition IESETSCTPDISABLEFRAG :: int where "IESETSCTPDISABLEFRAG = 137"
definition IESETSCTPNSTREAM :: int where "IESETSCTPNSTREAM = 138"
definition IESETSCTPBINDX :: int where "IESETSCTPBINDX = 139"

text \<open>The flags \<open>herr\<close> and \<open>perr\<close>: neither, only \<open>perr\<close>, or both.\<close>

datatype reason = No_reason | Perr | Herr_perr

text \<open>The cases of the switch: the code, what \<open>snprintf\<close> writes, and the flags.\<close>

definition parameter_error_cases :: "(int \<times> string \<times> reason) list" where
  "parameter_error_cases =
    [(IENONE, ''no error'', No_reason),
     (IESERVCLIENT, ''cannot be both server and client'', No_reason),
     (IENOROLE, ''must either be a client (-c) or server (-s)'', No_reason),
     (IESERVERONLY, ''some option you are trying to set is server only'', No_reason),
     (IECLIENTONLY, ''some option you are trying to set is client only'', No_reason),
     (IEDURATION, c_printf ''test duration too long (maximum = %d seconds)'' [PInt MAX_TIME], No_reason),
     (IENUMSTREAMS, c_printf ''number of parallel streams too large (maximum = %d)'' [PInt MAX_STREAMS], No_reason),
     (IEBLOCKSIZE, c_printf ''block size too large (maximum = %d bytes)'' [PInt MAX_BLOCKSIZE], No_reason),
     (IEBUFSIZE, c_printf ''socket buffer size too large (maximum = %d bytes)'' [PInt MAX_TCP_BUFFER], No_reason),
     (IEINTERVAL, c_printf ''invalid report interval (min = %g, max = %g seconds)'' [PDbl MIN_INTERVAL, PDbl MAX_INTERVAL], No_reason),
     (IEBIND, ''--bind must be specified to use --cport'', No_reason),
     (IEUDPBLOCKSIZE, c_printf ''block size too large (maximum = %d bytes)'' [PInt MAX_UDP_BLOCKSIZE], No_reason),
     (IEBADTOS, ''bad TOS value (must be between 0 and 255 inclusive)'', No_reason),
     (IEMSS, c_printf ''TCP MSS too large (maximum = %d bytes)'' [PInt MAX_MSS], No_reason),
     (IENOSENDFILE, ''this OS does not support sendfile'', No_reason),
     (IEOMIT, ''bogus value for --omit'', No_reason),
     (IEUNIMP, ''an option you are trying to set is not implemented yet'', No_reason),
     (IEFILE, ''unable to open -F file'', Perr),
     (IEBURST, c_printf ''invalid burst count (maximum = %d)'' [PInt MAX_BURST], No_reason),
     (IEENDCONDITIONS, ''only one test end condition (-t, -n, -k) may be specified'', No_reason),
     (IELOGFILE, ''unable to open log file'', Perr),
     (IENOSCTP, ''no SCTP support available'', No_reason)]"

definition test_error_cases :: "(int \<times> string \<times> reason) list" where
  "test_error_cases =
    [(IENEWTEST, ''unable to create a new test'', Perr),
     (IEINITTEST, ''test initialization failed'', Perr),
     (IELISTEN, ''unable to start listener for connections'', Perr),
     (IECONNECT, ''unable to connect to server'', Perr),
     (IEACCEPT, ''unable to accept connection from client'', Herr_perr),
     (IESENDCOOKIE, ''unable to send cookie to server'', Perr),
     (IERECVCOOKIE, ''unable to receive cookie at server'', Perr),
     (IECTRLWRITE, ''unable to write to the control socket'', Perr),
     (IECTRLREAD, ''unable to read from the control socket'', Perr),
     (IECTRLCLOSE, ''control socket has closed unexpectedly'', No_reason),
     (IEMESSAGE, ''received an unknown control message'', No_reason),
     (IESENDMESSAGE, ''unable to send control message'', Perr),
     (IERECVMESSAGE, ''unable to receive control message'', Perr),
     (IESENDPARAMS, ''unable to send parameters to server'', Perr),
     (IERECVPARAMS, ''unable to receive parameters from client'', Perr),
     (IEPACKAGERESULTS, ''unable to package results'', Perr),
     (IESENDRESULTS, ''unable to send results'', Perr),
     (IERECVRESULTS, ''unable to receive results'', Perr),
     (IESELECT, ''select failed'', Perr),
     (IECLIENTTERM, ''the client has terminated'', No_reason),
     (IESERVERTERM, ''the server has terminated'', No_reason),
     (IEACCESSDENIED, ''the server is busy running a test. try again later'', No_reason),
     (IESETNODELAY, ''unable to set TCP/SCTP NODELAY'', Perr),
     (IESETMSS, ''unable to set TCP/SCTP MSS'', Perr),
     (IESETBUF, ''unable to set socket buffer size'', Perr),
     (IESETTOS, ''unable to set IP TOS'', Perr),
     (IESETCOS, ''unable to set IPv6 traffic class'', Perr),
     (IESETFLOW, ''unable to set IPv6 flow label'', No_reason),
     (IEREUSEADDR, ''unable to reuse address on socket'', Perr),
     (IENONBLOCKING, ''unable to set socket to non-blocking'', Perr),
     (IESETWINDOWSIZE, ''unable to set socket window size'', Perr),
     (IEPROTOCOL, ''protocol does not exist'', No_reason),
     (IEAFFINITY, ''unable to set CPU affinity'', Perr),
     (IEDAEMON, ''unable to become a daemon'', Perr)]"

definition stream_error_cases :: "(int \<times> string \<times> reason) list" where
  "stream_error_cases =
    [(IECREATESTREAM, ''unable to create a new stream'', Herr_perr),
     (IEINITSTREAM, ''unable to initialize stream'', Herr_perr),
     (IESTREAMLISTEN, ''unable to start stream listener'', Perr),
     (IESTREAMCONNECT, ''unable to connect stream'', Herr_perr),
     (IESTREAMACCEPT, ''unable to accept stream connection'', Perr),
     (IESTREAMWRITE, ''unable to write to stream socket'', Perr),
     (IESTREAMREAD, ''unable to read from stream socket'', Perr),
     (IESTREAMCLOSE, ''stream socket has closed unexpectedly'', No_reason),
     (IESTREAMID, ''stream has an invalid id'', No_reason),
     (IENEWTIMER, ''unable to create new timer'', Perr),
     (IEUPDATETIMER, ''unable to update timer'', Perr),
     (IESETCONGESTION, ''unable to set TCP_CONGESTION: Supplied congestion control algorithm not supported on this host'', No_reason),
     (IEPIDFILE, ''unable to write PID file'', Perr),
     (IEV6ONLY, ''Unable to set/reset IPV6_V6ONLY'', Perr),
     (IESETSCTPDISABLEFRAG, ''unable to set SCTP_DISABLE_FRAGMENTS'', Perr),
     (IESETSCTPNSTREAM, ''unable to set SCTP_INIT num of SCTP streams'' @ nl, Perr),
     (IESETPACING, ''unable to set socket pacing'', Perr)]"

definition error_cases :: "(int \<times> string \<times> reason) list" where
  "error_cases = parameter_error_cases @ test_error_cases @ stream_error_cases"

definition error_case :: "int \<Rightarrow> string \<times> reason" where
  "error_case e = (case map_of error_cases e of None \<Rightarrow> ([], No_reason) | Some c \<Rightarrow> c)"

text \<open>\<open>strncat\<close> with what is left of the buffer.\<close>

definition cat256 :: "string \<Rightarrow> string \<Rightarrow> string" where
  "cat256 s t = s @ take (255 - length s) t"

definition iperf_strerror :: "int \<Rightarrow> string iperf_m" where
  "iperf_strerror e = do {
     let (txt, why) = error_case e;
     let errstr = take 255 txt;
     let errstr1 = (if why \<noteq> No_reason then cat256 errstr '': '' else errstr);
     h \<leftarrow> gets h_errno;
     n \<leftarrow> get_errno;
     if h \<noteq> 0 \<and> why = Herr_perr then do { t \<leftarrow> hstrerror h; ret (cat256 errstr1 t) }
     else if n \<noteq> 0 \<and> why \<noteq> No_reason then do { t \<leftarrow> strerror n; ret (cat256 errstr1 t) }
     else ret errstr1 }"

end
