(* ===== verification/Extras.thy ===== *)
theory Extras
  imports Streams Errors Cjson
begin

text \<open>
  The functions of the library that nothing in the program calls: the SCTP protocol as it is compiled
  without \<open>HAVE_SCTP\<close> (\<open>iperf_sctp.c\<close>), socket options (\<open>tcp_window_size.c\<close>, \<open>net.c\<close>), \<open>delay\<close> and
  \<open>iperf_dump_fdset\<close> (\<open>iperf_util.c\<close>), and the release of an item (\<open>cjson.c\<close>).
\<close>

section \<open>SCTP\<close>

definition no_sctp :: "int iperf_m" where
  "no_sctp = do { set_i_errno IENOSCTP; ret (-1) }"

definition iperf_sctp_recv :: "nat \<Rightarrow> int iperf_m" where
  "iperf_sctp_recv sp = no_sctp"

definition iperf_sctp_send :: "nat \<Rightarrow> int iperf_m" where
  "iperf_sctp_send sp = no_sctp"

definition iperf_sctp_accept :: "int iperf_m" where
  "iperf_sctp_accept = no_sctp"

definition iperf_sctp_listen :: "int iperf_m" where
  "iperf_sctp_listen = no_sctp"

definition iperf_sctp_connect :: "int iperf_m" where
  "iperf_sctp_connect = no_sctp"

definition iperf_sctp_init :: "int iperf_m" where
  "iperf_sctp_init = no_sctp"

definition iperf_sctp_bindx :: "int \<Rightarrow> int \<Rightarrow> int iperf_m" where
  "iperf_sctp_bindx s is_server = no_sctp"

section \<open>Socket options\<close>

text \<open>A failing \<open>assert\<close> ends the process.\<close>

definition assert_m :: "bool \<Rightarrow> ('a world_scheme, unit) state" where
  "assert_m b = when_m (\<not> b) (sys_do (SCrash ''assert''))"

definition set_tcp_windowsize :: "int \<Rightarrow> int \<Rightarrow> string \<Rightarrow> ('a world_scheme, int) state" where
  "set_tcp_windowsize sock bufsize dir = do {
     assert_m (0 \<le> sock);
     if 0 < bufsize then do {
       rc \<leftarrow> sys_val (SSetsockopt sock dir bufsize);
       ret (if rc < 0 then rc else 0) }
     else ret 0 }"

definition get_tcp_windowsize :: "int \<Rightarrow> string \<Rightarrow> ('a world_scheme, int) state" where
  "get_tcp_windowsize sock dir = do {
     r \<leftarrow> syscall (SGetsockopt sock dir);
     ret (if sr_val r < 0 then sr_val r else nth_int (sr_ints r) 0) }"

definition getsock_tcp_mss :: "int \<Rightarrow> ('a world_scheme, int) state" where
  "getsock_tcp_mss inSock = do {
     assert_m (0 \<le> inSock);
     r \<leftarrow> syscall (SGetsockopt inSock ''TCP_MAXSEG'');
     if sr_val r = -1 then do { perror ''getsockopt TCP_MAXSEG''; ret (-1) }
     else ret (nth_int (sr_ints r) 0) }"

definition set_tcp_mss :: "int \<Rightarrow> int \<Rightarrow> ('a world_scheme, int) state" where
  "set_tcp_mss sock mss = do {
     assert_m (sock \<noteq> -1);
     rc \<leftarrow> sys_val (SSetsockopt sock ''TCP_MAXSEG'' mss);
     if rc = -1 then do { perror ''setsockopt TCP_MAXSEG''; ret (-1) }
     else do {
       r \<leftarrow> syscall (SGetsockopt sock ''TCP_MAXSEG'');
       if sr_val r = -1 then do { perror ''getsockopt TCP_MAXSEG''; ret (-1) }
       else if nth_int (sr_ints r) 0 \<noteq> mss then do { perror ''setsockopt value mismatch''; ret (-1) }
       else ret 0 } }"

definition set_tcp_options :: "int \<Rightarrow> int \<Rightarrow> int \<Rightarrow> ('a world_scheme, int) state" where
  "set_tcp_options sock no_delay mss = do {
     rc \<leftarrow> (if no_delay = 1 then sys_val (SSetsockopt sock ''TCP_NODELAY'' no_delay) else ret 0);
     if rc = -1 then do { perror ''setsockopt TCP_NODELAY''; ret (-1) }
     else if 0 < mss then set_tcp_mss sock mss
     else ret 0 }"

section \<open>Waiting\<close>

text \<open>The whole seconds of a time in nanoseconds, and the rest: a time below a second is taken as it is.\<close>

function delay_split :: "int \<Rightarrow> int \<Rightarrow> int \<times> int" where
  "delay_split sec ns = (if 1000000000 \<le> ns then delay_split (sec + 1) (ns - 1000000000) else (sec, ns))"
  by pat_completeness auto
termination by (relation "measure (\<lambda>(sec, ns). nat ns)") auto

text \<open>An interrupted sleep goes on with the time that was left, as long as signals come.\<close>

partial_function (option) sleep_loop :: "int \<Rightarrow> int \<Rightarrow> iperf_state \<Rightarrow> (int \<times> iperf_state) option" where
  "sleep_loop sec ns s =
     (case run_state (syscall (SNanosleep (sec * 1000000000 + ns))) s of (r, s1) \<Rightarrow>
        if sr_val r = -1 then
          (if errno s1 = EINTR then sleep_loop (nth_int (sr_ints r) 0) (nth_int (sr_ints r) 1) s1 else Some (-1, s1))
        else Some (0, s1))"

definition delay :: "int \<Rightarrow> iperf_state \<Rightarrow> (int \<times> iperf_state) option" where
  "delay ns = (case delay_split 0 ns of (sec, r) \<Rightarrow> sleep_loop sec r)"

lemma delay_split_time: "fst (delay_split sec ns) * 1000000000 + snd (delay_split sec ns) = sec * 1000000000 + ns \<and>
    (0 \<le> ns \<longrightarrow> 0 \<le> snd (delay_split sec ns) \<and> snd (delay_split sec ns) < 1000000000)"
proof (induction sec ns rule: delay_split.induct)
  case (1 sec ns)
  then show ?case by (subst (1 2 3 4) delay_split.simps) auto
qed

section \<open>Descriptor sets\<close>

text \<open>What \<open>iperf_dump_fdset\<close> writes of a set of descriptors.\<close>

definition iperf_dump_fdset :: "string \<Rightarrow> nat \<Rightarrow> int list \<Rightarrow> string" where
  "iperf_dump_fdset str nfds fds =
     str @ '': ['' @
     fst (foldl (\<lambda>(out, comma) fd. if int fd \<in> set fds then (out @ (if comma then '', '' else []) @ show_int (int fd), True)
                  else (out, comma)) ([], False) [0..<nfds]) @
     '']'' @ nl"

section \<open>Releasing an item\<close>

datatype cj_block = Cj_node | Cj_value_text | Cj_name_text

text \<open>
  The blocks \<open>cJSON_Delete\<close> frees, in its order, named by the path of their item: what hangs below a
  reference and a constant name are left alone.
\<close>

fun delete_blocks :: "nat list \<Rightarrow> cJSON \<Rightarrow> (nat list \<times> cj_block) list"
  and delete_children :: "nat list \<Rightarrow> nat \<Rightarrow> cJSON list \<Rightarrow> (nat list \<times> cj_block) list"
where
  "delete_blocks path (CJ t vs vi vd nm ch) =
     (if t AND cJSON_IsReference = 0 then delete_children path 0 ch else []) @
     (if t AND cJSON_IsReference = 0 \<and> vs \<noteq> None then [(path, Cj_value_text)] else []) @
     (if t AND cJSON_StringIsConst = 0 \<and> nm \<noteq> None then [(path, Cj_name_text)] else []) @
     [(path, Cj_node)]"
| "delete_children path i [] = []"
| "delete_children path i (c # cs) = delete_blocks (path @ [i]) c @ delete_children path (Suc i) cs"

definition cJSON_Delete :: "cJSON \<Rightarrow> (nat list \<times> cj_block) list" where
  "cJSON_Delete c = delete_blocks [] c"

lemma and_reference: "(t OR cJSON_IsReference) AND cJSON_IsReference \<noteq> 0"
proof -
  have "bit cJSON_IsReference 8" by (simp add: cJSON_IsReference_def bit_iff_odd)
  then have "bit ((t OR cJSON_IsReference) AND cJSON_IsReference) 8" by (simp add: bit_simps)
  then show ?thesis by (metis bit_0_eq bot_apply bot_bool_def)
qed

text \<open>To delete a reference frees its own node and nothing it refers to.\<close>

lemma delete_reference: "cJSON_Delete (create_reference c) = [([], Cj_node)]"
  by (cases c) (simp add: cJSON_Delete_def create_reference_def and_reference)

lemma delete_paths: "(q, b) \<in> set (delete_blocks path c) \<Longrightarrow> \<exists>r. q = path @ r"
  "(q, b) \<in> set (delete_children path i cs) \<Longrightarrow> \<exists>j r. i \<le> j \<and> q = path @ j # r"
proof (induction path c and path i cs rule: delete_blocks_delete_children.induct)
  case (1 path t vs vi vd nm ch)
  then show ?case by (auto split: if_splits)
next
  case (3 path i c cs)
  then consider r where "q = (path @ [i]) @ r" | j r where "Suc i \<le> j" "q = path @ j # r" by auto
  then show ?case
  proof cases
    case 2
    then show ?thesis using Suc_leD by blast
  qed auto
qed simp

text \<open>No block is freed twice.\<close>

lemma delete_once: "distinct (delete_blocks path c)" "distinct (delete_children path i cs)"
proof (induction path c and path i cs rule: delete_blocks_delete_children.induct)
  case (1 path t vs vi vd nm ch)
  then show ?case by (auto dest!: delete_paths(2))
next
  case (3 path i c cs)
  then show ?case by (auto dest!: delete_paths)
qed simp

end
