(* ===== verification/Cjson_Minify.thy ===== *)
theory Cjson_Minify
  imports Cjson_Roundtrip
begin

text \<open>
  \<open>cjson.c\<close>: \<open>cJSON_Minify\<close> takes the white space and the comments out of a text, in place. A text is
  a string without its NUL; \<open>None\<close> means that the function steps over the NUL and goes on in whatever
  memory follows.
\<close>

section \<open>The function\<close>

text \<open>The rest of a string literal, after its opening quote: what is copied and what is left.\<close>

fun minify_literal :: "string \<Rightarrow> (string \<times> string) option" where
  "minify_literal [] = None"
| "minify_literal (c # s) =
     (if c = CHR 0x22 then Some ([c], s)
      else if c = CHR 0x5C then
        (case s of [] \<Rightarrow> None | d # s' \<Rightarrow> map_option (map_prod (\<lambda>x. c # d # x) id) (minify_literal s'))
      else map_option (map_prod (Cons c) id) (minify_literal s))"

text \<open>The end of a comment, from its opening slash on; the two characters that end it are skipped.\<close>

fun minify_comment :: "string \<Rightarrow> string option" where
  "minify_comment [] = None"
| "minify_comment (c # s) = (if c = CHR ''*'' \<and> take 1 s = ''/'' then Some (drop 1 s) else minify_comment s)"

lemma minify_literal_shorter: "minify_literal s = Some (x, r) \<Longrightarrow> length r < length s"
proof (induction s arbitrary: x r rule: minify_literal.induct)
  case (2 c s)
  consider "c = CHR 0x22" | d s' where "c = CHR 0x5C" "s = d # s'" | "c = CHR 0x5C" "s = []" | "c \<noteq> CHR 0x22" "c \<noteq> CHR 0x5C"
    by (cases s) auto
  then show ?case
  proof cases
    case 2
    with "2.prems" "2.IH"(1) [OF _ 2] show ?thesis by (fastforce simp: less_Suc_eq)
  qed (use "2.prems" "2.IH"(2) in \<open>auto simp: less_Suc_eq\<close>)
qed simp

lemma minify_comment_shorter: "minify_comment s = Some r \<Longrightarrow> length r < length s"
  by (induction s) (auto split: if_splits)

function cJSON_Minify :: "string \<Rightarrow> string option" where
  "cJSON_Minify [] = Some []"
| "cJSON_Minify (c # s) =
     (if c = CHR '' '' \<or> c = CHR 0x09 \<or> c = CHR 0x0D \<or> c = CHR 0x0A then cJSON_Minify s
      else if c = CHR ''/'' \<and> take 1 s = ''/'' then cJSON_Minify (dropWhile (\<lambda>x. x \<noteq> CHR 0x0A) s)
      else if c = CHR ''/'' \<and> take 1 s = ''*'' then
        (case minify_comment s of None \<Rightarrow> None | Some r \<Rightarrow> cJSON_Minify r)
      else if c = CHR 0x22 then
        (case minify_literal s of None \<Rightarrow> None | Some (x, r) \<Rightarrow> map_option (\<lambda>y. c # x @ y) (cJSON_Minify r))
      else map_option (Cons c) (cJSON_Minify s))"
  by pat_completeness auto
termination
  by (relation "measure length")
    (auto simp: le_imp_less_Suc length_dropWhile_le dest: minify_literal_shorter minify_comment_shorter)

section \<open>Minified printing\<close>

definition plain_char :: "char \<Rightarrow> bool" where
  "plain_char c \<longleftrightarrow> c \<notin> {CHR '' '', CHR 0x09, CHR 0x0D, CHR 0x0A, CHR ''/'', CHR 0x22}"

lemma minify_plain: "\<forall>c \<in> set x. plain_char c \<Longrightarrow> cJSON_Minify (x @ r) = map_option ((@) x) (cJSON_Minify r)"
  by (cases "cJSON_Minify r"; induction x) (simp_all add: plain_char_def)

text \<open>Texts that the scan of a literal passes through.\<close>

definition passes :: "string \<Rightarrow> bool" where
  "passes x \<longleftrightarrow> (\<forall>s y r. minify_literal s = Some (y, r) \<longrightarrow> minify_literal (x @ s) = Some (x @ y, r))"

lemma passes_append: "passes x \<Longrightarrow> passes y \<Longrightarrow> passes (x @ y)"
  by (simp add: passes_def)

lemma passes_concat: "(\<And>x. x \<in> set xs \<Longrightarrow> passes x) \<Longrightarrow> passes (concat xs)"
  by (induction xs) (auto intro: passes_append simp: passes_def)

lemma passes_char: "c \<noteq> CHR 0x22 \<Longrightarrow> c \<noteq> CHR 0x5C \<Longrightarrow> passes [c]"
  by (simp add: passes_def)

lemma passes_pair: "passes [CHR 0x5C, d]"
  by (simp add: passes_def)

lemma hex_digit_plain: "n < 16 \<Longrightarrow> hex_digit n \<noteq> CHR 0x22 \<and> hex_digit n \<noteq> CHR 0x5C"
  using hex_val_hex_digit [of n] hex_val_plain by blast

lemma passes_escape_char: "passes (escape_char c)"
proof (cases "must_escape c")
  case False
  then show ?thesis using passes_char [of c] by (simp add: escape_char_def must_escape_def)
next
  case True
  have "(of_char c :: nat) div 16 < 16" using nat_of_char_less_256 [of c] by (simp add: less_mult_imp_div_less)
  then have "passes ([CHR 0x5C, CHR ''u''] @ concat (map (\<lambda>c. [c]) (tl (show_u4 c))))"
    by (intro passes_append passes_pair passes_concat)
      (use hex_digit_plain in \<open>auto simp: show_u4_def Let_def intro!: passes_char\<close>)
  then have "passes (CHR 0x5C # show_u4 c)" by (simp add: show_u4_def Let_def)
  with True show ?thesis using passes_pair by (simp add: escape_char_def)
qed

lemma minify_string: "cJSON_Minify (print_string_ptr vs @ r) = map_option ((@) (print_string_ptr vs)) (cJSON_Minify r)"
proof (cases vs)
  case None
  then show ?thesis by (cases "cJSON_Minify r") (simp_all add: print_string_ptr_def)
next
  case (Some v)
  have "passes (concat (map escape_char v))" by (intro passes_concat) (auto intro: passes_escape_char)
  then have "minify_literal (concat (map escape_char v) @ CHR 0x22 # r) = Some (concat (map escape_char v) @ [CHR 0x22], r)"
    by (simp add: passes_def)
  then show ?thesis
    using Some print_string_escape [of v] by (cases "cJSON_Minify r") simp_all
qed

lemma plain_digits: "is_digit c \<Longrightarrow> plain_char c"
  by (auto simp: is_digit_def plain_char_def)

lemma plain_show_nat: "c \<in> set (show_nat n) \<Longrightarrow> plain_char c"
  using show_nat_digits [of n] plain_digits by auto

lemma plain_pad: "c \<in> set (pad_left w CHR ''0'' x) \<Longrightarrow> c \<in> set x \<or> plain_char c"
  by (auto simp: pad_left_def plain_char_def)

lemma plain_number: "printable (cj_valuedouble c) \<Longrightarrow> \<forall>x \<in> set (print_number c). plain_char x"
proof -
  have p: "plain_char CHR ''-''" "plain_char CHR ''+''" "plain_char CHR ''.''" "plain_char CHR ''e''" "plain_char CHR ''0''"
    by (simp_all add: plain_char_def)
  have int: "\<forall>x \<in> set (show_int i). plain_char x" for i using plain_show_nat p by (auto simp: show_int_def)
  have fixed: "\<forall>x \<in> set (fmt_fixed k q). plain_char x" for k q
    using plain_show_nat plain_pad p by (fastforce simp: fmt_fixed_def Let_def split: if_splits)
  have exp: "\<forall>x \<in> set (fmt_exp q). plain_char x" for q
    using plain_show_nat plain_pad p by (fastforce simp: fmt_exp_def Let_def split: prod.splits if_splits)
  assume "printable (cj_valuedouble c)"
  then show ?thesis
    using int fixed exp p by (cases "cj_valuedouble c") (auto simp: print_number_def printable_def Let_def)
qed

text \<open>\<open>x\<close> is minified to \<open>y\<close>, whatever follows.\<close>

definition minifies :: "string \<Rightarrow> string \<Rightarrow> bool" where
  "minifies x y \<longleftrightarrow> (\<forall>r z. cJSON_Minify r = Some z \<longrightarrow> cJSON_Minify (x @ r) = Some (y @ z))"

named_theorems minify

lemma minifies_append [minify]: "minifies x y \<Longrightarrow> minifies x' y' \<Longrightarrow> minifies (x @ x') (y @ y')"
  by (simp add: minifies_def)

lemma minifies_Nil [minify]: "minifies [] []"
  by (simp add: minifies_def)

lemma minifies_white [minify]:
  "minifies x y \<Longrightarrow> minifies (CHR '' '' # x) y"
  "minifies x y \<Longrightarrow> minifies (CHR 0x09 # x) y"
  "minifies x y \<Longrightarrow> minifies (CHR 0x0A # x) y"
  by (simp_all add: minifies_def)

lemma minifies_plain [minify]:
  "minifies x y \<Longrightarrow> minifies (CHR '','' # x) (CHR '','' # y)"
  "minifies x y \<Longrightarrow> minifies (CHR '':'' # x) (CHR '':'' # y)"
  "minifies x y \<Longrightarrow> minifies (CHR ''['' # x) (CHR ''['' # y)"
  "minifies x y \<Longrightarrow> minifies (CHR '']'' # x) (CHR '']'' # y)"
  "minifies x y \<Longrightarrow> minifies (CHR ''{'' # x) (CHR ''{'' # y)"
  "minifies x y \<Longrightarrow> minifies (CHR ''}'' # x) (CHR ''}'' # y)"
  by (simp_all add: minifies_def)

lemma minifies_line_end [minify]: "minifies x y \<Longrightarrow> minifies (x @ [CHR 0x0A]) y"
  by (simp add: minifies_def)

lemma minifies_texts: "\<forall>c \<in> set x. plain_char c \<Longrightarrow> minifies x x" "minifies (print_string_ptr vs) (print_string_ptr vs)"
  by (simp_all add: minifies_def minify_plain minify_string)

lemma minifies_tabs [minify]: "minifies x y \<Longrightarrow> minifies (tabs n @ x) y"
  by (induction n) (auto simp: tabs_def intro: minify)

lemma minifies_array:
  "list_all2 minifies xs ys \<Longrightarrow> minifies (compose_array True xs) (compose_array False ys)"
proof (induction rule: list_all2_induct)
  case (Cons x xs y ys)
  then show ?case
    by (cases xs; cases ys) (auto intro!: minify)
qed (simp add: minifies_Nil)

lemma minifies_object:
  "list_all2 (rel_prod minifies minifies) xs ys \<Longrightarrow> minifies (compose_object d True xs) (compose_object d' False ys)"
proof (induction rule: list_all2_induct)
  case (Cons x xs y ys)
  obtain n e n' e' where p: "x = (n, e)" "y = (n', e')" by (cases x; cases y)
  have "xs \<noteq> [] \<longleftrightarrow> ys \<noteq> []" using Cons.hyps by auto
  with Cons p show ?case
    by (cases "xs = []") (auto intro!: minify)
qed (simp add: minifies_Nil)

lemma minifies_render: "json_fine c \<Longrightarrow> minifies (render c d True) (render c d' False)"
proof (induction c arbitrary: d d')
  case (CJ t vs vi vd nm ch)
  note ok = CJ.prems
  consider "t = cJSON_NULL" | "t = cJSON_False" | "t = cJSON_True" | "t = cJSON_Number" | "t = cJSON_String"
    | "t = cJSON_Array" | "t = cJSON_Object"
    using json_fine_type [OF ok] by (auto simp: json_types)
  then show ?case
  proof cases
    case 4
    then have "printable vd" using ok by (auto simp: json_types)
    with 4 ok plain_number [of "CJ t vs vi vd nm ch"] show ?thesis by (simp only: fine_cases) (simp add: minifies_texts)
  next
    case 6
    have "list_all2 minifies (map (\<lambda>c. render c (Suc d) True) ch) (map (\<lambda>c. render c (Suc d') False) ch)"
      using CJ 6 by (auto simp: json_types list_all2_conv_all_nth)
    with 6 ok minifies_array show ?thesis
      by (simp only: fine_array) (auto simp: array_text_def intro!: minify)
  next
    case 7
    have "list_all2 (rel_prod minifies minifies)
        (map (\<lambda>c. (print_string_ptr (cj_string c), render c (Suc d) True)) ch)
        (map (\<lambda>c. (print_string_ptr (cj_string c), render c (Suc d') False)) ch)"
      using CJ 7 by (auto simp: json_types list_all2_conv_all_nth minifies_texts)
    with 7 ok minifies_object show ?thesis
      by (simp only: fine_object)
        (auto simp: object_text_def intro!: minify)
  qed (use ok minifies_texts in \<open>simp_all only: fine_cases\<close>, simp_all add: minifies_texts plain_char_def)
qed

lemma literal_open: "CHR 0x22 \<notin> set y \<Longrightarrow> minify_literal y = None"
  by (induction y rule: minify_literal.induct) (auto split: list.splits)

lemma comment_open: "CHR ''/'' \<notin> set y \<Longrightarrow> minify_comment y = None"
proof (induction y)
  case (Cons c y)
  then have "take 1 y \<noteq> ''/''" by (cases y) auto
  with Cons show ?case by simp
qed simp

text \<open>
  C15: \<open>cJSON_Minify\<close> undoes the formatting. The text \<open>cJSON_Print\<close> makes of a document, with its tabs,
  blanks and line ends, is minified to the text \<open>cJSON_PrintUnformatted\<close> makes of it; the white space and the
  slashes inside its strings stay. On a text that ends inside a string or a comment the function
  runs past the NUL.
\<close>

theorem minify_print:
  assumes "json_fine c" "\<forall>a \<in> set x. plain_char a" "CHR 0x22 \<notin> set y" "CHR ''/'' \<notin> set y"
  shows "(\<exists>t. cJSON_Print c = Some t \<and> cJSON_Minify t = cJSON_PrintUnformatted c) \<and>
    cJSON_Minify (x @ CHR 0x22 # y) = None \<and> cJSON_Minify (x @ ''/*'' @ y) = None"
proof -
  have "cJSON_Minify (render c 0 True @ []) = Some (render c 0 False @ [])"
    using minifies_render [OF assms(1), of 0 0] cJSON_Minify.simps(1) unfolding minifies_def by blast
  moreover have "cJSON_Minify (x @ CHR 0x22 # y) = None"
    using assms(2,3) by (simp add: minify_plain literal_open)
  moreover have "cJSON_Minify (x @ ''/*'' @ y) = None"
  proof -
    have "take (Suc 0) y \<noteq> ''/''" using assms(4) by (cases y) auto
    then show ?thesis using assms(2,4) by (simp add: minify_plain comment_open)
  qed
  ultimately show ?thesis using assms(1) by (simp add: cJSON_Print_fine)
qed

text \<open>An array with a string in it, and an array that ends inside a string.\<close>

definition ex_array :: cJSON where
  "ex_array = CJ cJSON_Array None 0 (Fin 0) None [cJSON_CreateString ''a /b'', cJSON_CreateTrue]"

theorem minify_print_witness:
  "(\<exists>t. cJSON_Print ex_array = Some t \<and> cJSON_Minify t = cJSON_PrintUnformatted ex_array) \<and>
   cJSON_Minify (''[1,'' @ CHR 0x22 # ''a '') = None \<and> cJSON_Minify (''[1,'' @ ''/*'' @ ''a '') = None"
  by (rule minify_print)
    (simp_all add: ex_array_def cJSON_CreateString_def cJSON_CreateTrue_def cJSON_New_Item_def json_types plain_char_def nul_free_def)

end
