(* ===== verification/Cjson_Buffer.thy ===== *)
theory Cjson_Buffer
  imports Cjson_Text
begin

text \<open>
  \<open>cjson.c\<close>: printing into one growing buffer, \<open>cJSON_PrintBuffered\<close>. The buffer is a block of memory with
  its length and the offset up to which it is filled; the code writes at the offset and finds
  the new one by looking for the NUL. The allocator is a parameter: it gives a block with
  whatever bytes are in it, or \<open>None\<close>.
\<close>

unbundle bit_operations_syntax

section \<open>The buffer\<close>

record printbuffer =
  pb_buffer :: "string option"
  pb_length :: int
  pb_offset :: int

type_synonym 'a pb = "(printbuffer, 'a) state"

type_synonym allocator = "int \<Rightarrow> string option"

definition pow2gt :: "int \<Rightarrow> int" where
  "pow2gt x0 =
     (let x = x0 - 1;
          x = x OR drop_bit 1 x;
          x = x OR drop_bit 2 x;
          x = x OR drop_bit 4 x;
          x = x OR drop_bit 8 x;
          x = x OR drop_bit 16 x
      in i32 (x + 1))"

text \<open>
  Room for \<open>needed\<close> more bytes. The pointer the code returns is always the offset of the buffer, so
  only whether there is one is returned.
\<close>

definition ensure :: "allocator \<Rightarrow> int \<Rightarrow> bool pb" where
  "ensure al needed = do {
     p \<leftarrow> State_Monad.get;
     case pb_buffer p of
       None \<Rightarrow> ret False
     | Some b \<Rightarrow>
         (let n = i32 (needed + pb_offset p) in
          if n \<le> pb_length p then ret True
          else let newsize = pow2gt n in
            case al newsize of
              None \<Rightarrow> do {
                State_Monad.set (p\<lparr>pb_buffer := None, pb_length := 0\<rparr>);
                ret False }
            | Some nb \<Rightarrow> do {
                State_Monad.set (p\<lparr>pb_buffer := Some (poke 0 (take (nat (pb_length p)) b) nb), pb_length := newsize\<rparr>);
                ret True }) }"

text \<open>Bytes written at the offset, and the offset moved on.\<close>

definition write_at :: "string \<Rightarrow> unit pb" where
  "write_at str = do {
     p \<leftarrow> State_Monad.get;
     State_Monad.set (p\<lparr>pb_buffer := map_option (poke (nat (pb_offset p)) str) (pb_buffer p)\<rparr>) }"

definition advance :: "int \<Rightarrow> unit pb" where
  "advance n = do {
     p \<leftarrow> State_Monad.get;
     State_Monad.set (p\<lparr>pb_offset := i32 (pb_offset p + n)\<rparr>) }"

text \<open>\<open>p->offset=update(p)\<close>\<close>

definition update :: "unit pb" where
  "update = do {
     p \<leftarrow> State_Monad.get;
     State_Monad.set (p\<lparr>pb_offset :=
       (case pb_buffer p of
          None \<Rightarrow> 0
        | Some b \<Rightarrow> i32 (pb_offset p + int (length (takeWhile (\<lambda>c. c \<noteq> CHR 0x00) (drop (nat (pb_offset p)) b)))))\<rparr>) }"

section \<open>Printing\<close>

text \<open>The result is the place of the text in the buffer, \<open>None\<close> for a null pointer.\<close>

definition print_leaf :: "allocator \<Rightarrow> int \<Rightarrow> string \<Rightarrow> int option pb" where
  "print_leaf al needed str = do {
     ok \<leftarrow> ensure al needed;
     if \<not> ok then ret None
     else do {
       write_at (str @ [CHR 0x00]);
       p \<leftarrow> State_Monad.get;
       ret (Some (pb_offset p)) } }"

definition print_number_b :: "allocator \<Rightarrow> cJSON \<Rightarrow> int option pb" where
  "print_number_b al item = print_leaf al (if d_eq (cj_valuedouble item) (Fin 0) then 2 else 64) (print_number item)"

definition print_string_b :: "allocator \<Rightarrow> string option \<Rightarrow> int option pb" where
  "print_string_b al str = print_leaf al (int (print_string_alloc str)) (print_string_ptr str)"

text \<open>A piece of punctuation: room for it and its NUL, the bytes, and the offset moved behind them.\<close>

definition print_mark :: "allocator \<Rightarrow> int \<Rightarrow> string \<Rightarrow> int \<Rightarrow> bool pb" where
  "print_mark al needed str n = do {
     ok \<leftarrow> ensure al needed;
     if \<not> ok then ret False
     else do { write_at str; advance n; ret True } }"

definition empty_object :: "nat \<Rightarrow> bool \<Rightarrow> string" where
  "empty_object depth fmt = ''{'' @ (if fmt then CHR 0x0A # tabs depth else []) @ ''}''"

function print_value_b :: "allocator \<Rightarrow> cJSON \<Rightarrow> nat \<Rightarrow> bool \<Rightarrow> int option pb"
  and print_elements_b :: "allocator \<Rightarrow> cJSON list \<Rightarrow> nat \<Rightarrow> bool \<Rightarrow> bool pb"
  and print_members_b :: "allocator \<Rightarrow> cJSON list \<Rightarrow> nat \<Rightarrow> bool \<Rightarrow> bool pb"
where
  "print_value_b al (CJ t vs vi vd nm ch) depth fmt =
     (let item = CJ t vs vi vd nm ch; ty = t mod 256
      in if ty = cJSON_NULL then print_leaf al 5 ''null''
         else if ty = cJSON_False then print_leaf al 6 ''false''
         else if ty = cJSON_True then print_leaf al 5 ''true''
         else if ty = cJSON_Number then print_number_b al item
         else if ty = cJSON_String then print_string_b al vs
         else if ty = cJSON_Array then
           (if ch = [] then print_leaf al 3 ''[]''
            else do {
              p \<leftarrow> State_Monad.get;
              ok \<leftarrow> print_mark al 1 ''['' 1;
              if \<not> ok then ret None
              else do {
                ok \<leftarrow> print_elements_b al ch (Suc depth) fmt;
                if \<not> ok then ret None
                else do {
                  ok \<leftarrow> print_mark al 2 ('']'' @ [CHR 0x00]) 0;
                  ret (if ok then Some (pb_offset p) else None) } } })
         else if ty = cJSON_Object then
           (if ch = [] then print_leaf al (if fmt then int depth + 4 else 3) (empty_object depth fmt)
            else do {
              p \<leftarrow> State_Monad.get;
              ok \<leftarrow> print_mark al (if fmt then 3 else 2)
                ((if fmt then [CHR ''{'', CHR 0x0A] else ''{'') @ [CHR 0x00]) (if fmt then 2 else 1);
              if \<not> ok then ret None
              else do {
                ok \<leftarrow> print_members_b al ch (Suc depth) fmt;
                if \<not> ok then ret None
                else do {
                  ok \<leftarrow> print_mark al (if fmt then int (Suc depth) + 1 else 2)
                    ((if fmt then tabs depth else []) @ ''}'' @ [CHR 0x00]) 0;
                  ret (if ok then Some (pb_offset p) else None) } } })
         else ret None)"
| "print_elements_b al [] depth fmt = ret True"
| "print_elements_b al (c # cs) depth fmt = do {
     _ \<leftarrow> print_value_b al c depth fmt;
     update;
     ok \<leftarrow> (if cs \<noteq> [] then print_mark al (if fmt then 3 else 2) ((if fmt then '', '' else '','') @ [CHR 0x00]) (if fmt then 2 else 1)
           else ret True);
     if \<not> ok then ret False else print_elements_b al cs depth fmt }"
| "print_members_b al [] depth fmt = ret True"
| "print_members_b al (c # cs) depth fmt = do {
     ok \<leftarrow> (if fmt then print_mark al (int depth) (tabs depth) (int depth) else ret True);
     if \<not> ok then ret False
     else do {
       _ \<leftarrow> print_string_b al (cj_string c);
       update;
       ok \<leftarrow> print_mark al (if fmt then 2 else 1) (if fmt then [CHR '':'', CHR 0x09] else '':'') (if fmt then 2 else 1);
       if \<not> ok then ret False
       else do {
         _ \<leftarrow> print_value_b al c depth fmt;
         update;
         ok \<leftarrow> (let len = (if fmt then 1 else 0) + (if cs \<noteq> [] then 1 else 0) in
           print_mark al (len + 1)
             ((if cs \<noteq> [] then '','' else []) @ (if fmt then [CHR 0x0A] else []) @ [CHR 0x00]) len);
         if \<not> ok then ret False else print_members_b al cs depth fmt } } }"
  by pat_completeness auto
termination
  by (relation "measure (\<lambda>x. case x of Inl (_, c, _) \<Rightarrow> size c | Inr (Inl (_, cs, _)) \<Rightarrow> size_list size cs
      | Inr (Inr (_, cs, _)) \<Rightarrow> size_list size cs)") auto

text \<open>The text the returned pointer points to.\<close>

definition cJSON_PrintBuffered :: "allocator \<Rightarrow> cJSON \<Rightarrow> int \<Rightarrow> bool \<Rightarrow> string option" where
  "cJSON_PrintBuffered al item prebuffer fmt =
     (case run_state (print_value_b al item 0 fmt)
             \<lparr>pb_buffer = al prebuffer, pb_length = prebuffer, pb_offset = 0\<rparr> of
        (Some i, p) \<Rightarrow> map_option (\<lambda>b. takeWhile (\<lambda>c. c \<noteq> CHR 0x00) (drop (nat i) b)) (pb_buffer p)
      | (None, p) \<Rightarrow> None)"

section \<open>The buffer holds a text\<close>

text \<open>The allocator gives every block up to a gibibyte.\<close>

definition gives_blocks :: "allocator \<Rightarrow> bool" where
  "gives_blocks al \<longleftrightarrow> (\<forall>n. 0 \<le> n \<and> n \<le> 2 ^ 30 \<longrightarrow> (\<exists>b. al n = Some b \<and> int (length b) = n))"

text \<open>The buffer is filled with \<open>pre\<close> up to its offset; it holds \<open>x\<close> and a NUL behind \<open>pre\<close>.\<close>

definition filled :: "string \<Rightarrow> printbuffer \<Rightarrow> bool" where
  "filled pre p \<longleftrightarrow>
     (\<exists>r. pb_buffer p = Some (pre @ r) \<and> pb_length p = int (length pre + length r)) \<and> pb_offset p = int (length pre)"

definition wrote :: "string \<Rightarrow> string \<Rightarrow> printbuffer \<Rightarrow> bool" where
  "wrote pre x p \<longleftrightarrow>
     (\<exists>r. pb_buffer p = Some (pre @ x @ CHR 0x00 # r) \<and> pb_length p = int (length pre + length x + 1 + length r)) \<and>
     int (length pre) \<le> pb_offset p \<and> pb_offset p \<le> int (length pre + length x)"

lemma wp_set: "wp (State_Monad.set s') Q = (\<lambda>_. Q () s')"
  by (rule ext) (simp add: wp_def)

lemmas pb_simps = wp_simps wp_set

text \<open>The bits from \<open>k\<close> down, \<open>m\<close> of them, and none above.\<close>

definition ones_below :: "nat \<Rightarrow> nat \<Rightarrow> int \<Rightarrow> bool" where
  "ones_below k m y \<longleftrightarrow> (\<forall>i. k < i + m \<and> i \<le> k \<longrightarrow> bit y i) \<and> (\<forall>i > k. \<not> bit y i)"

lemma ones_below_step: "ones_below k m y \<Longrightarrow> n = 2 * m \<Longrightarrow> ones_below k n (y OR drop_bit m y)"
proof -
  assume y: "ones_below k m y" and n: "n = 2 * m"
  have "bit y i \<or> bit y (m + i)" if "k < i + 2 * m" "i \<le> k" for i
    using y that by (cases "k < i + m") (auto simp: ones_below_def)
  then show ?thesis using y n by (auto simp: ones_below_def bit_or_iff bit_drop_bit_eq)
qed

lemma ones_below_all: "ones_below k m y \<Longrightarrow> k < m \<Longrightarrow> y = 2 ^ Suc k - 1"
  unfolding mask_eq_exp_minus_1 [symmetric]
  by (rule bit_eqI) (auto simp: ones_below_def bit_mask_iff not_less less_Suc_eq_le)

lemma ones_below_start: "2 ^ k \<le> n \<Longrightarrow> n < 2 ^ Suc k \<Longrightarrow> ones_below k 1 n"
proof -
  assume n: "2 ^ k \<le> n" "n < 2 ^ Suc k"
  then have "n div 2 ^ k = 1" by (intro int_div_pos_eq [where r = "n - 2 ^ k"]) simp_all
  then have "bit n k" by (simp add: bit_iff_odd)
  moreover have "\<not> bit n i" if "k < i" for i
  proof -
    have "take_bit (Suc k) n = n" using n order_trans [of 0 "2 ^ k" n] by (simp add: take_bit_int_eq_self)
    then show ?thesis using that by (metis bit_take_bit_iff not_less_eq order_less_imp_not_less)
  qed
  ultimately show ?thesis by (auto simp: ones_below_def) (metis le_less_Suc_eq less_Suc_eq_le not_less_eq)
qed

text \<open>The next power of two, at most twice the number.\<close>

lemma pow2gt_bounds:
  assumes "1 \<le> x" "x \<le> 2 ^ 30"
  shows "x \<le> pow2gt x \<and> pow2gt x \<le> 2 ^ 30"
proof (cases "x = 1")
  case True
  then show ?thesis by (simp add: pow2gt_def i32_def)
next
  case False
  define k where "k = nat (bitlen (x - 1) - 1)"
  have pos: "0 < x - 1" using assms(1) False by simp
  then have "1 \<le> bitlen (x - 1)" by (simp add: bitlen_ge_iff_power)
  then have "nat (bitlen (x - 1)) = Suc k" by (simp add: k_def)
  then have k: "2 ^ k \<le> x - 1" "x - 1 < 2 ^ Suc k" using bitlen_bounds [OF pos] by (simp_all add: k_def)
  have "(2 :: int) ^ k < 2 ^ 30" using k(1) assms(2) by linarith
  then have k30: "k < 30" by (rule power_less_imp_less_exp [rotated]) simp
  define y where "y = (let x = x - 1; x = x OR drop_bit 1 x; x = x OR drop_bit 2 x; x = x OR drop_bit 4 x;
    x = x OR drop_bit 8 x in x OR drop_bit 16 x)"
  have "ones_below k 32 y"
    unfolding y_def Let_def by (intro ones_below_step ones_below_start k; simp)
  then have "y = 2 ^ Suc k - 1" by (rule ones_below_all) (use k30 in simp)
  moreover have top: "(2 :: int) ^ Suc k \<le> 2 ^ 30" using k30 by (intro power_increasing) simp_all
  moreover have "i32 (2 ^ Suc k) = 2 ^ Suc k"
  proof -
    define z :: int where "z = 2 ^ Suc k"
    have "0 \<le> z" "z \<le> 2 ^ 30" using top by (simp_all only: z_def) simp
    then have "i32 z = z" by (simp add: i32_id)
    then show ?thesis by (simp only: z_def)
  qed
  ultimately have "pow2gt x = 2 ^ Suc k"
    unfolding pow2gt_def Let_def y_def [unfolded Let_def, symmetric] by simp
  then show ?thesis using k(2) top by simp
qed

section \<open>The operations on the buffer\<close>

lemma ensure_wp:
  assumes "gives_blocks al" "filled pre p" "0 \<le> n" "int (length pre) + n \<le> 2 ^ 30"
  shows "wp (ensure al n) (\<lambda>ok p'. ok \<and> filled pre p' \<and> int (length pre) + n \<le> pb_length p') p"
proof -
  obtain r where p: "pb_buffer p = Some (pre @ r)" "pb_length p = int (length pre + length r)" "pb_offset p = int (length pre)"
    using assms(2) by (auto simp: filled_def)
  have i: "i32 (n + int (length pre)) = n + int (length pre)" using assms(3,4) by (simp add: i32_id)
  show ?thesis
  proof (cases "n + int (length pre) \<le> pb_length p")
    case True
    then show ?thesis using assms(2) p by (simp add: ensure_def pb_simps i Let_def add.commute)
  next
    case False
    then have "1 \<le> n + int (length pre)" "n + int (length pre) \<le> 2 ^ 30" using p assms(4) by simp_all
    note b = pow2gt_bounds [OF this]
    then have "0 \<le> pow2gt (n + int (length pre))" using assms(3) by linarith
    with b obtain nb where nb: "al (pow2gt (n + int (length pre))) = Some nb" "int (length nb) = pow2gt (n + int (length pre))"
      using assms(1) unfolding gives_blocks_def by blast
    have "filled pre (p\<lparr>pb_buffer := Some (poke 0 (pre @ r) nb), pb_length := pow2gt (n + int (length pre))\<rparr>)"
      using p nb b False unfolding filled_def
      by (intro conjI exI [of _ "r @ drop (length pre + length r) nb"]) (auto simp: poke_def)
    then show ?thesis
      using False p nb b by (simp add: ensure_def pb_simps i Let_def)
  qed
qed

text \<open>Bytes written behind the filled part: the buffer is filled further by moving the offset.\<close>

lemma write_filled:
  assumes "filled pre p" "int (length pre + length x) \<le> pb_length p"
  shows "\<exists>r. pb_buffer (snd (run_state (write_at x) p)) = Some (pre @ x @ r) \<and>
    pb_length (snd (run_state (write_at x) p)) = int (length pre + length x + length r) \<and>
    pb_offset (snd (run_state (write_at x) p)) = int (length pre)"
proof -
  obtain r where "pb_buffer p = Some (pre @ r)" "pb_length p = int (length pre + length r)" "pb_offset p = int (length pre)"
    using assms(1) by (auto simp: filled_def)
  then show ?thesis using assms(2)
    by (intro exI [of _ "drop (length x) r"]) (simp add: write_at_def poke_def State_Monad.set_def State_Monad.get_def)
qed

lemma print_leaf_wp:
  assumes "gives_blocks al" "filled pre p" "int (length x) < n" "int (length pre) + n \<le> 2 ^ 30"
  shows "wp (print_leaf al n x) (\<lambda>i p'. i = Some (int (length pre)) \<and> wrote pre x p') p"
  unfolding print_leaf_def wp_bind
proof (rule wp_mono [OF ensure_wp [OF assms(1,2) _ assms(4)]])
  fix ok p' assume p': "ok \<and> filled pre p' \<and> int (length pre) + n \<le> pb_length p'"
  then have "int (length pre + length (x @ [CHR 0x00])) \<le> pb_length p'" using assms(3) by simp
  from write_filled [OF _ this] p' show "wp (if \<not> ok then ret None
       else do { write_at (x @ [CHR 0x00]); p \<leftarrow> State_Monad.get; ret (Some (pb_offset p)) })
     (\<lambda>i p'. i = Some (int (length pre)) \<and> wrote pre x p') p'"
    by (auto simp: wp_iff wrote_def wp_bind wp_get wp_return)
qed (use assms(3) in simp)

lemma print_mark_wp:
  assumes "gives_blocks al" "filled pre p" "int (length (x @ y)) \<le> n" "int (length pre) + n \<le> 2 ^ 30" "m = int (length x)"
  shows "wp (print_mark al n (x @ y) m) (\<lambda>ok p'. ok \<and> filled (pre @ x) p') p"
  unfolding print_mark_def wp_bind
proof (rule wp_mono [OF ensure_wp [OF assms(1,2) _ assms(4)]])
  fix ok p' assume p': "ok \<and> filled pre p' \<and> int (length pre) + n \<le> pb_length p'"
  then have "int (length pre + length (x @ y)) \<le> pb_length p'" using assms(3) by simp
  from write_filled [OF _ this] p' show "wp (if \<not> ok then ret False else do { write_at (x @ y); advance m; ret True })
     (\<lambda>ok p'. ok \<and> filled (pre @ x) p') p'"
    using assms(3,4,5) by (auto simp: wp_iff wp_bind advance_def wp_get wp_set filled_def i32_id State_Monad.set_def State_Monad.get_def)
qed (use assms(3) in simp)

lemma print_close_wp:
  assumes "gives_blocks al" "filled pre p" "int (length x) < n" "int (length pre) + n \<le> 2 ^ 30"
  shows "wp (print_mark al n (x @ [CHR 0x00]) 0) (\<lambda>ok p'. ok \<and> wrote pre x p') p"
  unfolding print_mark_def wp_bind
proof (rule wp_mono [OF ensure_wp [OF assms(1,2) _ assms(4)]])
  fix ok p' assume p': "ok \<and> filled pre p' \<and> int (length pre) + n \<le> pb_length p'"
  then have "int (length pre + length (x @ [CHR 0x00])) \<le> pb_length p'" using assms(3) by simp
  from write_filled [OF _ this] p' show "wp (if \<not> ok then ret False
      else do { write_at (x @ [CHR 0x00]); advance 0; ret True }) (\<lambda>ok p'. ok \<and> wrote pre x p') p'"
    using assms(3,4) by (auto simp: wp_iff wp_bind advance_def wp_get wp_set wrote_def i32_id State_Monad.set_def State_Monad.get_def)
qed (use assms(3) in simp)

lemma update_wp:
  assumes "wrote pre x p" "CHR 0x00 \<notin> set x" "int (length pre + length x) < 2 ^ 31"
  shows "wp update (\<lambda>_. filled (pre @ x)) p"
proof -
  obtain r k where p: "pb_buffer p = Some (pre @ x @ CHR 0x00 # r)" "pb_length p = int (length pre + length x + 1 + length r)"
    "pb_offset p = int (length pre + k)" "k \<le> length x"
    using assms(1) unfolding wrote_def by (auto simp: zle_iff_zadd) 
  have "takeWhile (\<lambda>c. c \<noteq> CHR 0x00) (drop k x @ CHR 0x00 # r) = drop k x"
    using assms(2) by (subst takeWhile_append2) (auto dest: in_set_dropD)
  moreover have "nat (int (length pre) + int k) = length pre + k" by simp
  ultimately show ?thesis
    using p assms(3) by (simp add: update_def pb_simps filled_def i32_id)
qed

lemma wrote_append: "wrote (pre @ x) y p \<Longrightarrow> wrote pre (x @ y) p"
  by (auto simp: wrote_def)

section \<open>Buffered printing\<close>

text \<open>Numbers of the C types: a 64-bit integer and a double.\<close>

fun cj_typed :: "cJSON \<Rightarrow> bool" where
  "cj_typed (CJ t vs vi vd nm ch) \<longleftrightarrow> \<bar>vi\<bar> \<le> 2 ^ 63 \<and> d_in_range vd \<and> (\<forall>c \<in> set ch. cj_typed c)"

definition prints_b :: "allocator \<Rightarrow> bool \<Rightarrow> cJSON \<Rightarrow> bool" where
  "prints_b al fmt c \<longleftrightarrow>
     (\<forall>d pre p. filled pre p \<and> int (length pre + length (render c d fmt)) + 64 \<le> 2 ^ 30 \<longrightarrow>
        wp (print_value_b al c d fmt) (\<lambda>i p'. i = Some (int (length pre)) \<and> wrote pre (render c d fmt) p') p)"

lemma print_text_wp:
  assumes "gives_blocks al" "prints_b al fmt c" "nul_free (render c d fmt)" "filled pre p"
    "int (length pre + length (render c d fmt)) + 64 \<le> 2 ^ 30"
  shows "wp (do { _ \<leftarrow> print_value_b al c d fmt; update }) (\<lambda>_. filled (pre @ render c d fmt)) p"
proof (rule wp_seq)
  show "wp (print_value_b al c d fmt) (\<lambda>i p'. i = Some (int (length pre)) \<and> wrote pre (render c d fmt) p') p"
    using assms by (simp add: prints_b_def)
next
  fix i p' assume "i = Some (int (length pre)) \<and> wrote pre (render c d fmt) p'"
  then show "wp update (\<lambda>_. filled (pre @ render c d fmt)) p'"
    using assms(3,5) by (intro update_wp) (auto simp: nul_free_def)
qed

lemma print_key_wp:
  assumes "gives_blocks al" "nul_free (print_string_ptr s)" "filled pre p"
    "int (length pre + length (print_string_ptr s)) + 64 \<le> 2 ^ 30"
  shows "wp (do { _ \<leftarrow> print_string_b al s; update }) (\<lambda>_. filled (pre @ print_string_ptr s)) p"
proof (rule wp_seq)
  show "wp (print_string_b al s) (\<lambda>i p'. i = Some (int (length pre)) \<and> wrote pre (print_string_ptr s) p') p"
    unfolding print_string_b_def
    by (rule print_leaf_wp [OF assms(1,3)]) (use assms(4) print_string_fits [of s] in simp_all)
next
  fix i p' assume "i = Some (int (length pre)) \<and> wrote pre (print_string_ptr s) p'"
  then show "wp update (\<lambda>_. filled (pre @ print_string_ptr s)) p'"
    using assms(2,4) by (intro update_wp) (auto simp: nul_free_def)
qed

lemma print_elements_wp:
  assumes al: "gives_blocks al"
  shows "\<forall>c \<in> set cs. prints_b al fmt c \<and> nul_free (render c d fmt) \<Longrightarrow> filled pre p \<Longrightarrow>
    int (length pre + length (compose_array fmt (map (\<lambda>c. render c d fmt) cs))) + 64 \<le> 2 ^ 30 \<Longrightarrow>
    wp (print_elements_b al cs d fmt)
      (\<lambda>ok p'. ok \<and> filled (pre @ compose_array fmt (map (\<lambda>c. render c d fmt) cs)) p') p"
proof (induction cs arbitrary: pre p)
  case Nil
  then show ?case by (simp add: wp_return)
next
  case (Cons c cs)
  let ?x = "render c d fmt" and ?sep = "if fmt then '', '' else '',''"
  have one: "wp (do { _ \<leftarrow> print_value_b al c d fmt; update }) (\<lambda>_. filled (pre @ ?x)) p"
  proof (rule print_text_wp [OF al])
    show "int (length pre + length ?x) + 64 \<le> 2 ^ 30" using Cons.prems(3) by (cases cs) (simp_all split: if_splits)
  qed (use Cons.prems in simp_all)
  show ?case
  proof (cases cs)
    case Nil
    then show ?thesis using one by (simp add: wp_bind wp_return)
  next
    case (Cons c' cs')
    have mark: "wp (print_mark al (if fmt then 3 else 2) (?sep @ [CHR 0x00]) (if fmt then 2 else 1))
        (\<lambda>ok p'. ok \<and> filled ((pre @ ?x) @ ?sep) p') p'" if "filled (pre @ ?x) p'" for p'
      by (rule print_mark_wp [OF al that]) (use Cons.prems(3) Cons in \<open>simp_all split: if_splits\<close>)
    have rest: "wp (print_elements_b al cs d fmt)
        (\<lambda>ok p'. ok \<and> filled ((pre @ ?x @ ?sep) @ compose_array fmt (map (\<lambda>c. render c d fmt) cs)) p') p'"
      if "filled (pre @ ?x @ ?sep) p'" for p'
      by (rule Cons.IH [OF _ that]) (use Cons.prems Cons in \<open>simp_all split: if_splits\<close>)
    let ?R = "\<lambda>ok p'. ok \<and> filled (pre @ compose_array fmt (map (\<lambda>c. render c d fmt) (c # cs))) p'"
    have "wp (do { _ \<leftarrow> print_value_b al c d fmt; update })
        (\<lambda>_. wp (print_mark al (if fmt then 3 else 2) (?sep @ [CHR 0x00]) (if fmt then 2 else 1))
          (\<lambda>ok. wp (if \<not> ok then ret False else print_elements_b al cs d fmt) ?R)) p"
    proof (rule wp_mono [OF one], rule wp_mono [OF mark])
      fix ok p' assume "ok \<and> filled ((pre @ ?x) @ ?sep) p'"
      then show "wp (if \<not> ok then ret False else print_elements_b al cs d fmt) ?R p'"
        using rest [of p'] Cons by (auto split: if_splits)
    qed
    then show ?thesis using Cons by (simp add: wp_bind cong: if_cong)
  qed
qed

lemmas print_bare_mark_wp = print_mark_wp [where y = "[]", unfolded append_Nil2]

lemma print_members_wp:
  assumes al: "gives_blocks al"
  shows "\<forall>c \<in> set cs. prints_b al fmt c \<and> nul_free (render c d fmt) \<and> nul_free (print_string_ptr (cj_string c)) \<Longrightarrow>
    filled pre p \<Longrightarrow>
    int (length pre + length (compose_object d fmt (map (\<lambda>c. (print_string_ptr (cj_string c), render c d fmt)) cs))) + 64 \<le> 2 ^ 30 \<Longrightarrow>
    wp (print_members_b al cs d fmt)
      (\<lambda>ok p'. ok \<and> filled (pre @ compose_object d fmt (map (\<lambda>c. (print_string_ptr (cj_string c), render c d fmt)) cs)) p') p"
proof (induction cs arbitrary: pre p)
  case Nil
  then show ?case by (simp add: wp_return)
next
  case (Cons c cs)
  define indent where "indent = (if fmt then tabs d else [])"
  define key where "key = print_string_ptr (cj_string c)"
  define colon where "colon = (if fmt then [CHR '':'', CHR 0x09] else '':'')"
  define x where "x = render c d fmt"
  define sep where "sep = (if cs \<noteq> [] then '','' else []) @ (if fmt then [CHR 0x0A] else [])"
  define rest where "rest = compose_object d fmt (map (\<lambda>c. (print_string_ptr (cj_string c), render c d fmt)) cs)"
  let ?R = "\<lambda>ok p'. ok \<and> filled (pre @ indent @ key @ colon @ x @ sep @ rest) p'"
  have whole: "compose_object d fmt (map (\<lambda>c. (print_string_ptr (cj_string c), render c d fmt)) (c # cs)) =
      indent @ key @ colon @ x @ sep @ rest"
    by (simp add: indent_def key_def colon_def x_def sep_def rest_def)
  then have room: "int (length pre + length indent + length key + length colon + length x + length sep + length rest) + 64 \<le> 2 ^ 30"
    using Cons.prems(3) by simp
  have last: "wp (print_members_b al cs d fmt) ?R p'" if "filled (pre @ indent @ key @ colon @ x @ sep) p'" for p'
    using Cons.IH [OF _ that] Cons.prems(1) room by (simp add: rest_def)
  define sep_part where "sep_part = do {
    ok \<leftarrow> print_mark al (int (length sep) + 1) (sep @ [CHR 0x00]) (int (length sep));
    if \<not> ok then ret False else print_members_b al cs d fmt }"
  define value_part where "value_part = do { _ \<leftarrow> print_value_b al c d fmt; update; sep_part }"
  define colon_part where "colon_part = do {
    ok \<leftarrow> print_mark al (if fmt then 2 else 1) colon (if fmt then 2 else 1);
    if \<not> ok then ret False else value_part }"
  define key_part where "key_part = do { _ \<leftarrow> print_string_b al (cj_string c); update; colon_part }"
  have seps: "wp sep_part ?R p'" if "filled (pre @ indent @ key @ colon @ x) p'" for p'
    unfolding sep_part_def
  proof (rule wp_seq [OF print_mark_wp [OF al that]])
    fix ok p'' assume "ok \<and> filled ((pre @ indent @ key @ colon @ x) @ sep) p''"
    then show "wp (if \<not> ok then ret False else print_members_b al cs d fmt) ?R p''" using last by simp
  qed (use room in simp_all)
  have "wp value_part ?R p'" if "filled (pre @ indent @ key @ colon) p'" for p'
  proof -
    have "wp (do { _ \<leftarrow> print_value_b al c d fmt; update }) (\<lambda>_ p''. wp sep_part ?R p'') p'"
      by (rule wp_mono [OF print_text_wp [OF al _ _ that]])
        (use Cons.prems(1) room seps in \<open>simp_all flip: x_def\<close>)
    then show ?thesis by (simp add: value_part_def wp_bind)
  qed
  then have "wp colon_part ?R p'" if "filled (pre @ indent @ key) p'" for p'
    unfolding colon_part_def
    by (intro wp_seq [OF print_bare_mark_wp [OF al that]])
      (use room in \<open>simp_all add: colon_def split: if_splits\<close>)
  then have keys: "wp key_part ?R p'" if "filled (pre @ indent) p'" for p'
  proof -
    have "wp (do { _ \<leftarrow> print_string_b al (cj_string c); update }) (\<lambda>_ p''. wp colon_part ?R p'') p'"
      by (rule wp_mono [OF print_key_wp [OF al _ that]])
        (use Cons.prems(1) room \<open>\<And>p'. filled (pre @ indent @ key) p' \<Longrightarrow> wp colon_part ?R p'\<close> in \<open>simp_all flip: key_def\<close>)
    then show ?thesis by (simp add: key_part_def wp_bind)
  qed
  have indented: "wp (if fmt then print_mark al (int d) (tabs d) (int d) else ret True) (\<lambda>ok p'. ok \<and> filled (pre @ indent) p') p"
  proof (cases fmt)
    case True
    have "length (tabs d) = d" by (simp add: tabs_def)
    moreover from this have "int (length pre) + int d \<le> 2 ^ 30" using room True by (simp add: indent_def)
    ultimately have "wp (print_mark al (int d) (tabs d) (int d)) (\<lambda>ok p'. ok \<and> filled (pre @ tabs d) p') p"
      by (intro print_bare_mark_wp [OF al Cons.prems(2)]) simp_all
    with True show ?thesis by (simp only: indent_def if_True)
  next
    case False
    then show ?thesis using Cons.prems(2) by (simp add: indent_def wp_return)
  qed
  have sep_eq: "(let len = (if fmt then 1 else 0) + (if cs \<noteq> [] then 1 else 0) in
      print_mark al (len + 1) ((if cs \<noteq> [] then '','' else []) @ (if fmt then [CHR 0x0A] else []) @ [CHR 0x00]) len) =
    print_mark al (int (length sep) + 1) (sep @ [CHR 0x00]) (int (length sep))"
    by (cases fmt; cases "cs = []") (simp_all add: sep_def Let_def)
  have "print_members_b al (c # cs) d fmt = do {
      ok \<leftarrow> (if fmt then print_mark al (int d) (tabs d) (int d) else ret True);
      if \<not> ok then ret False else key_part }"
    by (simp only: print_members_b.simps key_part_def colon_part_def value_part_def sep_part_def colon_def sep_eq)
  then show ?case
    unfolding whole
    by (simp only:) (rule wp_seq [OF indented], use keys in auto)
qed

lemma print_array_wp:
  assumes al: "gives_blocks al" and ok: "json_fine (CJ cJSON_Array vs vi vd nm ch)" "ch \<noteq> []" "\<forall>c \<in> set ch. prints_b al fmt c"
    and pre: "filled pre p" "int (length pre + length (render (CJ cJSON_Array vs vi vd nm ch) d fmt)) + 64 \<le> 2 ^ 30"
  shows "wp (print_value_b al (CJ cJSON_Array vs vi vd nm ch) d fmt)
    (\<lambda>i p'. i = Some (int (length pre)) \<and> wrote pre (render (CJ cJSON_Array vs vi vd nm ch) d fmt) p') p"
proof -
  define body where "body = compose_array fmt (map (\<lambda>c. render c (Suc d) fmt) ch)"
  have x: "render (CJ cJSON_Array vs vi vd nm ch) d fmt = ''['' @ body @ '']''"
    using ok by (simp only: fine_array array_text_def) (simp add: body_def)
  let ?R = "\<lambda>i p'. i = Some (int (length pre)) \<and> wrote pre (''['' @ body @ '']'') p'"
  define close where "close = do {
    ok \<leftarrow> print_mark al 2 ('']'' @ [CHR 0x00]) 0; ret (if ok then Some (pb_offset p) else None) }"
  have off: "pb_offset p = int (length pre)" using pre(1) by (simp add: filled_def)
  have closes: "wp close ?R p'" if "filled (pre @ ''['' @ body) p'" for p'
    unfolding close_def
    by (intro wp_seq [OF print_close_wp [OF al that]])
      (use pre(2) x off wrote_append [of pre "''['' @ body" "'']''"] in \<open>auto simp: wp_return\<close>)
  have elems: "wp (do { ok \<leftarrow> print_elements_b al ch (Suc d) fmt; if \<not> ok then ret None else close }) ?R p'"
    if "filled (pre @ ''['') p'" for p'
  proof (rule wp_seq [OF print_elements_wp [OF al _ that]])
    show "\<forall>c \<in> set ch. prints_b al fmt c \<and> nul_free (render c (Suc d) fmt)"
      using ok nul_free_render_fine by (auto simp: json_types)
    show "int (length (pre @ ''['') + length (compose_array fmt (map (\<lambda>c. render c (Suc d) fmt) ch))) + 64 \<le> 2 ^ 30"
      using pre(2) unfolding x by (simp flip: body_def)
  qed (use closes in \<open>auto simp flip: body_def\<close>)
  have "print_value_b al (CJ cJSON_Array vs vi vd nm ch) d fmt = do {
      p \<leftarrow> State_Monad.get;
      ok \<leftarrow> print_mark al 1 ''['' 1;
      if \<not> ok then ret None else do {
        ok \<leftarrow> print_elements_b al ch (Suc d) fmt;
        if \<not> ok then ret None
        else do { ok \<leftarrow> print_mark al 2 ('']'' @ [CHR 0x00]) 0; ret (if ok then Some (pb_offset p) else None) } } }"
    using ok(2) by (simp add: json_types)
  moreover have "wp (print_mark al 1 ''['' 1) (\<lambda>ok p'. ok \<and> filled (pre @ ''['') p') p"
    using pre(2) x by (intro print_bare_mark_wp [OF al pre(1)]) simp_all
  then have "wp (do { ok \<leftarrow> print_mark al 1 ''['' 1;
      if \<not> ok then ret None else do {
        ok \<leftarrow> print_elements_b al ch (Suc d) fmt;
        if \<not> ok then ret None else close } }) ?R p"
    by (rule wp_seq) (use elems in auto)
  ultimately show ?thesis unfolding x close_def by (simp only: wp_bind wp_get)
qed

lemma print_object_wp:
  assumes al: "gives_blocks al" and ok: "json_fine (CJ cJSON_Object vs vi vd nm ch)" "ch \<noteq> []" "\<forall>c \<in> set ch. prints_b al fmt c"
    and pre: "filled pre p" "int (length pre + length (render (CJ cJSON_Object vs vi vd nm ch) d fmt)) + 64 \<le> 2 ^ 30"
  shows "wp (print_value_b al (CJ cJSON_Object vs vi vd nm ch) d fmt)
    (\<lambda>i p'. i = Some (int (length pre)) \<and> wrote pre (render (CJ cJSON_Object vs vi vd nm ch) d fmt) p') p"
proof -
  define body where "body = compose_object (Suc d) fmt (map (\<lambda>c. (print_string_ptr (cj_string c), render c (Suc d) fmt)) ch)"
  define left where "left = (if fmt then [CHR ''{'', CHR 0x0A] else ''{'')"
  define right where "right = (if fmt then tabs d else []) @ ''}''"
  have x: "render (CJ cJSON_Object vs vi vd nm ch) d fmt = left @ body @ right"
    using ok by (simp only: fine_object object_text_def) (simp add: body_def left_def right_def)
  let ?R = "\<lambda>i p'. i = Some (int (length pre)) \<and> wrote pre (left @ body @ right) p'"
  have len: "length left = (if fmt then 2 else 1)" "length right = (if fmt then Suc d else 1)"
    by (simp_all add: left_def right_def tabs_def)
  have room: "int (length pre + length left + length body + length right) + 64 \<le> 2 ^ 30" using pre(2) by (simp add: x)
  define close where "close = do {
    ok \<leftarrow> print_mark al (if fmt then int (Suc d) + 1 else 2) (right @ [CHR 0x00]) 0;
    ret (if ok then Some (pb_offset p) else None) }"
  have off: "pb_offset p = int (length pre)" using pre(1) by (simp add: filled_def)
  have closes: "wp close ?R p'" if "filled (pre @ left @ body) p'" for p'
    unfolding close_def
    by (intro wp_seq [OF print_close_wp [OF al that]])
      (use room len off wrote_append [of pre "left @ body" right] in \<open>auto simp: wp_return split: if_splits\<close>)
  have members: "wp (do { ok \<leftarrow> print_members_b al ch (Suc d) fmt; if \<not> ok then ret None else close }) ?R p'"
    if "filled (pre @ left) p'" for p'
  proof (rule wp_seq [OF print_members_wp [OF al _ that]])
    show "\<forall>c \<in> set ch. prints_b al fmt c \<and> nul_free (render c (Suc d) fmt) \<and> nul_free (print_string_ptr (cj_string c))"
      using ok nul_free_render_fine by (auto simp: json_types intro!: nul_free_print_string)
    show "int (length (pre @ left) + length (compose_object (Suc d) fmt
        (map (\<lambda>c. (print_string_ptr (cj_string c), render c (Suc d) fmt)) ch))) + 64 \<le> 2 ^ 30"
      using room by (simp flip: body_def)
  qed (use closes in \<open>auto simp flip: body_def\<close>)
  have "print_value_b al (CJ cJSON_Object vs vi vd nm ch) d fmt = do {
      p \<leftarrow> State_Monad.get;
      ok \<leftarrow> print_mark al (if fmt then 3 else 2) (left @ [CHR 0x00]) (if fmt then 2 else 1);
      if \<not> ok then ret None else do {
        ok \<leftarrow> print_members_b al ch (Suc d) fmt;
        if \<not> ok then ret None
        else do {
          ok \<leftarrow> print_mark al (if fmt then int (Suc d) + 1 else 2) (right @ [CHR 0x00]) 0;
          ret (if ok then Some (pb_offset p) else None) } } }"
    using ok(2) unfolding left_def right_def append_assoc by (simp add: json_types cong: if_cong)
  moreover have "wp (print_mark al (if fmt then 3 else 2) (left @ [CHR 0x00]) (if fmt then 2 else 1))
      (\<lambda>ok p'. ok \<and> filled (pre @ left) p') p"
    using room len by (intro print_mark_wp [OF al pre(1)]) (simp_all split: if_splits)
  then have "wp (do { ok \<leftarrow> print_mark al (if fmt then 3 else 2) (left @ [CHR 0x00]) (if fmt then 2 else 1);
      if \<not> ok then ret None else do {
        ok \<leftarrow> print_members_b al ch (Suc d) fmt;
        if \<not> ok then ret None else close } }) ?R p"
    by (rule wp_seq) (use members in auto)
  ultimately show ?thesis unfolding x close_def by (simp only: wp_bind wp_get)
qed

lemma prints_all: "gives_blocks al \<Longrightarrow> json_fine c \<Longrightarrow> cj_typed c \<Longrightarrow> prints_b al fmt c"
proof (induction c)
  case (CJ t vs vi vd nm ch)
  note al = CJ.prems(1) and ok = CJ.prems(2)
  have ch: "\<forall>c \<in> set ch. prints_b al fmt c" if "t = cJSON_Array \<or> t = cJSON_Object"
    using CJ that by (auto simp: json_types)
  show ?case
    unfolding prints_b_def
  proof (intro allI impI, elim conjE)
    fix d pre p
    let ?c = "CJ t vs vi vd nm ch"
    assume pre: "filled pre p" "int (length pre + length (render ?c d fmt)) + 64 \<le> 2 ^ 30"
    have leaf: "wp (print_leaf al n (render ?c d fmt)) (\<lambda>i p'. i = Some (int (length pre)) \<and> wrote pre (render ?c d fmt) p') p"
      if "int (length (render ?c d fmt)) < n" "n \<le> int (length (render ?c d fmt)) + 64" for n
      by (rule print_leaf_wp [OF al pre(1) that(1)]) (use that(2) pre(2) in simp)
    consider "t = cJSON_NULL" | "t = cJSON_False" | "t = cJSON_True" | "t = cJSON_Number" | "t = cJSON_String"
      | "t = cJSON_Array" | "t = cJSON_Object"
      using json_fine_type [OF ok] by (auto simp: json_types)
    then show "wp (print_value_b al ?c d fmt) (\<lambda>i p'. i = Some (int (length pre)) \<and> wrote pre (render ?c d fmt) p') p"
    proof cases
      case 1
      with ok have "render ?c d fmt = ''null''" by (simp only: fine_cases)
      with 1 leaf [of 5] show ?thesis by (simp add: json_types)
    next
      case 2
      with ok have "render ?c d fmt = ''false''" by (simp only: fine_cases)
      with 2 leaf [of 6] show ?thesis by (simp add: json_types)
    next
      case 3
      with ok have "render ?c d fmt = ''true''" by (simp only: fine_cases)
      with 3 leaf [of 5] show ?thesis by (simp add: json_types)
    next
      case 4
      with ok have r: "render ?c d fmt = print_number ?c" by (simp only: fine_cases)
      moreover have "int (length (print_number ?c)) < (if d_eq vd (Fin 0) then 2 else 64)"
        using number_fits [of ?c] CJ.prems(3) by (auto split: if_splits)
      ultimately show ?thesis
        using leaf [of "if d_eq vd (Fin 0) then 2 else 64"] 4 by (simp add: json_types print_number_b_def split: if_splits)
    next
      case 5
      with ok have "render ?c d fmt = print_string_ptr vs" by (simp only: fine_cases)
      with 5 leaf [of "int (print_string_alloc vs)"] print_string_fits [of vs] show ?thesis
        by (simp add: json_types print_string_b_def)
    next
      case 6
      show ?thesis
      proof (cases "ch = []")
        case True
        with 6 ok have "render ?c d fmt = ''[]''" by (simp only: fine_array array_text_def) simp
        with 6 True leaf [of 3] show ?thesis by (simp add: json_types)
      next
        case False
        with 6 ok ch pre show ?thesis by (simp only:) (rule print_array_wp [OF al], auto)
      qed
    next
      case 7
      show ?thesis
      proof (cases "ch = []")
        case True
        with 7 ok have "render ?c d fmt = empty_object d fmt"
          by (simp only: fine_object object_text_def empty_object_def) simp
        with 7 True leaf [of "if fmt then int d + 4 else 3"] show ?thesis
          by (simp add: json_types empty_object_def tabs_def split: if_splits)
      next
        case False
        with 7 ok ch pre show ?thesis by (simp only:) (rule print_object_wp [OF al], auto)
      qed
    qed
  qed
qed

lemma no_buffer:
  assumes "pb_buffer p = None"
  shows "fst (run_state (print_value_b al c d fmt) p) = None"
proof -
  have e: "run_state (ensure al n) p = (False, p)" for n
    using assms by (simp add: ensure_def State_Monad.get_def)
  have "run_state (print_leaf al n x) p = (None, p)" "run_state (print_mark al n x m) p = (False, p)" for n x m
    by (simp_all add: print_leaf_def print_mark_def e)
  then show ?thesis
    by (cases c) (simp add: print_number_b_def print_string_b_def Let_def State_Monad.get_def)
qed

text \<open>
  C14: printing into a growing buffer gives the text that printing with a block per item gives, for every
  document of finite numbers and whatever the size of the first buffer and the bytes in the blocks, as
  long as the text and a number's 64 bytes stay below a gibibyte, where the next power of two still is an
  \<open>int\<close>; without a first buffer there is no text.
\<close>

theorem print_buffered_agrees:
  assumes "gives_blocks al" "json_fine c" "cj_typed c" "0 \<le> prebuffer" "prebuffer \<le> 2 ^ 30"
    and "print_value c 0 fmt = Some x" "int (length x) + 64 \<le> 2 ^ 30"
  shows "cJSON_PrintBuffered al c prebuffer fmt = Some x \<and> cJSON_PrintBuffered (\<lambda>_. None) c prebuffer fmt = None"
proof
  obtain b where b: "al prebuffer = Some b" "int (length b) = prebuffer"
    using assms(1,4,5) unfolding gives_blocks_def by blast
  define p where "p = \<lparr>pb_buffer = al prebuffer, pb_length = prebuffer, pb_offset = 0\<rparr>"
  have x: "render c 0 fmt = x" using assms(6) by (simp add: render_def)
  have "filled [] p" using b by (auto simp: filled_def p_def)
  then have w: "wp (print_value_b al c 0 fmt) (\<lambda>i p'. i = Some 0 \<and> wrote [] x p') p"
    using prints_all [OF assms(1,2,3)] assms(7) x unfolding prints_b_def by fastforce
  obtain i p' where r: "run_state (print_value_b al c 0 fmt) p = (i, p')" by (cases "run_state (print_value_b al c 0 fmt) p")
  note res = wpD [OF w r]
  then obtain rest where "pb_buffer p' = Some (x @ CHR 0x00 # rest)" by (auto simp: wrote_def)
  moreover have "nul_free x" using nul_free_render_fine [OF assms(2)] x by auto
  then have "takeWhile (\<lambda>c. c \<noteq> CHR 0x00) (x @ CHR 0x00 # rest) = x" by (subst takeWhile_append2) (auto simp: nul_free_def)
  ultimately show "cJSON_PrintBuffered al c prebuffer fmt = Some x"
    using res r by (simp add: cJSON_PrintBuffered_def flip: p_def)
  show "cJSON_PrintBuffered (\<lambda>_. None) c prebuffer fmt = None"
    using no_buffer [of "\<lparr>pb_buffer = None, pb_length = prebuffer, pb_offset = 0\<rparr>"]
    by (auto simp: cJSON_PrintBuffered_def split: prod.split option.split) (metis fst_conv option.distinct(1))
qed

text \<open>An array of a number and a word, printed with tabs, from a first buffer of one byte.\<close>

definition ex_items :: cJSON where
  "ex_items = CJ cJSON_Array None 0 (Fin 0) None [cJSON_CreateNumber (Fin 0), cJSON_CreateTrue]"

definition ex_blocks :: allocator where
  "ex_blocks n = Some (replicate (nat n) CHR ''x'')"

theorem print_buffered_agrees_witness: "cJSON_PrintBuffered ex_blocks ex_items 1 True = Some ''[0, true]''"
  using d_to_i64_int [of 0]
  by (intro print_buffered_agrees [THEN conjunct1])
    (simp_all add: gives_blocks_def ex_blocks_def ex_items_def cJSON_CreateNumber_def cJSON_CreateTrue_def cJSON_New_Item_def
      json_types printable_def print_number_def array_text_def)

end
