(* ===== verification/Timer_Heap.thy ===== *)
theory Timer_Heap
  imports Timer
begin

text \<open>
  \<open>timer.c\<close> at the level of its pointers: timers are nodes of a heap with \<open>prev\<close> and \<open>next\<close> links, the
  active list is doubly linked from \<open>timers\<close> and the free list singly linked through \<open>next\<close> from
  \<open>free_timers\<close>. Every assignment to a link is an update of the heap. The lemmas relate the links to
  the lists of \<open>Timer\<close>: the pointer code implements the list operations, so what holds of the lists
  holds of the heap.
\<close>

section \<open>Nodes and links\<close>

record tnode =
  nd_timer :: timer
  nd_prev :: "nat option"
  nd_next :: "nat option"

record theap =
  h_nodes :: "nat \<Rightarrow> tnode"
  h_timers :: "nat option"
  h_free :: "nat option"

definition set_prev :: "nat \<Rightarrow> nat option \<Rightarrow> theap \<Rightarrow> theap" where
  "set_prev a p h = h\<lparr>h_nodes := (h_nodes h)(a := (h_nodes h a)\<lparr>nd_prev := p\<rparr>)\<rparr>"

definition set_next :: "nat \<Rightarrow> nat option \<Rightarrow> theap \<Rightarrow> theap" where
  "set_next a p h = h\<lparr>h_nodes := (h_nodes h)(a := (h_nodes h a)\<lparr>nd_next := p\<rparr>)\<rparr>"

definition set_timers :: "nat option \<Rightarrow> theap \<Rightarrow> theap" where
  "set_timers p h = h\<lparr>h_timers := p\<rparr>"

definition prev_of :: "theap \<Rightarrow> nat \<Rightarrow> nat option" where
  "prev_of h a = nd_prev (h_nodes h a)"

definition next_of :: "theap \<Rightarrow> nat \<Rightarrow> nat option" where
  "next_of h a = nd_next (h_nodes h a)"

definition time_of :: "theap \<Rightarrow> nat \<Rightarrow> timeval" where
  "time_of h a = tm_time (nd_timer (h_nodes h a))"

section \<open>Operations\<close>

text \<open>The walk of \<open>list_add\<close>; it would not end on a circular list.\<close>

partial_function (option) list_add_walk :: "nat \<Rightarrow> nat \<Rightarrow> nat option \<Rightarrow> theap \<Rightarrow> theap option" where
  "list_add_walk t t2prev t2 h =
     (case t2 of
        None \<Rightarrow> Some (set_next t None (set_prev t (Some t2prev) (set_next t2prev (Some t) h)))
      | Some b \<Rightarrow>
          if tv_before (time_of h t) (time_of h b)
          then Some (set_prev b (Some t) (set_next t (Some b)
                 (set_prev t (Some t2prev) (set_next t2prev (Some t) h))))
          else list_add_walk t b (next_of h b) h)"

definition list_add_h :: "nat \<Rightarrow> theap \<Rightarrow> theap option" where
  "list_add_h t h =
     (case h_timers h of
        None \<Rightarrow> Some (set_next t None (set_prev t None (set_timers (Some t) h)))
      | Some a \<Rightarrow>
          if tv_before (time_of h t) (time_of h a)
          then Some (set_timers (Some t) (set_prev a (Some t) (set_next t (Some a) (set_prev t None h))))
          else list_add_walk t a (next_of h a) h)"

definition list_remove_h :: "nat \<Rightarrow> theap \<Rightarrow> theap" where
  "list_remove_h t h =
     (let h1 = (case prev_of h t of
                  None \<Rightarrow> set_timers (next_of h t) h
                | Some p \<Rightarrow> set_next p (next_of h t) h)
      in case next_of h1 t of None \<Rightarrow> h1 | Some n \<Rightarrow> set_prev n (prev_of h1 t) h1)"

definition tmr_cancel_h :: "nat \<Rightarrow> theap \<Rightarrow> theap" where
  "tmr_cancel_h t h =
     (let h1 = list_remove_h t h
      in set_prev t None ((set_next t (h_free h1) h1)\<lparr>h_free := Some t\<rparr>))"

section \<open>The lists a heap holds\<close>

fun dseg :: "(nat \<Rightarrow> tnode) \<Rightarrow> nat option \<Rightarrow> nat option \<Rightarrow> timer list \<Rightarrow> bool" where
  "dseg h q p [] = (p = None)"
| "dseg h q p (t # ts) =
     (p = Some (tm_addr t) \<and> nd_timer (h (tm_addr t)) = t \<and> nd_prev (h (tm_addr t)) = q \<and>
      dseg h (Some (tm_addr t)) (nd_next (h (tm_addr t))) ts)"

fun fseg :: "(nat \<Rightarrow> tnode) \<Rightarrow> nat option \<Rightarrow> nat list \<Rightarrow> bool" where
  "fseg h p [] = (p = None)"
| "fseg h p (a # as) = (p = Some a \<and> fseg h (nd_next (h a)) as)"

definition holds_lists :: "theap \<Rightarrow> timer list \<Rightarrow> nat list \<Rightarrow> bool" where
  "holds_lists h ts fs \<longleftrightarrow> dseg (h_nodes h) None (h_timers h) ts \<and> fseg (h_nodes h) (h_free h) fs \<and>
     distinct (map tm_addr ts @ fs)"

lemmas link_defs = set_prev_def set_next_def set_timers_def prev_of_def next_of_def time_of_def

lemma dseg_frame: "(\<And>a. a \<in> tm_addr ` set ts \<Longrightarrow> h' a = h a) \<Longrightarrow> dseg h' q p ts = dseg h q p ts"
  by (induction ts arbitrary: q p) auto

lemma fseg_frame: "(\<And>a. a \<in> set fs \<Longrightarrow> h' a = h a) \<Longrightarrow> fseg h' p fs = fseg h p fs"
  by (induction fs arbitrary: p) auto

lemma dseg_upd [simp]: "a \<notin> tm_addr ` set ts \<Longrightarrow> dseg (h(a := n)) q p ts = dseg h q p ts"
  by (rule dseg_frame) auto

lemma fseg_upd [simp]: "a \<notin> set fs \<Longrightarrow> fseg (h(a := n)) p fs = fseg h p fs"
  by (rule fseg_frame) auto

text \<open>The walk inserts a timer behind the node it stands on, wherever the abstract list does.\<close>

lemma list_add_walk_correct:
  assumes "dseg (h_nodes h) q (Some (tm_addr u)) (u # ts)"
    and "distinct (map tm_addr (u # ts))" "tm_addr t \<notin> tm_addr ` set (u # ts)"
    and "nd_timer (h_nodes h (tm_addr t)) = t"
  shows "\<exists>h'. list_add_walk (tm_addr t) (tm_addr u) (nd_next (h_nodes h (tm_addr u))) h = Some h' \<and>
    dseg (h_nodes h') q (Some (tm_addr u)) (u # list_add t ts) \<and>
    h_timers h' = h_timers h \<and> h_free h' = h_free h \<and>
    (\<forall>a. a \<noteq> tm_addr t \<longrightarrow> a \<notin> tm_addr ` set (u # ts) \<longrightarrow> h_nodes h' a = h_nodes h a)"
  using assms
proof (induction ts arbitrary: q u)
  case Nil
  then show ?case by (subst list_add_walk.simps) (auto simp: link_defs)
next
  case (Cons v ts)
  show ?case
  proof (cases "tv_before (tm_time t) (tm_time v)")
    case True
    with Cons.prems show ?thesis
      by (subst list_add_walk.simps) (auto simp: link_defs)
  next
    case False
    have "dseg (h_nodes h) (Some (tm_addr u)) (Some (tm_addr v)) (v # ts)"
      using Cons.prems(1) by auto
    from Cons.IH [OF this] Cons.prems obtain h' where
      h': "list_add_walk (tm_addr t) (tm_addr v) (nd_next (h_nodes h (tm_addr v))) h = Some h'"
        "dseg (h_nodes h') (Some (tm_addr u)) (Some (tm_addr v)) (v # list_add t ts)"
        "h_timers h' = h_timers h" "h_free h' = h_free h"
        "\<forall>a. a \<noteq> tm_addr t \<longrightarrow> a \<notin> tm_addr ` set (v # ts) \<longrightarrow> h_nodes h' a = h_nodes h a"
      by auto
    have "h_nodes h' (tm_addr u) = h_nodes h (tm_addr u)"
      using h'(5) Cons.prems by auto
    then show ?thesis
      using h' False Cons.prems by (subst list_add_walk.simps) (auto simp: link_defs)
  qed
qed


text \<open>The two assignments by which \<open>list_remove\<close> takes a node out of the chain.\<close>

definition unlink :: "(nat \<Rightarrow> tnode) \<Rightarrow> nat \<Rightarrow> nat \<Rightarrow> tnode" where
  "unlink h t =
     (let h1 = (case nd_prev (h t) of None \<Rightarrow> h | Some p \<Rightarrow> h(p := (h p)\<lparr>nd_next := nd_next (h t)\<rparr>))
      in case nd_next (h t) of None \<Rightarrow> h1 | Some n \<Rightarrow> h1(n := (h1 n)\<lparr>nd_prev := nd_prev (h t)\<rparr>))"

lemma links_of:
  "dseg h q p (pre @ t # ts) \<Longrightarrow>
     nd_prev (h (tm_addr t)) = (if pre = [] then q else Some (tm_addr (last pre))) \<and>
     nd_next (h (tm_addr t)) = first_timer ts"
proof (induction pre arbitrary: q p)
  case Nil
  then show ?case by (cases ts) (simp_all add: first_timer_def)
next
  case (Cons u pre)
  then show ?case using Cons.IH [of "Some (tm_addr u)" "nd_next (h (tm_addr u))"] by simp
qed

lemma unlink_head:
  assumes "dseg h None p (t # ts)" "distinct (map tm_addr (t # ts))"
  shows "dseg (unlink h (tm_addr t)) None (nd_next (h (tm_addr t))) ts"
  using assms by (cases ts) (auto simp: unlink_def)

lemma unlink_inner:
  assumes "dseg h q p (u # pre @ t # ts)" "distinct (map tm_addr (u # pre @ t # ts))"
  shows "dseg (unlink h (tm_addr t)) q p (u # pre @ ts)"
  using assms
proof (induction pre arbitrary: u q p)
  case Nil
  then show ?case
  proof (cases ts)
    case (Cons v vs)
    have nx: "nd_next (h (tm_addr t)) = Some (tm_addr v)" "nd_prev (h (tm_addr t)) = Some (tm_addr u)"
      using Nil.prems Cons by auto
    have "unlink h (tm_addr t) a = h a" if "a \<in> tm_addr ` set vs" for a
    proof -
      have "tm_addr u \<notin> tm_addr ` set vs" "tm_addr v \<notin> tm_addr ` set vs"
        using Nil.prems(2) Cons by simp_all
      then have "a \<noteq> tm_addr u" "a \<noteq> tm_addr v" using that by blast+
      then show ?thesis using nx by (simp add: unlink_def)
    qed
    then have "dseg (unlink h (tm_addr t)) (Some (tm_addr v)) (nd_next (h (tm_addr v))) vs"
      using Nil.prems Cons by (subst dseg_frame [where h = h]) auto
    moreover have "unlink h (tm_addr t) (tm_addr u) = (h (tm_addr u))\<lparr>nd_next := Some (tm_addr v)\<rparr>"
      "unlink h (tm_addr t) (tm_addr v) = (h (tm_addr v))\<lparr>nd_prev := Some (tm_addr u)\<rparr>"
      using nx Nil.prems(2) Cons by (simp_all add: unlink_def)
    ultimately show ?thesis using Nil.prems Cons by simp
  qed (auto simp: unlink_def)
next
  case (Cons v pre)
  have "dseg (unlink h (tm_addr t)) (Some (tm_addr u)) (nd_next (h (tm_addr u))) (v # pre @ ts)"
    using Cons.prems by (intro Cons.IH) auto
  moreover have "unlink h (tm_addr t) (tm_addr u) = h (tm_addr u)"
  proof -
    have "tm_addr u \<notin> tm_addr ` set (v # pre)" "tm_addr u \<notin> tm_addr ` set ts"
      using Cons.prems(2) by simp_all
    moreover have "tm_addr (last (v # pre)) \<in> tm_addr ` set (v # pre)"
      by (intro imageI last_in_set) simp
    ultimately have "tm_addr (last (v # pre)) \<noteq> tm_addr u" "first_timer ts \<noteq> Some (tm_addr u)"
      using first_timer_in [of ts "tm_addr u"] by metis+
    then show ?thesis
      using links_of [of h q p "u # v # pre" t ts] Cons.prems(1)
      by (cases "first_timer ts") (simp_all add: unlink_def Let_def)
  qed
  ultimately show ?case using Cons.prems(1) by simp
qed

lemma prev_inner: "dseg h q p (u # pre @ t # ts) \<Longrightarrow> nd_prev (h (tm_addr t)) \<noteq> None"
  using links_of [of h q p "u # pre" t ts] by simp

lemma list_remove_h_nodes:
  "nd_next (h_nodes h t) \<noteq> Some t \<Longrightarrow> nd_prev (h_nodes h t) \<noteq> Some t \<Longrightarrow>
     h_nodes (list_remove_h t h) = unlink (h_nodes h) t \<and> h_free (list_remove_h t h) = h_free h \<and>
     h_timers (list_remove_h t h) =
       (case nd_prev (h_nodes h t) of None \<Rightarrow> nd_next (h_nodes h t) | Some _ \<Rightarrow> h_timers h)"
  by (auto simp: list_remove_h_def unlink_def link_defs Let_def split: option.split)

lemma dseg_no_self:
  "dseg h q p (pre @ t # ts) \<Longrightarrow> distinct (map tm_addr (pre @ t # ts)) \<Longrightarrow>
     (q \<noteq> Some (tm_addr t)) \<Longrightarrow>
     nd_next (h (tm_addr t)) \<noteq> Some (tm_addr t) \<and> nd_prev (h (tm_addr t)) \<noteq> Some (tm_addr t)"
proof (induction pre arbitrary: q p)
  case Nil
  then show ?case by (cases ts) auto
qed auto

lemma unlink_frame:
  assumes "dseg h None p (pre @ t # ts)" "a \<notin> tm_addr ` set (pre @ t # ts)"
  shows "unlink h (tm_addr t) a = h a"
proof -
  have "pre \<noteq> [] \<Longrightarrow> tm_addr (last pre) \<noteq> a" "first_timer ts \<noteq> Some a"
    using assms(2) first_timer_in [of ts a] by auto
  then show ?thesis
    using links_of [OF assms(1)]
    by (cases "pre = []"; cases "first_timer ts") (auto simp: unlink_def Let_def)
qed

section \<open>The heap implements the lists\<close>

lemma list_add_h_correct:
  assumes d: "dseg (h_nodes h) None (h_timers h) ts" and dist: "distinct (map tm_addr ts)"
    and t: "tm_addr t \<notin> tm_addr ` set ts" "nd_timer (h_nodes h (tm_addr t)) = t"
  shows "\<exists>h'. list_add_h (tm_addr t) h = Some h' \<and>
    dseg (h_nodes h') None (h_timers h') (list_add t ts) \<and> h_free h' = h_free h \<and>
    (\<forall>a. a \<noteq> tm_addr t \<longrightarrow> a \<notin> tm_addr ` set ts \<longrightarrow> h_nodes h' a = h_nodes h a)"
proof (cases ts)
  case Nil
  then show ?thesis using assms by (auto simp: list_add_h_def link_defs)
next
  case (Cons u us)
  show ?thesis
  proof (cases "tv_before (tm_time t) (tm_time u)")
    case True
    with Cons assms show ?thesis by (auto simp: list_add_h_def link_defs)
  next
    case False
    have "dseg (h_nodes h) None (Some (tm_addr u)) (u # us)" using d Cons by simp
    then obtain h' where
      h': "list_add_walk (tm_addr t) (tm_addr u) (nd_next (h_nodes h (tm_addr u))) h = Some h'"
        "dseg (h_nodes h') None (Some (tm_addr u)) (u # list_add t us)"
        "h_timers h' = h_timers h" "h_free h' = h_free h"
        "\<forall>a. a \<noteq> tm_addr t \<longrightarrow> a \<notin> tm_addr ` set (u # us) \<longrightarrow> h_nodes h' a = h_nodes h a"
      using list_add_walk_correct dist t unfolding Cons by blast
    then show ?thesis
      using False Cons d t(2) by (auto simp: list_add_h_def link_defs)
  qed
qed

lemma list_remove_h_correct:
  assumes d: "dseg (h_nodes h) None (h_timers h) ts" and dist: "distinct (map tm_addr ts)"
    and a: "a \<in> tm_addr ` set ts"
  shows "dseg (h_nodes (list_remove_h a h)) None (h_timers (list_remove_h a h)) (list_remove a ts)"
    and "h_free (list_remove_h a h) = h_free h"
    and "b \<notin> tm_addr ` set ts \<Longrightarrow> h_nodes (list_remove_h a h) b = h_nodes h b"
proof -
  obtain pre t us where t: "ts = pre @ t # us" "tm_addr t = a"
    using a by (auto simp: in_set_conv_decomp)
  note d = d [unfolded t(1)] and dist = dist [unfolded t(1)]
  have r: "list_remove a ts = pre @ us" using list_remove_split [OF dist] t by simp
  have ns: "nd_next (h_nodes h a) \<noteq> Some a" "nd_prev (h_nodes h a) \<noteq> Some a"
    using dseg_no_self [OF d dist] t by simp_all
  note n = list_remove_h_nodes [OF ns]
  show "dseg (h_nodes (list_remove_h a h)) None (h_timers (list_remove_h a h)) (list_remove a ts)"
  proof (cases pre)
    case Nil
    then show ?thesis using unlink_head [of "h_nodes h" "h_timers h" t us] d dist t n r by auto
  next
    case (Cons u pre')
    note c = d [unfolded Cons append_Cons] dist [unfolded Cons append_Cons]
    show ?thesis
      using unlink_inner [OF c] prev_inner [OF c(1)] n t(2) r by (auto simp: Cons)
  qed
  show "h_free (list_remove_h a h) = h_free h" using n by simp
  show "b \<notin> tm_addr ` set ts \<Longrightarrow> h_nodes (list_remove_h a h) b = h_nodes h b"
    using unlink_frame [OF d] n t by simp
qed

text \<open>
  The pointer code of \<open>list_add\<close>, on a heap whose links hold the lists \<open>ts\<close> and \<open>fs\<close>, ends and leaves
  the links holding the abstract insertion, so the list stays sorted and doubly linked; the free
  list is not touched.
\<close>

theorem list_add_refines:
  assumes "holds_lists h ts fs" "tm_addr t \<notin> tm_addr ` set ts" "tm_addr t \<notin> set fs"
    and "nd_timer (h_nodes h (tm_addr t)) = t"
  shows "\<exists>h'. list_add_h (tm_addr t) h = Some h' \<and> holds_lists h' (list_add t ts) fs"
proof -
  have disj: "tm_addr ` set ts \<inter> set fs = {}" and dist: "distinct (map tm_addr ts)"
    using assms(1) by (auto simp: holds_lists_def)
  obtain h' where h': "list_add_h (tm_addr t) h = Some h'"
      "dseg (h_nodes h') None (h_timers h') (list_add t ts)" "h_free h' = h_free h"
      "\<forall>a. a \<noteq> tm_addr t \<longrightarrow> a \<notin> tm_addr ` set ts \<longrightarrow> h_nodes h' a = h_nodes h a"
    using list_add_h_correct [OF _ dist assms(2,4)] assms(1) unfolding holds_lists_def by blast
  have "h_nodes h' a = h_nodes h a" if "a \<in> set fs" for a
    using h'(4) disj assms(3) that by (metis disjoint_iff)
  then have "fseg (h_nodes h') (h_free h') fs"
    using assms(1) h'(3) fseg_frame [of fs "h_nodes h'" "h_nodes h"] by (simp add: holds_lists_def)
  moreover have "distinct (map tm_addr (list_add t ts) @ fs)"
    using distinct_map_list_add [OF dist assms(2)] disj assms(1,3) by (simp add: holds_lists_def)
  ultimately show ?thesis using h'(1,2) by (simp add: holds_lists_def)
qed

text \<open>
  \<open>tmr_cancel\<close> on the links takes an active timer out of the doubly linked list, at its head, in
  its middle or at its end, and pushes it on the free list.
\<close>

theorem tmr_cancel_refines:
  assumes "holds_lists h ts fs" "a \<in> tm_addr ` set ts"
  shows "holds_lists (tmr_cancel_h a h) (list_remove a ts) (a # fs)"
proof -
  have d: "dseg (h_nodes h) None (h_timers h) ts" and dist: "distinct (map tm_addr ts)"
    and f: "fseg (h_nodes h) (h_free h) fs" and dfs: "distinct fs"
    and disj: "tm_addr ` set ts \<inter> set fs = {}"
    using assms by (auto simp: holds_lists_def)
  note r = list_remove_h_correct [OF d dist assms(2)]
  have "b \<notin> tm_addr ` set ts" if "b \<in> set fs" for b using disj that by blast
  then have fr: "fseg (h_nodes (list_remove_h a h)) (h_free h) fs"
    using f r(3) fseg_frame [of fs "h_nodes (list_remove_h a h)" "h_nodes h"] by simp
  have "a \<notin> tm_addr ` set (list_remove a ts)" "a \<notin> set fs"
    using list_remove_filter [OF dist, of a] disj assms(2) by auto
  moreover have "distinct (map tm_addr (list_remove a ts))" "tm_addr ` set (list_remove a ts) \<inter> set fs = {}"
    using list_remove_filter [OF dist, of a] dist disj by (auto simp: distinct_map_filter)
  ultimately show ?thesis
    using r(1,2) fr dfs by (auto simp: tmr_cancel_h_def holds_lists_def link_defs Let_def)
qed

section \<open>The heap as a timer queue\<close>

partial_function (option) read_list :: "(nat \<Rightarrow> tnode) \<Rightarrow> nat option \<Rightarrow> timer list option" where
  "read_list h p =
     (case p of
        None \<Rightarrow> Some []
      | Some a \<Rightarrow> Option.bind (read_list h (nd_next (h a))) (\<lambda>ts. Some (nd_timer (h a) # ts)))"

lemma read_list_dseg: "dseg h q p ts \<Longrightarrow> read_list h p = Some ts"
  by (induction ts arbitrary: q p) (subst read_list.simps, auto)+

definition heap_items :: "theap \<Rightarrow> timer list" where
  "heap_items h = (case read_list (h_nodes h) (h_timers h) of None \<Rightarrow> [] | Some ts \<Rightarrow> ts)"

definition heap_ok :: "theap \<Rightarrow> bool" where
  "heap_ok h \<longleftrightarrow> dseg (h_nodes h) None (h_timers h) (heap_items h) \<and> timers_ok (heap_items h)"

text \<open>Fill in a node and link it, as \<open>tmr_create\<close> does.\<close>

definition heap_add :: "timer \<Rightarrow> theap \<Rightarrow> theap" where
  "heap_add t h =
     (let h1 = h\<lparr>h_nodes := (h_nodes h)(tm_addr t := (h_nodes h (tm_addr t))\<lparr>nd_timer := t\<rparr>)\<rparr>
      in case list_add_h (tm_addr t) h1 of None \<Rightarrow> h1 | Some h2 \<Rightarrow> h2)"

lemma heap_items_dseg: "dseg (h_nodes h) None (h_timers h) ts \<Longrightarrow> heap_items h = ts"
  by (simp add: heap_items_def read_list_dseg)

lemma heap_add_items:
  assumes "heap_ok h" "tm_addr t \<notin> tm_addr ` set (heap_items h)"
  shows "dseg (h_nodes (heap_add t h)) None (h_timers (heap_add t h)) (list_add t (heap_items h))"
proof -
  let ?h = "h\<lparr>h_nodes := (h_nodes h)(tm_addr t := (h_nodes h (tm_addr t))\<lparr>nd_timer := t\<rparr>)\<rparr>"
  have "dseg (h_nodes ?h) None (h_timers ?h) (heap_items h)"
    using assms by (simp add: heap_ok_def)
  from list_add_h_correct [OF this, of t] assms show ?thesis
    by (auto simp: heap_add_def heap_ok_def timers_ok_def)
qed

interpretation hq: timer_queue heap_ok heap_items heap_add list_remove_h
proof unfold_locales
  fix h :: theap and t :: timer
  assume ok: "heap_ok h" "tm_addr t \<notin> tm_addr ` set (heap_items h)"
  note i = heap_items_dseg [OF heap_add_items [OF ok]]
  show "heap_ok (heap_add t h)" "mset (heap_items (heap_add t h)) = add_mset t (mset (heap_items h))"
    using heap_add_items [OF ok] ok tq.add_ok [of "heap_items h" t] by (auto simp: heap_ok_def i)
next
  fix h :: theap and a assume ok: "heap_ok h" "a \<in> tm_addr ` set (heap_items h)"
  then have d: "dseg (h_nodes (list_remove_h a h)) None (h_timers (list_remove_h a h))
      (list_remove a (heap_items h))"
    by (intro list_remove_h_correct) (auto simp: heap_ok_def timers_ok_def)
  show "heap_ok (list_remove_h a h)"
    "mset (heap_items (list_remove_h a h)) = filter_mset (\<lambda>t. tm_addr t \<noteq> a) (mset (heap_items h))"
    using d heap_items_dseg [OF d] ok tq.remove_ok [of "heap_items h" a] tq.remove_items [of "heap_items h" a]
    by (auto simp: heap_ok_def)
qed (auto simp: heap_ok_def timers_ok_def)

text \<open>
  C27: \<open>list_resort\<close> on the links is exact. Removing a node and adding it again, with a new expiry time,
  keeps a well-formed sorted chain of the same nodes, and the order of expiry times in it is the
  one the abstract list has.
\<close>

theorem heap_resort_correct:
  assumes "heap_ok h" "tm_addr t \<in> tm_addr ` set (heap_items h)"
  shows "heap_ok (heap_add t (list_remove_h (tm_addr t) h)) \<and>
    map tm_time (heap_items (heap_add t (list_remove_h (tm_addr t) h))) =
      map tm_time (list_resort t (heap_items h)) \<and>
    mset (heap_items (heap_add t (list_remove_h (tm_addr t) h))) = mset (list_resort t (heap_items h))"
proof -
  have ok: "timers_ok (heap_items h)" using assms by (simp add: heap_ok_def)
  have m: "mset (list_resort t (heap_items h)) = mset (heap_items (hq.resort t h))"
    using tq.resort_items [OF ok assms(2)] hq.resort_items [OF assms] by simp
  have "sorted (map tm_time (list_resort t (heap_items h)))"
    using tq.resort_ok [OF ok assms(2)] by (simp add: timers_ok_def)
  from hq.times_determined [OF hq.resort_ok [OF assms] this m] show ?thesis
    using hq.resort_ok [OF assms] m by (simp add: hq.resort_def)
qed

section \<open>Instances\<close>

definition ex_node :: tnode where
  "ex_node = \<lparr>nd_timer = ex_timer 9 Test_timer_proc 0 False 0, nd_prev = None, nd_next = None\<rparr>"

text \<open>Three active timers at the addresses 1, 2, 3, the node 4 filled in and not linked, 5 free.\<close>

definition ex_heap :: theap where
  "ex_heap = \<lparr>h_nodes = (\<lambda>_. ex_node)
     (1 := \<lparr>nd_timer = ex_timer 1 Client_stats_timer_proc 1 True 3, nd_prev = None, nd_next = Some 2\<rparr>,
      2 := \<lparr>nd_timer = ex_timer 2 Test_timer_proc 1 False 5, nd_prev = Some 1, nd_next = Some 3\<rparr>,
      3 := \<lparr>nd_timer = ex_timer 3 Send_timer_proc 1 True 7, nd_prev = Some 2, nd_next = None\<rparr>,
      4 := \<lparr>nd_timer = ex_timer 4 Send_timer_proc 1 True 6, nd_prev = None, nd_next = None\<rparr>),
     h_timers = Some 1, h_free = Some 5\<rparr>"

definition ex_list :: "timer list" where
  "ex_list = [ex_timer 1 Client_stats_timer_proc 1 True 3, ex_timer 2 Test_timer_proc 1 False 5,
     ex_timer 3 Send_timer_proc 1 True 7]"

lemma ex_heap_holds: "holds_lists ex_heap ex_list [5]"
  by (simp add: holds_lists_def ex_heap_def ex_list_def ex_timer_def ex_node_def)

theorem list_add_refines_witness:
  "\<exists>h'. list_add_h 4 ex_heap = Some h' \<and>
     holds_lists h' (list_add (ex_timer 4 Send_timer_proc 1 True 6) ex_list) [5]"
  using list_add_refines [OF ex_heap_holds, of "ex_timer 4 Send_timer_proc 1 True 6"]
  by (simp add: ex_list_def ex_timer_def ex_heap_def)

theorem tmr_cancel_refines_witness:
  "holds_lists (tmr_cancel_h 2 ex_heap)
     [ex_timer 1 Client_stats_timer_proc 1 True 3, ex_timer 3 Send_timer_proc 1 True 7] [2, 5]"
  using tmr_cancel_refines [OF ex_heap_holds, of 2] by (simp add: ex_list_def ex_timer_def)

theorem heap_resort_correct_witness:
  "heap_ok (heap_add (ex_timer 1 Client_stats_timer_proc 1 True 6) (list_remove_h 1 ex_heap)) \<and>
   map tm_time (heap_items (heap_add (ex_timer 1 Client_stats_timer_proc 1 True 6) (list_remove_h 1 ex_heap))) =
     [Timeval 5 0, Timeval 6 0, Timeval 7 0]"
proof -
  have i: "heap_items ex_heap = ex_list"
    using ex_heap_holds by (intro heap_items_dseg) (simp add: holds_lists_def)
  have "heap_ok ex_heap"
    using ex_heap_holds
    by (auto simp: heap_ok_def i holds_lists_def timers_ok_def ex_list_def ex_timer_def less_eq_timeval_def)
  from heap_resort_correct [OF this, of "ex_timer 1 Client_stats_timer_proc 1 True 6"] show ?thesis
    by (simp add: i ex_list_def ex_timer_def list_resort_def less_timeval_def)
qed

end
