(* ===== verification/Results_Facts.thy ===== *)
theory Results_Facts
  imports Wire Streams
begin

text \<open>
  The exchange of the results: what one side sends of its streams is what the other side then reports
  of them.
\<close>

section \<open>Members of a parsed object\<close>

lemma find_reread: "find_child (map reread (items es)) nm = map_option reread (lookup es nm)"
  by (induction es nm rule: lookup.induct) (auto simp: items_def named_def orelse_def reread_string split: option.splits)

lemma reread_child: "cj_type c \<noteq> cJSON_Number \<Longrightarrow> cj_child (reread c) = map reread (cj_child c)"
  by (cases c) simp

lemma object_item: "cJSON_GetObjectItem (Some (reread (add_items cJSON_CreateObject es))) nm =
    map_option reread (lookup es nm)"
proof -
  have "cj_type (add_items cJSON_CreateObject es) = cJSON_Object"
    by (simp add: add_items_child cJSON_CreateObject_def cJSON_New_Item_def)
  then show ?thesis
    by (simp add: cJSON_GetObjectItem_def reread_child find_reread add_items_child cJSON_CreateObject_def cJSON_New_Item_def json_types)
qed

definition fine_item :: "cJSON option \<Rightarrow> bool" where
  "fine_item it \<longleftrightarrow> (case it of None \<Rightarrow> True | Some x \<Rightarrow> json_fine x)"

lemma fine_set_string: "json_fine (cj_set_string k x) = json_fine x"
  by (cases x) simp

lemma fine_add_items:
  assumes "list_all (\<lambda>(k, it). nul_free k \<and> fine_item it) es"
  shows "json_fine (add_items cJSON_CreateObject es)" "cj_string (add_items cJSON_CreateObject es) = None"
proof -
  have "json_fine x \<and> (\<exists>s. cj_string x = Some s \<and> nul_free s)" if x: "x \<in> set (items es)" for x
  proof -
    obtain k y where "(k, Some y) \<in> set es" "x = cj_set_string (Some k) y" using items_named [OF x] by blast
    then show ?thesis using assms by (auto simp: list_all_iff fine_item_def fine_set_string)
  qed
  then show "json_fine (add_items cJSON_CreateObject es)"
    by (simp add: add_items_child cJSON_CreateObject_def cJSON_New_Item_def json_types)
  show "cj_string (add_items cJSON_CreateObject es) = None"
    by (simp add: add_items_child cJSON_CreateObject_def cJSON_New_Item_def)
qed

lemma fine_int: "\<bar>n\<bar> \<le> 9007199254740992 \<Longrightarrow> fine_item (num_item n)"
  using ok_items(1) [of n] json_ok_fineD(1) by (simp add: ok_item_def fine_item_def num_item_def)

lemma fine_double: "printable d \<Longrightarrow> fine_item (double_item d)"
  by (simp add: fine_item_def double_item_def cJSON_CreateNumber_def json_types)

lemma reread_int: "\<bar>n\<bar> \<le> 9007199254740992 \<Longrightarrow> cj_valueint (reread (cj_set_string k (cJSON_CreateInt n))) = n"
  using ok_items(1) [of n] int_item [of n k] json_ok_fineD(2) [of "cj_set_string k (cJSON_CreateInt n)"]
  by (simp add: ok_item_def num_item_def json_ok_set_string)

text \<open>The value of a number that was printed and parsed.\<close>

definition reread_double :: "double \<Rightarrow> double" where
  "reread_double d = cj_valuedouble (reread (cJSON_CreateNumber d))"

lemma print_number_name: "print_number (CJ t vs vi vd nm ch) = print_number (CJ t vs vi vd nm' ch)"
  unfolding print_number_def cJSON.sel ..

lemma parse_number_name: "parse_number (CJ t vs vi vd nm ch) x = POk c r \<Longrightarrow>
    parse_number (CJ t vs vi vd nm' ch) x = POk (cj_set_string nm' c) r"
  by (auto simp: parse_number_def Let_def split: prod.splits)

lemma reread_set_string: "reread (cj_set_string k c) = cj_set_string k (reread c)"
proof (cases c)
  case (CJ t vs vi vd nm ch)
  obtain i v r where p: "parse_number (CJ t vs vi vd nm ch) (print_number (CJ t vs vi vd nm ch)) = POk (CJ cJSON_Number vs i v nm ch) r"
    using parse_number_keeps by blast
  then show ?thesis
    using parse_number_name [OF p, of k] print_number_name [of t vs vi vd k ch nm] p
    by (cases "t = cJSON_Number") (simp_all add: CJ)
qed

section \<open>The results of a stream\<close>

text \<open>What a test's fields must be for its results to be written and read back.\<close>

definition stream_bytes :: "iperf_test \<Rightarrow> iperf_stream \<Rightarrow> int" where
  "stream_bytes t sp =
     (if t_sender t \<noteq> 0 then u64 (rp_bytes_sent (sp_result sp) - rp_bytes_sent_omit (sp_result sp))
      else rp_bytes_received (sp_result sp))"

definition stream_retransmits :: "iperf_test \<Rightarrow> iperf_stream \<Rightarrow> int" where
  "stream_retransmits t sp =
     (if t_sender t \<noteq> 0 \<and> t_sender_has_retransmits t \<noteq> 0 then rp_stream_retrans (sp_result sp) else -1)"

definition stream_ok :: "iperf_test \<Rightarrow> iperf_stream \<Rightarrow> bool" where
  "stream_ok t sp \<longleftrightarrow>
     in_i32 (sp_id sp) \<and> in_i32 (rp_stream_retrans (sp_result sp)) \<and> in_i32 (sp_cnt_error sp) \<and> in_i32 (sp_packet_count sp) \<and>
     printable (sp_jitter sp) \<and>
     0 \<le> stream_bytes t sp \<and> stream_bytes t sp \<le> 2 ^ 53"

definition results_ok :: "iperf_test \<Rightarrow> (nat \<Rightarrow> iperf_stream) \<Rightarrow> bool" where
  "results_ok t h \<longleftrightarrow>
     (case t_cpu_util t of (c0, c1, c2) \<Rightarrow> printable c0 \<and> printable c1 \<and> printable c2) \<and>
     in_i32 (t_sender_has_retransmits t) \<and> (\<forall>p \<in> set (t_streams t). stream_ok t (h p)) \<and>
     distinct (map (\<lambda>p. sp_id (h p)) (t_streams t)) \<and>
     (t_role t = CHR ''s'' \<and> t_get_server_output t \<noteq> 0 \<longrightarrow>
        t_json_output t = 0 \<and> nul_free (concat (t_server_output_list t)))"

definition stream_items :: "iperf_test \<Rightarrow> iperf_stream \<Rightarrow> (string \<times> cJSON option) list" where
  "stream_items t sp =
     [(''id'', num_item (sp_id sp)),
      (''bytes'', num_item (stream_bytes t sp)),
      (''retransmits'', num_item (stream_retransmits t sp)),
      (''jitter'', double_item (sp_jitter sp)),
      (''errors'', num_item (sp_cnt_error sp)),
      (''packets'', num_item (sp_packet_count sp))]"

lemma stream_json_items: "stream_json t sp = add_items cJSON_CreateObject (stream_items t sp)"
  unfolding stream_json_def stream_items_def Let_def stream_bytes_def stream_retransmits_def ..

lemma stream_json_name: "cj_string (stream_json t sp) = None"
  unfolding stream_json_items by (simp add: add_items_child cJSON_CreateObject_def cJSON_New_Item_def)

lemma retransmits_range: "stream_ok t sp \<Longrightarrow> in_i32 (stream_retransmits t sp)"
  by (simp add: stream_ok_def stream_retransmits_def) (simp add: in_i32_def)

lemma bytes_range: "stream_ok t sp \<Longrightarrow> 0 \<le> stream_bytes t sp \<and> stream_bytes t sp \<le> 9007199254740992"
  by (simp add: stream_ok_def)

lemma fine_stream: 
  assumes "stream_ok t sp"
  shows "json_fine (stream_json t sp)"
proof -
  have "fine_item (num_item (stream_bytes t sp))"
    by (rule fine_int) (use bytes_range [OF assms] in simp)
  moreover have "fine_item (num_item (stream_retransmits t sp))"
    by (rule fine_int [OF in_i32_53 [OF retransmits_range [OF assms]]])
  moreover have "fine_item (num_item (sp_id sp))" "fine_item (num_item (sp_cnt_error sp))" "fine_item (num_item (sp_packet_count sp))"
      "fine_item (double_item (sp_jitter sp))"
    using assms by (auto simp: stream_ok_def intro!: fine_int in_i32_53 fine_double)
  ultimately show ?thesis
    unfolding stream_json_items by (intro fine_add_items(1)) (simp add: stream_items_def nul_free_def)
qed

lemma lookup_stream:
  "lookup (stream_items t sp) ''id'' = named ''id'' (num_item (sp_id sp))"
  "lookup (stream_items t sp) ''bytes'' = named ''bytes'' (num_item (stream_bytes t sp))"
  "lookup (stream_items t sp) ''retransmits'' = named ''retransmits'' (num_item (stream_retransmits t sp))"
  "lookup (stream_items t sp) ''jitter'' = named ''jitter'' (double_item (sp_jitter sp))"
  "lookup (stream_items t sp) ''errors'' = named ''errors'' (num_item (sp_cnt_error sp))"
  "lookup (stream_items t sp) ''packets'' = named ''packets'' (num_item (sp_packet_count sp))"
  by (simp_all add: stream_items_def c_tolower_def)

text \<open>What the other side's stream becomes: it keeps what it measured itself and takes the rest.\<close>

definition told :: "iperf_test \<Rightarrow> iperf_stream \<Rightarrow> bool \<Rightarrow> iperf_stream \<Rightarrow> iperf_stream" where
  "told t sp sending x =
     (if sending then
        set_rp (\<lambda>rp. rp\<lparr>rp_bytes_received := stream_bytes t sp\<rparr>)
          (x\<lparr>sp_jitter := reread_double (sp_jitter sp), sp_cnt_error := sp_cnt_error sp, sp_packet_count := sp_packet_count sp\<rparr>)
      else set_rp (\<lambda>rp. rp\<lparr>rp_bytes_sent := stream_bytes t sp, rp_stream_retrans := stream_retransmits t sp\<rparr>) x)"

lemma item_number: "cJSON_GetObjectItem (Some (reread (add_items cJSON_CreateObject es))) nm =
    Some (reread (cj_set_string (Some nm) (cJSON_CreateInt n)))"
  if "lookup es nm = named nm (num_item n)"
  using that by (simp add: object_item named_def num_item_def)

lemma item_real: "cJSON_GetObjectItem (Some (reread (add_items cJSON_CreateObject es))) nm =
    Some (reread (cj_set_string (Some nm) (cJSON_CreateNumber d)))"
  if "lookup es nm = named nm (double_item d)"
  using that by (simp add: object_item named_def double_item_def)

lemma reread_real: "cj_valuedouble (reread (cj_set_string k (cJSON_CreateNumber d))) = reread_double d"
  by (cases "reread (cJSON_CreateNumber d)") (simp add: reread_set_string reread_double_def)

lemma apply_stream_told:
  assumes "stream_ok t sp" "find_stream (t_streams (tst s)) (strms s) (sp_id sp) = Some q"
  shows "run_state (apply_stream_result (reread (stream_json t sp))) s =
    (0, s\<lparr>strms := (strms s)(q := told t sp (t_sender (tst s) \<noteq> 0) (strms s q))\<rparr>)"
proof -
  have i: "i32 (cj_valueint (reread (cj_set_string k (cJSON_CreateInt n)))) = n" if "in_i32 n" for k n
    using reread_int [OF in_i32_53 [OF that]] i32_in [OF that] by simp
  have ok: "in_i32 (sp_id sp)" "in_i32 (sp_cnt_error sp)" "in_i32 (sp_packet_count sp)"
    using assms(1) by (simp_all add: stream_ok_def)
  have b: "u64 (cj_valueint (reread (cj_set_string k (cJSON_CreateInt (stream_bytes t sp))))) = stream_bytes t sp" for k
    using bytes_range [OF assms(1)] by (simp add: reread_int u64_53)
  note it = lookup_stream(1,2,3,5,6) [THEN item_number] lookup_stream(4) [THEN item_real]
  show ?thesis
    unfolding apply_stream_result_def stream_json_items Let_def it prod.case option.case
    by (simp add: i [OF ok(1)] i [OF ok(2)] i [OF ok(3)] i [OF retransmits_range [OF assms(1)]] b reread_real assms(2) told_def)
qed

section \<open>The list of the streams\<close>

text \<open>The peer's streams \<open>ps\<close> told to one's own streams \<open>qs\<close>, pair by pair.\<close>

definition tell_all :: "iperf_test \<Rightarrow> (nat \<Rightarrow> iperf_stream) \<Rightarrow> bool \<Rightarrow> (nat \<times> nat) list \<Rightarrow>
    (nat \<Rightarrow> iperf_stream) \<Rightarrow> nat \<Rightarrow> iperf_stream" where
  "tell_all t hp sending pqs h = fold (\<lambda>(p, q) h. h(q := told t (hp p) sending (h q))) pqs h"

lemma told_id [simp]: "sp_id (told t sp sending x) = sp_id x"
  by (simp add: told_def set_rp_def)

lemma find_stream_cong: "(\<And>q. sp_id (h q) = sp_id (h' q)) \<Longrightarrow> find_stream qs h i = find_stream qs h' i"
  by (simp add: find_stream_def)

lemma find_stream_own:
  assumes "distinct (map (\<lambda>q. sp_id (h q)) qs)" "q \<in> set qs"
  shows "find_stream qs h (sp_id (h q)) = Some q"
  using assms by (induction qs) (auto simp: find_stream_def rev_image_eqI)

lemma apply_streams_told:
  assumes "\<forall>p \<in> set ps. stream_ok t (hp p)" "map (\<lambda>p. sp_id (hp p)) ps = map (\<lambda>q. sp_id (strms s q)) qs"
    and "set qs \<subseteq> set (t_streams (tst s))" "distinct (map (\<lambda>q. sp_id (strms s q)) (t_streams (tst s)))"
  shows "run_state (apply_stream_results (map (\<lambda>p. reread (stream_json t (hp p))) ps) 0) s =
    (0, s\<lparr>strms := tell_all t hp (t_sender (tst s) \<noteq> 0) (zip ps qs) (strms s)\<rparr>)"
  using assms
proof (induction ps arbitrary: qs s)
  case Nil
  then show ?case by (simp add: tell_all_def)
next
  case (Cons p ps)
  then obtain q qs' where qs: "qs = q # qs'" by (cases qs) auto
  define s' where "s' = s\<lparr>strms := (strms s)(q := told t (hp p) (t_sender (tst s) \<noteq> 0) (strms s q))\<rparr>"
  have ids: "sp_id (strms s' x) = sp_id (strms s x)" for x by (simp add: s'_def)
  have "find_stream (t_streams (tst s)) (strms s) (sp_id (hp p)) = Some q"
    using find_stream_own [OF Cons.prems(4), of q] Cons.prems(2,3) qs by simp
  then have one: "run_state (apply_stream_result (reread (stream_json t (hp p)))) s = (0, s')"
    using Cons.prems(1) by (simp add: apply_stream_told s'_def)
  have streams: "run_state (apply_stream_results (map (\<lambda>p. reread (stream_json t (hp p))) ps) 0) s' =
      (0, s'\<lparr>strms := tell_all t hp (t_sender (tst s') \<noteq> 0) (zip ps qs') (strms s')\<rparr>)"
    by (rule Cons.IH) (use Cons.prems qs ids in \<open>simp_all add: s'_def\<close>)
  then show ?case
    using one by (simp add: qs tell_all_def s'_def)
qed

lemma tell_all_other: "q \<notin> snd ` set pqs \<Longrightarrow> tell_all t hp b pqs h q = h q"
  by (induction pqs arbitrary: h) (auto simp: tell_all_def)

lemma tell_all_pairs:
  assumes "length ps = length qs" "distinct qs"
  shows "list_all2 (\<lambda>p q. tell_all t hp b (zip ps qs) h q = told t (hp p) b (h q)) ps qs"
  using assms
proof (induction ps qs arbitrary: h rule: list_induct2)
  case (Cons p ps q qs)
  have "tell_all t hp b (zip (p # ps) (q # qs)) h = tell_all t hp b (zip ps qs) (h(q := told t (hp p) b (h q)))"
    by (simp add: tell_all_def)
  moreover have "q \<notin> snd ` set (zip ps qs)" using Cons.prems by (auto dest: set_zip_rightD)
  moreover have "list_all2 (\<lambda>p' x. tell_all t hp b (zip ps qs) (h(q := told t (hp p) b (h q))) x = told t (hp p') b (h x)) ps qs"
    using Cons.IH [of "h(q := told t (hp p) b (h q))"] Cons.prems
    by (auto simp: list_all2_conv_all_nth fun_upd_def)
  ultimately show ?case by (simp add: tell_all_other)
qed simp

section \<open>The document\<close>

definition streams_item :: "iperf_test \<Rightarrow> (nat \<Rightarrow> iperf_stream) \<Rightarrow> cJSON" where
  "streams_item t h = foldl (\<lambda>a sp. cJSON_AddItemToArray a (Some (stream_json t (h sp)))) cJSON_CreateArray (t_streams t)"

lemma fold_array: "foldl (\<lambda>a sp. cJSON_AddItemToArray a (Some (f sp))) a sps = cj_set_child (cj_child a @ map f sps) a"
proof (induction sps arbitrary: a)
  case (Cons x xs)
  then show ?case by (cases a) (simp)
qed (metis append_Nil2 cJSON.exhaust cj_set_child.simps cJSON.sel list.map(1) foldl_Nil)

definition retransmits_known :: "iperf_test \<Rightarrow> int" where
  "retransmits_known t = (if t_sender t = 0 then -1 else t_sender_has_retransmits t)"

definition results_items :: "iperf_test \<Rightarrow> (nat \<Rightarrow> iperf_stream) \<Rightarrow> (string \<times> cJSON option) list" where
  "results_items t h =
     (case t_cpu_util t of (c0, c1, c2) \<Rightarrow>
       [(''cpu_util_total'', double_item c0), (''cpu_util_user'', double_item c1), (''cpu_util_system'', double_item c2),
        (''sender_has_retransmits'', num_item (retransmits_known t))]) @
     server_output_items t @ [(''streams'', Some (streams_item t h))]"

lemma results_json_items: "results_json t h = add_items cJSON_CreateObject (results_items t h)"
  by (simp add: results_json_def results_items_def streams_item_def retransmits_known_def Let_def split: prod.split)

lemma streams_item_child:
  "cj_child (streams_item t h) = map (\<lambda>sp. stream_json t (h sp)) (t_streams t)"
  "cj_type (streams_item t h) = cJSON_Array" "cj_string (streams_item t h) = None"
  "cj_valuestring (streams_item t h) = None" "cj_valueint (streams_item t h) = 0" "cj_valuedouble (streams_item t h) = Fin 0"
  unfolding streams_item_def fold_array by (simp_all add: cJSON_CreateArray_def cJSON_New_Item_def)

lemma fine_results:
  assumes "results_ok t h"
  shows "json_fine (results_json t h)" "cj_string (results_json t h) = None"
proof -
  obtain c0 c1 c2 where c: "t_cpu_util t = (c0, c1, c2)" by (cases "t_cpu_util t")
  have "in_i32 (retransmits_known t)" using assms by (simp add: results_ok_def retransmits_known_def in_i32_def)
  then have "fine_item (num_item (retransmits_known t))" by (intro fine_int in_i32_53)
  moreover have "fine_item (double_item c0)" "fine_item (double_item c1)" "fine_item (double_item c2)"
    using assms c by (auto simp: results_ok_def intro!: fine_double)
  moreover have "fine_item (Some (streams_item t h))"
  proof -
    obtain ty vs vi vd nm ch where s: "streams_item t h = CJ ty vs vi vd nm ch" by (cases "streams_item t h")
    have "\<forall>x \<in> set ch. json_fine x" using assms fine_stream streams_item_child(1) [of t h] s by (auto simp: results_ok_def)
    then show ?thesis using streams_item_child [of t h] s stream_json_name by (auto simp: fine_item_def json_types)
  qed
  moreover have "list_all (\<lambda>(k, it). nul_free k \<and> fine_item it) (server_output_items t)"
    using assms by (auto simp: server_output_items_def results_ok_def nul_free_def fine_item_def str_item_def
        cJSON_CreateString_def cJSON_New_Item_def json_types)
  ultimately have "list_all (\<lambda>(k, it). nul_free k \<and> fine_item it) (results_items t h)"
    by (simp add: results_items_def c nul_free_def)
  then show "json_fine (results_json t h)" "cj_string (results_json t h) = None"
    unfolding results_json_items by (rule fine_add_items)+
qed

definition output_sent :: "iperf_test \<Rightarrow> string option" where
  "output_sent t = (if t_role t = CHR ''s'' \<and> t_get_server_output t \<noteq> 0 then Some (concat (t_server_output_list t)) else None)"

lemma lookup_results:
  assumes "t_cpu_util t = (c0, c1, c2)" "results_ok t h"
  shows "lookup (results_items t h) ''cpu_util_total'' = named ''cpu_util_total'' (double_item c0)"
    "lookup (results_items t h) ''cpu_util_user'' = named ''cpu_util_user'' (double_item c1)"
    "lookup (results_items t h) ''cpu_util_system'' = named ''cpu_util_system'' (double_item c2)"
    "lookup (results_items t h) ''sender_has_retransmits'' = named ''sender_has_retransmits'' (num_item (retransmits_known t))"
    "lookup (results_items t h) ''streams'' = named ''streams'' (Some (streams_item t h))"
    "lookup (results_items t h) ''server_output_json'' = None"
    "lookup (results_items t h) ''server_output_text'' = named ''server_output_text'' (str_item (output_sent t))"
  using assms
  by (auto simp: results_items_def server_output_items_def results_ok_def c_tolower_def output_sent_def named_def str_item_def)

lemma detach_none: "cJSON_GetObjectItem (Some j) nm = None \<Longrightarrow> fst (cJSON_DetachItemFromObject j nm) = None"
proof -
  assume "cJSON_GetObjectItem (Some j) nm = None"
  then have "find_child (cj_child j) nm = None" by (simp add: cJSON_GetObjectItem_def)
  moreover have "find_child cs nm = None \<Longrightarrow> child_index cs nm i = None" for cs i
    by (induction cs arbitrary: i) (auto split: if_splits)
  ultimately have "child_index (cj_child j) nm i = None" for i by blast
  then show ?thesis by (simp add: cJSON_DetachItemFromObject_def)
qed

lemma item_object: "cJSON_GetObjectItem (Some (reread (add_items cJSON_CreateObject es))) nm = Some (reread (cj_set_string (Some nm) x))"
  if "lookup es nm = named nm (Some x)"
  using that by (simp add: object_item named_def)

lemma item_absent: "cJSON_GetObjectItem (Some (reread (add_items cJSON_CreateObject es))) nm = None"
  if "lookup es nm = None"
  using that by (simp add: object_item)

lemma reread_named_child: "cj_type c = cJSON_Array \<Longrightarrow> cj_child (reread (cj_set_string k c)) = map reread (cj_child c)"
  by (cases c) (simp add: json_types)

text \<open>What a test becomes that takes in the results of its peer.\<close>

definition results_taken :: "iperf_test \<Rightarrow> iperf_test \<Rightarrow> iperf_test" where
  "results_taken c t = t\<lparr>
     t_remote_cpu_util := (case t_cpu_util c of (c0, c1, c2) \<Rightarrow> (reread_double c0, reread_double c1, reread_double c2)),
     t_sender_has_retransmits := (if t_sender t = 0 then retransmits_known c else t_sender_has_retransmits t),
     t_server_output_text := (if t_role t = CHR ''c'' \<and> t_get_server_output t \<noteq> 0 \<and> output_sent c \<noteq> None
       then output_sent c else t_server_output_text t)\<rparr>"

lemma run_take_output:
  assumes "results_ok c h"
  shows "run_state (take_server_output (reread (results_json c h))) s = ((), upd (\<lambda>t. t\<lparr>
     t_server_output_text := (if t_role t = CHR ''c'' \<and> t_get_server_output t \<noteq> 0 \<and> output_sent c \<noteq> None
       then output_sent c else t_server_output_text t)\<rparr>) s)"
proof -
  obtain c0 c1 c2 where c: "t_cpu_util c = (c0, c1, c2)" by (cases "t_cpu_util c")
  have d: "fst (cJSON_DetachItemFromObject (reread (results_json c h)) ''server_output_json'') = None"
    unfolding results_json_items by (rule detach_none [OF item_absent [OF lookup_results(6) [OF c assms]]])
  have "cJSON_GetObjectItem (Some (reread (results_json c h))) ''server_output_text'' =
      map_option (\<lambda>x. reread (cj_set_string (Some ''server_output_text'') x)) (str_item (output_sent c))"
    unfolding results_json_items object_item lookup_results(7) [OF c assms] by (cases "output_sent c") (simp_all add: named_def str_item_def)
  then show ?thesis
    by (cases "output_sent c")
      (simp_all add: take_server_output_def d item_str_def on_item_def upd_def iperf_get_test_get_server_output_def str_item_def
        cJSON_CreateString_def cJSON_New_Item_def json_types)
qed

lemma apply_results_taken:
  assumes "results_ok c hc" "map (\<lambda>p. sp_id (hc p)) (t_streams c) = map (\<lambda>q. sp_id (strms s q)) (t_streams (tst s))"
  obtains s0 where "run_state (apply_results (reread (results_json c hc))) s = (0, s0)"
    "tst s0 = results_taken c (tst s)"
    "strms s0 = tell_all c hc (t_sender (tst s) \<noteq> 0) (zip (t_streams c) (t_streams (tst s))) (strms s)"
proof -
  obtain c0 c1 c2 where c: "t_cpu_util c = (c0, c1, c2)" by (cases "t_cpu_util c")
  let ?j = "reread (results_json c hc)"
  obtain s1 where dbg: "run_state (debug_json ''get_results'' ?j) s = ((), s1)"
    by (cases "run_state (debug_json ''get_results'' ?j) s") simp
  note same = os_only_iperf [OF os_only_debug_json dbg]
  define s2 where "s2 = upd (\<lambda>t. t\<lparr>t_remote_cpu_util := (reread_double c0, reread_double c1, reread_double c2),
    t_sender_has_retransmits := (if t_sender t = 0 then retransmits_known c else t_sender_has_retransmits t)\<rparr>) s1"
  have range: "in_i32 (retransmits_known c)" using assms(1) by (simp add: results_ok_def retransmits_known_def in_i32_def)
  have shr: "i32 (cj_valueint (reread (cj_set_string k (cJSON_CreateInt (retransmits_known c))))) = retransmits_known c" for k
    using reread_int [OF in_i32_53 [OF range]] i32_in [OF range] by simp
  have streams: "run_state (apply_stream_results (map (\<lambda>p. reread (stream_json c (hc p))) (t_streams c)) 0) s2 =
      (0, s2\<lparr>strms := tell_all c hc (t_sender (tst s2) \<noteq> 0) (zip (t_streams c) (t_streams (tst s2))) (strms s2)\<rparr>)"
    by (rule apply_streams_told) (use assms same in \<open>auto simp: results_ok_def s2_def upd_def\<close>)
  have s2: "tst s2 = (tst s)\<lparr>t_remote_cpu_util := (reread_double c0, reread_double c1, reread_double c2),
      t_sender_has_retransmits := (if t_sender (tst s) = 0 then retransmits_known c else t_sender_has_retransmits (tst s))\<rparr>"
    "strms s2 = strms s" using same by (simp_all add: s2_def upd_def)
  have it: "cJSON_GetObjectItem (Some ?j) ''cpu_util_total'' = Some (reread (cj_set_string (Some ''cpu_util_total'') (cJSON_CreateNumber c0)))"
    "cJSON_GetObjectItem (Some ?j) ''cpu_util_user'' = Some (reread (cj_set_string (Some ''cpu_util_user'') (cJSON_CreateNumber c1)))"
    "cJSON_GetObjectItem (Some ?j) ''cpu_util_system'' = Some (reread (cj_set_string (Some ''cpu_util_system'') (cJSON_CreateNumber c2)))"
    "cJSON_GetObjectItem (Some ?j) ''sender_has_retransmits'' =
      Some (reread (cj_set_string (Some ''sender_has_retransmits'') (cJSON_CreateInt (retransmits_known c))))"
    "cJSON_GetObjectItem (Some ?j) ''streams'' = Some (reread (cj_set_string (Some ''streams'') (streams_item c hc)))"
    unfolding results_json_items
    by (rule item_real lookup_results(1-5) [OF c assms(1)] item_number item_object)+
  let ?s3 = "s2\<lparr>strms := tell_all c hc (t_sender (tst s2) \<noteq> 0) (zip (t_streams c) (t_streams (tst s2))) (strms s2)\<rparr>"
  have "run_state (apply_results ?j) s = (0, snd (run_state (take_server_output ?j) ?s3))"
  proof (cases "t_sender (tst s1) = 0")
    case True
    then have "s1\<lparr>tst := (tst s1)\<lparr>t_remote_cpu_util := (reread_double c0, reread_double c1, reread_double c2),
        t_sender_has_retransmits := retransmits_known c\<rparr>\<rparr> = s2"
      by (simp add: s2_def upd_def)
    with True dbg streams show ?thesis
      by (simp add: apply_results_def it reread_real shr reread_named_child streams_item_child comp_def run_take_output [OF assms(1)])
  next
    case False
    then have "s1\<lparr>tst := (tst s1)\<lparr>t_remote_cpu_util := (reread_double c0, reread_double c1, reread_double c2)\<rparr>\<rparr> = s2"
      by (simp add: s2_def upd_def)
    with streams have "run_state (apply_stream_results (map (\<lambda>p. reread (stream_json c (hc p))) (t_streams c)) 0)
        (s1\<lparr>tst := (tst s1)\<lparr>t_remote_cpu_util := (reread_double c0, reread_double c1, reread_double c2)\<rparr>\<rparr>) = (0, ?s3)"
      by (simp only:)
    with False dbg show ?thesis
      by (simp add: apply_results_def it reread_real shr reread_named_child streams_item_child comp_def run_take_output [OF assms(1)])
  qed
  then show ?thesis
    by (rule that; cases "output_sent c"; simp add: run_take_output [OF assms(1)] results_taken_def s2 c upd_def)
qed

section \<open>The exchange\<close>

text \<open>
  C10: what one side measured is what the other side reports. When the results the peer \<open>c\<close> sends arrive
  complete, \<open>get_results\<close> succeeds: each own stream has the peer's counters of the stream with the same
  number - the bytes received, the jitter, the errors and the packets when this side sends, the bytes
  sent and the retransmits otherwise - and keeps what it measured itself; the peer's CPU times and,
  at a receiver, its knowledge of retransmits are taken over, and a client that asked for it has the
  server's output. The counters are exact up to \<open>2 ^ 53\<close>; the jitter and the CPU times are what their
  decimal texts denote.
\<close>

theorem results_agree:
  assumes "results_ok c hc" "map (\<lambda>p. sp_id (hc p)) (t_streams c) = map (\<lambda>q. sp_id (strms s q)) (t_streams (tst s))"
    and "cJSON_PrintUnformatted (results_json c hc) = Some str" "length str < 2 ^ 31"
    and "run_state (Nread (t_ctrl_sck (tst s)) 4) s = ((4, be32 (int (length str))), s1)"
    and "0 \<le> sr_val (answer s1 (SMalloc (''JSON '' @ show_int (int (length str) + 1))))"
    and "run_state (Nread (t_ctrl_sck (tst s)) (length str))
      (after s1 (SMalloc (''JSON '' @ show_int (int (length str) + 1)))) = ((int (length str), str), s2)"
  shows "case run_state get_results s of (r, s') \<Rightarrow> r = 0 \<and> tst s' = results_taken c (tst s) \<and>
    list_all2 (\<lambda>p q. strms s' q = told c (hc p) (t_sender (tst s) \<noteq> 0) (strms s q)) (t_streams c) (t_streams (tst s)) \<and>
    (\<forall>q. q \<notin> set (t_streams (tst s)) \<longrightarrow> strms s' q = strms s q)"
proof -
  have str: "str = render (results_json c hc) 0 False"
    using assms(3) fine_results [OF assms(1)] cJSON_Print_fine by auto
  have "nul_free str" unfolding str by (rule nul_free_render_fine [OF fine_results(1) [OF assms(1)]])
  then have "c_str str = str" by (rule c_str_nul_free)
  moreover have "cJSON_Parse str = Some (reread (results_json c hc))"
    unfolding str by (rule cJSON_Parse_fine [OF fine_results [OF assms(1)]])
  ultimately have read: "run_state (JSON_read (t_ctrl_sck (tst s))) s = (Some (reread (results_json c hc)), s2)"
    using run_JSON_read [OF assms(5,4,6,7)] by simp
  note same = os_only_iperf [OF os_only_JSON(2) read]
  obtain s0 where s0: "run_state (apply_results (reread (results_json c hc))) s2 = (0, s0)" "tst s0 = results_taken c (tst s2)"
    "strms s0 = tell_all c hc (t_sender (tst s2) \<noteq> 0) (zip (t_streams c) (t_streams (tst s2))) (strms s2)"
    by (rule apply_results_taken [OF assms(1), of s2]) (use assms(2) same in auto)
  have len: "length (t_streams c) = length (t_streams (tst s))" using map_eq_imp_length_eq [OF assms(2)] .
  have "distinct (map (\<lambda>q. sp_id (strms s q)) (t_streams (tst s)))" using assms(1,2) by (simp add: results_ok_def)
  then have "distinct (t_streams (tst s))" by (simp add: distinct_map)
  with s0 same read tell_all_pairs [OF len] show ?thesis
    by (auto simp: get_results_def intro!: tell_all_other dest: set_zip_rightD)
qed

section \<open>Instances\<close>

text \<open>A client that sent 1000 bytes on its one stream.\<close>

definition ex_sender :: iperf_test where
  "ex_sender = test0\<lparr>t_role := CHR ''c'', t_sender := 1, t_sender_has_retransmits := 1, t_streams := [0],
     t_cpu_util := (Fin 0, Fin 0, Fin 0)\<rparr>"

definition ex_sent :: iperf_stream where
  "ex_sent = stream0\<lparr>sp_id := 1, sp_result := result0\<lparr>rp_bytes_sent := 1000, rp_stream_retrans := 3\<rparr>\<rparr>"

lemma ex_sender_ok: "results_ok ex_sender (\<lambda>_. ex_sent)"
  by (simp add: results_ok_def stream_ok_def stream_bytes_def ex_sender_def ex_sent_def stream0_def result0_def test0_def in_i32_def printable_def u64_def)

lemma render_object_items: "json_fine (add_items cJSON_CreateObject es) \<Longrightarrow>
   render (add_items cJSON_CreateObject es) d f =
    object_text d f (map (\<lambda>x. (print_string_ptr (cj_string x), render x (Suc d) f)) (items es))"
  using fine_object [of None 0 "Fin 0" None "items es" d f]
  by (simp add: add_items_child cJSON_CreateObject_def cJSON_New_Item_def)

lemma render_zero: "nul_free k \<Longrightarrow> render (cj_set_string (Some k) (cJSON_CreateNumber (Fin 0))) d f = ''0''"
  using fine_cases(4) [of None 0 "Fin 0" "Some k" "[]" d f] d_to_i64_int [of 0]
  by (simp add: cJSON_CreateNumber_def json_types printable_def print_number_def)

lemma ex_digits: "map (length \<circ> show_int) [0, 1, 3, 1000] = [1, 1, 1, 4]"
  by (simp add: show_int_def show_nat.simps)

lemma ex_keys:
  "map (\<lambda>s. length (print_string_ptr (Some s)))
     [''id'', ''bytes'', ''retransmits'', ''jitter'', ''errors'', ''packets'', ''cpu_util_total'', ''cpu_util_user'',
      ''cpu_util_system'', ''sender_has_retransmits'', ''streams''] = [4, 7, 13, 8, 8, 9, 16, 15, 17, 24, 9]"
  by code_simp

lemma ex_sender_fields:
  "stream_bytes ex_sender ex_sent = 1000" "stream_retransmits ex_sender ex_sent = 3" "sp_id ex_sent = 1" "sp_jitter ex_sent = Fin 0"
  "sp_cnt_error ex_sent = 0" "sp_packet_count ex_sent = 0" "t_streams ex_sender = [0]" "t_cpu_util ex_sender = (Fin 0, Fin 0, Fin 0)"
  "retransmits_known ex_sender = 1" "server_output_items ex_sender = []"
  by (simp_all add: stream_bytes_def stream_retransmits_def ex_sender_def ex_sent_def stream0_def result0_def test0_def u64_def
      retransmits_known_def server_output_items_def)

lemma ex_sent_length: "length (render (stream_json ex_sender ex_sent) d False) = 71"
proof -
  have "json_fine (stream_json ex_sender ex_sent)" using ex_sender_ok by (intro fine_stream) (simp add: results_ok_def ex_sender_fields)
  then show ?thesis
    using ex_digits ex_keys render_object_items [of "stream_items ex_sender ex_sent" d False]
    by (simp add: stream_json_items stream_items_def ex_sender_fields num_item_def double_item_def items_simps
      render_named_num render_zero nul_free_def object_text_def) 
qed

lemma ex_streams_length: "length (render (cj_set_string (Some ''streams'') (streams_item ex_sender (\<lambda>_. ex_sent))) d False) = 73"
proof -
  obtain ty vs vi vd nm ch where s: "streams_item ex_sender (\<lambda>_. ex_sent) = CJ ty vs vi vd nm ch"
    by (cases "streams_item ex_sender (\<lambda>_. ex_sent)")
  have "json_fine (stream_json ex_sender ex_sent)" using ex_sender_ok by (intro fine_stream) (simp add: results_ok_def ex_sender_fields)
  then show ?thesis
    using streams_item_child [of ex_sender "\<lambda>_. ex_sent"] s fine_array [of None 0 "Fin 0" "Some ''streams''" ch d False] ex_sent_length
      stream_json_name [of ex_sender ex_sent]
    by (auto simp: ex_sender_fields array_text_def nul_free_def json_types)
qed

lemma ex_results_length: "length (render (results_json ex_sender (\<lambda>_. ex_sent)) 0 False) = 169"
  using ex_digits ex_keys render_object_items [of "results_items ex_sender (\<lambda>_. ex_sent)" 0 False] fine_results [OF ex_sender_ok]
  by (simp add: results_json_items results_items_def ex_sender_fields num_item_def double_item_def items_simps
      render_named_num render_zero nul_free_def object_text_def ex_streams_length) 

definition ex_results :: string where
  "ex_results = the (cJSON_PrintUnformatted (results_json ex_sender (\<lambda>_. ex_sent)))"

lemma ex_results_text: "cJSON_PrintUnformatted (results_json ex_sender (\<lambda>_. ex_sent)) = Some ex_results" "length ex_results = 169"
  using ex_results_length cJSON_Print_fine(2) [OF fine_results(1) [OF ex_sender_ok]] by (simp_all add: ex_results_def)

text \<open>A server that received 900 bytes on its own stream when those results arrive.\<close>

definition ex_taker :: iperf_state where
  "ex_taker = (ex_state
     (\<lambda>tr. case tr of
        SRead fd n # _ \<Rightarrow> SysRet 1 0 (if n = 4 then be32 (int (length ex_results)) else ex_results) []
      | _ \<Rightarrow> SysRet 0 0 [] [])
     (test0\<lparr>t_role := CHR ''s'', t_streams := [7], t_ctrl_sck := 5\<rparr>))
     \<lparr>strms := \<lambda>_. stream0\<lparr>sp_id := 1, sp_result := result0\<lparr>rp_bytes_received := 900\<rparr>\<rparr>\<rparr>"

theorem results_agree_witness:
  "\<exists>r s'. run_state get_results ex_taker = (r, s') \<and> r = 0 \<and>
     rp_bytes_sent (sp_result (strms s' 7)) = 1000 \<and> rp_stream_retrans (sp_result (strms s' 7)) = 3 \<and>
     rp_bytes_received (sp_result (strms s' 7)) = 900 \<and> t_sender_has_retransmits (tst s') = 1"
proof -
  define n where "n = length ex_results"
  define m where "m = SMalloc (''JSON '' @ show_int (int n + 1))"
  define s where "s = ex_taker"
  have n: "n = 169" by (simp add: n_def ex_results_text)
  then have n_bounds: "0 < n" "n < 2 ^ 31" by simp_all
  let ?s1 = "after s (SRead 5 4)" and ?s2 = "after (after s (SRead 5 4)) m"
  have ans: "answer s (SRead 5 4) = SysRet 1 0 (be32 (int n)) []" "answer ?s1 m = SysRet 0 0 [] []"
    "answer ?s2 (SRead 5 n) = SysRet 1 0 ex_results []"
    using n by (simp_all add: answer_def ex_taker_def s_def ex_state_def m_def n_def)
  have r1: "run_state (Nread 5 4) s = ((4, be32 (int n)), ?s1)"
    using Nread_whole [of 4 s 5 "be32 (int n)"] by (simp add: ans read_result_def)
  have r2: "run_state (Nread 5 n) ?s2 = ((int n, ex_results), after ?s2 (SRead 5 n))"
    using n_bounds by (intro Nread_whole) (simp_all add: ans read_result_def n_def [symmetric])
  have taker: "t_ctrl_sck (tst s) = 5" "t_streams (tst s) = [7]" "t_sender (tst s) = 0"
    "strms s 7 = stream0\<lparr>sp_id := 1, sp_result := result0\<lparr>rp_bytes_received := 900\<rparr>\<rparr>"
    by (simp_all add: s_def ex_taker_def ex_state_def test0_def)
  have "case run_state get_results s of (r, s') \<Rightarrow> r = 0 \<and> tst s' = results_taken ex_sender (tst s) \<and>
      list_all2 (\<lambda>p q. strms s' q = told ex_sender ex_sent (t_sender (tst s) \<noteq> 0) (strms s q)) (t_streams ex_sender) (t_streams (tst s)) \<and>
      (\<forall>q. q \<notin> set (t_streams (tst s)) \<longrightarrow> strms s' q = strms s q)"
    using results_agree [OF ex_sender_ok _ ex_results_text(1), of s, folded n_def, folded m_def] r1 r2 n
    by (simp add: ans taker ex_sender_fields)
  then show ?thesis
    unfolding s_def [symmetric]
    by (auto simp: taker ex_sender_fields told_def set_rp_def results_taken_def split: prod.splits)
qed

end
