(* ===== verification/Stream_Facts.thy ===== *)
theory Stream_Facts
  imports Streams
begin

text \<open>
  What the operations on streams promise: the datagram header is read back as it was written, the
  counters of a receiver account for every datagram, streams are numbered without repetition and
  created completely or not at all, and the totals of a test balance those of its streams through
  sending and receiving.
\<close>

section \<open>Datagram headers\<close>

lemma length_be64 [simp]: "length (be64 n) = 8"
  by (simp add: be64_def)

lemma div_mod_byte: "k + 8 \<le> m \<Longrightarrow> (n mod 2 ^ m) div 2 ^ k mod 2 ^ 8 = (n :: int) div 2 ^ k mod 2 ^ 8"
proof -
  assume k: "k + 8 \<le> m"
  have "(n mod 2 ^ m) div 2 ^ k = n div 2 ^ k mod 2 ^ (m - k)"
    using div_exp_mod_exp_eq [of n k "m - k"] k by simp
  moreover have "(2 :: int) ^ 8 dvd 2 ^ (m - k)" using k by (intro le_imp_power_dvd) simp
  ultimately show ?thesis by (simp only: mod_mod_cancel)
qed

lemma byte_of_mod: "k + 8 \<le> 32 \<Longrightarrow> byte_of (u32 n div 2 ^ k) = byte_of (n div 2 ^ k)"
  using div_mod_byte [of k 32 n] by (simp add: byte_of_def u32_def)

lemma be32_mod: "be32 n = be32 (u32 n)"
  using byte_of_mod [of 24 n] byte_of_mod [of 16 n] byte_of_mod [of 8 n] byte_of_mod [of 0 n]
  by (simp add: be32_def)

lemma of_be_be32_u32: "of_be (be32 n) = u32 n"
  using of_be_be32 [of "u32 n"] u32_range [of n] by (simp add: be32_mod [of n])

lemma of_be_append_word: "of_be (xs @ ys) = of_be xs * 256 ^ length ys + of_be ys"
proof (induction ys rule: rev_induct)
  case (snoc y ys)
  have "of_be (xs @ ys @ [y]) = of_be (xs @ ys) * 256 + of_char y"
    using of_be_append [of "xs @ ys" y] by simp
  then show ?case using snoc by (simp add: of_be_append algebra_simps)
qed (simp add: of_be_def)

lemma of_be_be64: "of_be (be64 n) = u64 n"
proof -
  have "n mod 2 ^ 64 = (n div 2 ^ 32 mod 2 ^ 32) * 2 ^ 32 + n mod 2 ^ 32"
    using zmod_zmult2_eq [of "2 ^ 32" n "2 ^ 32"] by simp
  then show ?thesis by (simp add: be64_def of_be_append_word of_be_be32_u32 u32_def u64_def)
qed

lemma i32_unsigned: "i32 (u64 n) = i32 n" "i32 (u32 n) = i32 n"
proof -
  have "(n mod 2 ^ 64 + 2 ^ 31) mod 2 ^ 32 = (n + 2 ^ 31) mod (2 :: int) ^ 32"
  proof -
    have "(n mod 2 ^ 64) mod 2 ^ 32 = n mod (2 :: int) ^ 32" by (rule mod_mod_cancel) simp
    then show ?thesis by (metis mod_add_left_eq)
  qed
  then show "i32 (u64 n) = i32 n" by (simp only: i32_def u64_def)
  have "(n mod 2 ^ 32 + 2 ^ 31) mod 2 ^ 32 = (n + 2 ^ 31) mod (2 :: int) ^ 32" by (rule mod_add_left_eq)
  then show "i32 (u32 n) = i32 n" by (simp only: i32_def u32_def)
qed

text \<open>
  C30: the header of a datagram is read back as it was written. Whatever the buffer held, the receiver
  finds the seconds and microseconds of the sending time modulo \<open>2 ^ 32\<close> and the number of the datagram
  at the agreed width, a number of 31 bits is exact at both widths, and the bytes behind the header are
  those of the buffer.
\<close>

theorem udp_header_round_trip:
  "udp_parse wide (poke 0 (udp_header wide tv n) buf) =
     (Timeval (u32 (tv_sec tv)) (u32 (tv_usec tv)), if wide then u64 n else u32 n) \<and>
   drop 16 (poke 0 (udp_header wide tv n) buf) = drop 16 buf \<and>
   i32 (if wide then u64 n else u32 n) = i32 n"
proof -
  have "i32 (u64 n) = i32 n" "i32 (u32 n) = i32 n"
    by (rule i32_unsigned)+
  moreover have "length (udp_header wide tv n) = (if wide then 16 else 12)" by (simp add: udp_header_def)
  ultimately show ?thesis
    by (auto simp: udp_parse_def poke_def udp_header_def of_be_be32_u32 of_be_be64)
qed

section \<open>Counting datagrams\<close>

definition udp_feed :: "int list \<Rightarrow> iperf_stream \<Rightarrow> iperf_stream" where
  "udp_feed ns sp = foldl (\<lambda>sp n. udp_count n sp) sp ns"

definition udp_counts :: "nat \<Rightarrow> int \<Rightarrow> iperf_stream \<Rightarrow> bool" where
  "udp_counts len m sp \<longleftrightarrow> sp_packet_count sp = m \<and> 0 \<le> m \<and> m < 2 ^ 31 \<and>
     0 \<le> sp_cnt_error sp \<and> 0 \<le> sp_outoforder_packets sp \<and> sp_outoforder_packets sp \<le> int len \<and>
     sp_packet_count sp = sp_cnt_error sp + (int len - sp_outoforder_packets sp)"

lemma udp_counts_step:
  assumes "udp_counts len m sp" "0 < n" "n < 2 ^ 31" "Suc len < 2 ^ 31"
  shows "udp_counts (Suc len) (max m n) (udp_count n sp)"
proof -
  note inv = assms(1) [unfolded udp_counts_def]
  show ?thesis
  proof (cases "m + 1 < 2 ^ 31")
    case True
    then have nxt: "udp_next sp = m + 1"
      using inv by (simp add: udp_next_def i32_id u64_id)
    have "i32 (sp_cnt_error sp + (n - 1 - m)) = sp_cnt_error sp + (n - 1 - m)" if "m + 1 \<le> n"
      using that inv assms(3) by (intro i32_id) auto
    moreover have "i32 n = n" using assms by (simp add: i32_id)
    moreover have "i32 (sp_outoforder_packets sp + 1) = sp_outoforder_packets sp + 1"
      using inv assms(4) by (intro i32_id) auto
    ultimately show ?thesis
      using inv assms(2,3) by (auto simp: udp_counts_def udp_count_def nxt Let_def)
  next
    case False
    then have m: "m = 2 ^ 31 - 1" using inv by auto
    then have "udp_next sp = 2 ^ 64 - 2 ^ 31" using inv by (simp add: udp_next_def i32_def u64_def)
    moreover have "i32 (sp_outoforder_packets sp + 1) = sp_outoforder_packets sp + 1"
      using inv assms(4) by (intro i32_id) auto
    ultimately show ?thesis using inv assms(2,3) m by (auto simp: udp_counts_def udp_count_def)
  qed
qed

lemma udp_counts_feed:
  assumes "list_all (\<lambda>n. 0 < n \<and> n < 2 ^ 31) ns" "udp_counts len m sp" "len + length ns < 2 ^ 31"
  shows "udp_counts (len + length ns) (foldl max m ns) (udp_feed ns sp)"
  using assms
proof (induction ns arbitrary: len m sp)
  case (Cons n ns)
  have "udp_counts (Suc len) (max m n) (udp_count n sp)"
    using Cons.prems by (intro udp_counts_step) auto
  from Cons.IH [OF _ this] Cons.prems show ?case by (simp add: udp_feed_def)
qed (simp add: udp_feed_def)

lemma foldl_max: "foldl max (m :: int) ns = Max (insert m (set ns))"
proof (induction ns arbitrary: m)
  case (Cons n ns)
  have "Max (insert m (insert n (set ns))) = Max (insert (max m n) (set ns))"
    by (cases "ns = []") (simp_all add: max.assoc)
  with Cons show ?case by simp
qed simp



text \<open>What receiving a datagram does to the streams: only the counters, the jitter, the totals and the buffer.\<close>

definition counters :: "iperf_stream \<Rightarrow> int \<times> int \<times> int" where
  "counters sp = (sp_packet_count sp, sp_cnt_error sp, sp_outoforder_packets sp)"

lemma iperf_err_strms [simp]: "strms (snd (run_state (iperf_err test f a) s)) = strms s"
  by (simp add: iperf_err_def err_text_def fprintf_out_def json_add_def mod_json_def)

lemma when_strms: "(\<And>s. strms (snd (run_state m s)) = strms s) \<Longrightarrow> strms (snd (run_state (when_m b m) s)) = strms s"
  by simp

lemma set_rp_sel [simp]:
  "sp_result (set_rp f sp) = f (sp_result sp)" "sp_socket (set_rp f sp) = sp_socket sp"
  "sp_buffer (set_rp f sp) = sp_buffer sp" "sp_packet_count (set_rp f sp) = sp_packet_count sp"
  "counters (set_rp f sp) = counters sp"
  by (simp_all add: set_rp_def counters_def)

lemma counters_simps [simp]:
  "counters (udp_jitter a b sp) = counters sp" "counters (sp\<lparr>sp_buffer := x\<rparr>) = counters sp"
  by (simp_all add: counters_def udp_jitter_def Let_def)

lemma udp_sel [simp]:
  "sp_buffer (udp_jitter a b sp) = sp_buffer sp" "sp_result (udp_jitter a b sp) = sp_result sp"
  "sp_buffer (udp_count n sp) = sp_buffer sp" "sp_result (udp_count n sp) = sp_result sp"
  by (simp_all add: udp_jitter_def udp_count_def Let_def)

lemma counters_udp_count: "counters sp = counters sp' \<Longrightarrow> counters (udp_count n sp) = counters (udp_count n sp')"
  by (simp add: counters_def udp_count_def udp_next_def Let_def)

text \<open>
  A datagram is counted by the number it carries. When the read fails or finds nothing no stream
  changes; otherwise the counters of the stream become those of \<open>udp_count\<close> for the number at its place
  in the buffer, the buffer starts with the bytes read, the bytes are added to the total, and no other
  stream changes.
\<close>

theorem udp_recv_counts:
  assumes "run_state (Nread (sp_socket (strms s sp)) (nat (st_blksize (t_settings (tst s))))) s = ((r, d), s1)"
  shows "case run_state (iperf_udp_recv sp) s of (r', s') \<Rightarrow>
     r' = r \<and>
     (if r \<le> 0 then strms s' = strms s
      else let x = strms s sp; x' = strms s' sp;
               n = snd (udp_parse (t_udp_counters_64bit (tst s) \<noteq> 0) (poke 0 d (sp_buffer x))) in
        counters x' = counters (udp_count n x) \<and>
        sp_buffer x' = poke 0 d (sp_buffer x) \<and>
        rp_bytes_received (sp_result x') = u64 (rp_bytes_received (sp_result x) + r) \<and>
        (\<forall>q. q \<noteq> sp \<longrightarrow> strms s' q = strms s q))"
proof -
  have "os_only (Nread (sp_socket (strms s sp)) (nat (st_blksize (t_settings (tst s)))) :: (int \<times> string) iperf_m)"
    by (intro os_frame)
  from os_only_iperf [OF this assms] have "strms s1 = strms s" "tst s1 = tst s" by simp_all
  then show ?thesis
    using assms
    by (simp add: iperf_udp_recv_def Let_def split_beta when_strms del: run_when_m)
      (intro impI counters_udp_count, simp)
qed


section \<open>Numbers of streams\<close>

definition stream_number :: "nat \<Rightarrow> int" where
  "stream_number i = (if i = 0 then 1 else int i + 2)"

lemma foldl_count: "foldl (\<lambda>i n. i + 1) (k :: int) xs = k + int (length xs)"
  by (induction xs arbitrary: k) simp_all

lemma run_add_stream: "run_state (iperf_add_stream sp) s = ((), s\<lparr>tst := (tst s)\<lparr>t_streams := t_streams (tst s) @ [sp]\<rparr>,
    strms := (strms s)(sp := (strms s sp)\<lparr>sp_id := stream_number (length (t_streams (tst s)))\<rparr>)\<rparr>)"
  by (simp add: iperf_add_stream_def stream_number_def foldl_count add.commute)

lemma add_streams:
  assumes "distinct sps" "run_state (foreach_m sps iperf_add_stream) s = ((), s')"
  shows "t_streams (tst s') = t_streams (tst s) @ sps \<and>
    (\<forall>i < length sps. sp_id (strms s' (sps ! i)) = stream_number (length (t_streams (tst s)) + i)) \<and>
    (\<forall>q. q \<notin> set sps \<longrightarrow> strms s' q = strms s q)"
  using assms
proof (induction sps arbitrary: s)
  case (Cons sp sps)
  let ?s1 = "snd (run_state (iperf_add_stream sp) s)"
  have s1: "run_state (foreach_m sps iperf_add_stream) ?s1 = ((), s')"
    using Cons.prems(2) by (simp add: run_add_stream)
  note ih = Cons.IH [OF _ s1]
  have "sp_id (strms s' ((sp # sps) ! i)) = stream_number (length (t_streams (tst s)) + i)"
    if "i < Suc (length sps)" for i
    using ih Cons.prems(1) that by (cases i) (auto simp: run_add_stream)
  with ih Cons.prems(1) show ?case by (auto simp: run_add_stream)
qed simp

text \<open>
  The numbers streams get. Streams added one after the other to a test without streams are
  numbered 1, 3, 4, 5 and so on, in the order of the list: no number occurs twice and 2 never does.
\<close>

theorem stream_ids:
  assumes "t_streams (tst s) = []" "distinct sps"
  shows "case run_state (foreach_m sps iperf_add_stream) s of (_, s') \<Rightarrow>
    t_streams (tst s') = sps \<and>
    map (\<lambda>sp. sp_id (strms s' sp)) sps = map stream_number [0..<length sps] \<and>
    distinct (map stream_number [0..<length sps]) \<and> 2 \<notin> set (map stream_number [0..<length sps])"
proof -
  obtain s' where s': "run_state (foreach_m sps iperf_add_stream) s = ((), s')"
    by (cases "run_state (foreach_m sps iperf_add_stream) s") simp
  note added = add_streams [OF assms(2) s', unfolded assms(1)]
  then have "t_streams (tst s') = sps" by simp
  moreover have "map (\<lambda>sp. sp_id (strms s' sp)) sps = map stream_number [0..<length sps]"
    using added by (intro nth_equalityI) simp_all
  moreover have "inj stream_number"
    by (rule injI) (simp add: stream_number_def split: if_splits)
  then have "distinct (map stream_number [0..<length sps])"
    by (simp add: distinct_map inj_on_subset [OF _ subset_UNIV])
  moreover have "2 \<notin> set (map stream_number [0..<length sps])"
    by (auto simp: stream_number_def split: if_splits)
  ultimately show ?thesis by (simp add: s')
qed

theorem stream_ids_witness:
  "\<exists>s. t_streams (tst s) = [] \<and>
    (case run_state (foreach_m [7, 4, 9] iperf_add_stream) s of (_, s') \<Rightarrow>
      map (\<lambda>sp. sp_id (strms s' sp)) [7, 4, 9] = [1, 3, 4])"
proof (intro exI conjI)
  let ?s = "ex_state (\<lambda>_. SysRet 0 0 [] []) (default_test test0)"
  show e: "t_streams (tst ?s) = []" by (simp add: ex_state_def default_test_def set_st_def)
  show "case run_state (foreach_m [7, 4, 9] iperf_add_stream) ?s of (_, s') \<Rightarrow>
      map (\<lambda>sp. sp_id (strms s' sp)) [7, 4, 9] = [1, 3, 4]"
    using stream_ids [OF e, of "[7, 4, 9]"]
    by (simp add: stream_number_def upt_rec split: prod.splits)
qed

section \<open>New streams\<close>

lemma random_bytes_result:
  "length (fst (run_state (random_bytes n) s)) = n"
  "os_only (random_bytes n)"
  by (induction n arbitrary: s) (auto simp: split_beta intro!: os_frame)

lemma wp_os_only_iperf:
  fixes m :: "'a iperf_m"
  assumes "os_only m"
    and "\<And>a s'. run_state m s = (a, s') \<Longrightarrow> tst s' = tst s \<Longrightarrow> strms s' = strms s \<Longrightarrow> strm_brk s' = strm_brk s \<Longrightarrow> Q a s'"
  shows "wp m Q s"
  by (rule wpI) (metis assms more_iperf(1-3) os_onlyD)


definition new_stream_post :: "int \<Rightarrow> iperf_state \<Rightarrow> nat option \<Rightarrow> iperf_state \<Rightarrow> bool" where
  "new_stream_post sck s r s' \<longleftrightarrow>
     (\<forall>q. q \<noteq> strm_brk s \<longrightarrow> strms s' q = strms s q) \<and>
     (case r of
        None \<Rightarrow> tst s' = tst s
      | Some sp \<Rightarrow> sp = strm_brk s \<and> strm_brk s' = Suc sp \<and>
          tst s' = (tst s)\<lparr>t_streams := t_streams (tst s) @ [sp]\<rparr> \<and>
          sp_socket (strms s' sp) = sck \<and>
          sp_id (strms s' sp) = stream_number (length (t_streams (tst s))) \<and>
          st_blksize (t_settings (tst s)) \<le> int (length (sp_buffer (strms s' sp))) \<and>
          length (sp_buffer (strms s' sp)) mod 4096 = 0 \<and>
          counters (strms s' sp) = (0, 0, 0) \<and> sp_result (strms s' sp) = result0)"

lemma os_only_getsockdomain_iperf [os_frame]: "os_only (getsockdomain fd :: int iperf_m)"
  by (rule os_frame)

lemma wp_add_stream [wp_simps]: "wp (iperf_add_stream sp) Q = (\<lambda>s. Q () (snd (run_state (iperf_add_stream sp) s)))"
  by (rule ext) (simp add: wp_def split_beta)

definition same_stream :: "iperf_stream \<Rightarrow> iperf_stream \<Rightarrow> bool" where
  "same_stream x x' \<longleftrightarrow> sp_socket x' = sp_socket x \<and> sp_id x' = sp_id x \<and> sp_buffer x' = sp_buffer x \<and>
     counters x' = counters x \<and> sp_result x' = sp_result x"

definition init_stream_post :: "nat \<Rightarrow> iperf_state \<Rightarrow> iperf_state \<Rightarrow> bool" where
  "init_stream_post sp s s' \<longleftrightarrow> tst s' = tst s \<and> strm_brk s' = strm_brk s \<and>
     (\<forall>q. q \<noteq> sp \<longrightarrow> strms s' q = strms s q) \<and> same_stream (strms s sp) (strms s' sp)"

lemma init_stream_frame: "case run_state (iperf_init_stream sp) s of (r, s') \<Rightarrow> init_stream_post sp s s'"
  by (simp add: iperf_init_stream_def init_stream_post_def same_stream_def getsockdomain_def counters_def Let_def
      split: prod.split)

lemma wp_init_stream: "(\<And>r s'. init_stream_post sp s s' \<Longrightarrow> Q r s') \<Longrightarrow> wp (iperf_init_stream sp) Q s"
  using init_stream_frame [of sp s] by (auto simp: wp_def split: prod.splits)

lemma page_pad: "length b \<le> length (page_pad b)" "length (page_pad b) mod 4096 = 0"
proof -
  show "length b \<le> length (page_pad b)" by (simp add: page_pad_def)
  have "(n + (4096 - n mod 4096) mod 4096) mod 4096 = 0" for n :: nat
  proof (cases "n mod 4096 = 0")
    case False
    have "(n + (4096 - n mod 4096) mod 4096) mod 4096 = (n mod 4096 + (4096 - n mod 4096)) mod 4096"
      using False by (metis mod_add_eq mod_mod_trivial)
    then show ?thesis by simp
  qed simp
  then show "length (page_pad b) mod 4096 = 0" by (simp add: page_pad_def)
qed

lemma wp_new_stream_open:
  "wp (new_stream_open sp sck) (\<lambda>r s'. strm_brk s' = strm_brk s \<and> (\<forall>q. q \<noteq> sp \<longrightarrow> strms s' q = strms s q) \<and>
     (case r of None \<Rightarrow> tst s' = tst s
      | Some p \<Rightarrow> p = sp \<and> tst s' = (tst s)\<lparr>t_streams := t_streams (tst s) @ [sp]\<rparr> \<and>
         sp_socket (strms s' sp) = sck \<and> sp_id (strms s' sp) = stream_number (length (t_streams (tst s))) \<and>
         sp_buffer (strms s' sp) = sp_buffer (strms s sp) \<and> counters (strms s' sp) = counters (strms s sp) \<and>
         sp_result (strms s' sp) = sp_result (strms s sp))) s"
  unfolding new_stream_open_def Let_def
  by (cases "t_diskfile_name (tst s)")
    (auto simp: wp_simps run_add_stream init_stream_post_def same_stream_def counters_def intro!: wp_init_stream)


lemma wp_random_bytes: "(\<And>bs s'. length bs = n \<Longrightarrow> tst s' = tst s \<Longrightarrow> strms s' = strms s \<Longrightarrow> strm_brk s' = strm_brk s \<Longrightarrow> Q bs s') \<Longrightarrow>
    wp (random_bytes n) Q s"
  using random_bytes_result(1) [of n s] by (intro wp_os_only_iperf [OF random_bytes_result(2)]) auto

lemma wp_new_stream_open_post:
  assumes "\<And>r s'. strm_brk s' = strm_brk s \<Longrightarrow> (\<forall>q. q \<noteq> sp \<longrightarrow> strms s' q = strms s q) \<Longrightarrow>
     (case r of None \<Rightarrow> tst s' = tst s
      | Some p \<Rightarrow> p = sp \<and> tst s' = (tst s)\<lparr>t_streams := t_streams (tst s) @ [sp]\<rparr> \<and>
         sp_socket (strms s' sp) = sck \<and> sp_id (strms s' sp) = stream_number (length (t_streams (tst s))) \<and>
         sp_buffer (strms s' sp) = sp_buffer (strms s sp) \<and> counters (strms s' sp) = counters (strms s sp) \<and>
         sp_result (strms s' sp) = sp_result (strms s sp)) \<Longrightarrow> Q r s'"
  shows "wp (new_stream_open sp sck) Q s"
  using wp_mono [OF wp_new_stream_open, where R = Q] assms by blast

lemma page_pad_holds: "length b = nat n \<Longrightarrow> n \<le> int (length (page_pad b))"
  using page_pad(1) [of b] by linarith

lemma stream0_sel [simp]: "counters (sp\<lparr>sp_buffer_fd := f\<rparr>) = counters sp" "counters stream0 = (0, 0, 0)"
  "sp_result (stream0\<lparr>sp_buffer_fd := f, sp_buffer := b\<rparr>) = result0"
  by (simp_all add: counters_def stream0_def)

text \<open>
  C31: a stream is created completely or not at all, as far as the test can see. On failure the test
  and every stream it had are as before; on success the list of streams has grown at its end by a
  stream at a new address, with the socket given, the next number, a buffer of whole pages that holds
  a block, and zero counters and totals.
\<close>

theorem new_stream_result:
  "case run_state (iperf_new_stream sck) s of (r, s') \<Rightarrow> new_stream_post sck s r s'"
proof -
  have "wp (iperf_new_stream sck) (\<lambda>r s'. new_stream_post sck s r s') s"
    unfolding iperf_new_stream_def stream_failed_def Let_def
    by (simp add: wp_simps, intro conjI impI wp_random_bytes wp_new_stream_open_post)
      (simp_all add: new_stream_post_def page_pad_holds page_pad(2) split: option.splits)
  then show ?thesis by (simp add: wp_def)
qed

section \<open>The books balance\<close>

text \<open>
  What a stream contributes to the total of its test since the totals were last reset, and what the
  test's total differs from the sum over its streams, modulo \<open>2 ^ 64\<close>.
\<close>

definition stream_total :: "iperf_stream \<Rightarrow> int" where
  "stream_total sp = rp_bytes_sent (sp_result sp) - rp_bytes_sent_omit (sp_result sp) + rp_bytes_received (sp_result sp)"

definition owed :: "iperf_state \<Rightarrow> int" where
  "owed s = u64 (t_bytes_sent (tst s) - (\<Sum>sp\<in>set (t_streams (tst s)). stream_total (strms s sp)))"

definition accounted :: "iperf_state \<Rightarrow> bool" where
  "accounted s \<longleftrightarrow> owed s = 0"

definition cong64 :: "int \<Rightarrow> int \<Rightarrow> bool" where
  "cong64 a b \<longleftrightarrow> u64 a = u64 b"

lemma cong64_dvd: "cong64 a b \<longleftrightarrow> 2 ^ 64 dvd a - b"
  by (simp add: cong64_def u64_def mod_eq_dvd_iff)

lemma cong64_refl [simp]: "cong64 a a"
  by (simp add: cong64_def)

lemma cong64_u64: "cong64 (u64 a) a"
  by (simp add: cong64_def u64_def)

lemma cong64_add: "cong64 a b \<Longrightarrow> cong64 (a + c) (b + c)"
  by (simp add: cong64_dvd)

lemma cong64_diff: "cong64 a a' \<Longrightarrow> cong64 b b' \<Longrightarrow> cong64 (a - b) (a' - b')"
  unfolding cong64_def u64_def by (rule mod_diff_cong)

lemma cong64_shift: "A - B = c - d \<Longrightarrow> cong64 c (d + r) \<Longrightarrow> cong64 A (B + r)"
proof -
  assume "A - B = c - d" "cong64 c (d + r)"
  moreover from this have "A - (B + r) = c - (d + r)" by linarith
  ultimately show ?thesis by (simp only: cong64_dvd)
qed

text \<open>
  Sending or receiving once on the stream at \<open>sp\<close>: no other stream changes, nor do the streams and the
  total of the test, and the stream's total grows by the result when that is not negative.
\<close>

definition io_post :: "nat \<Rightarrow> iperf_state \<Rightarrow> int \<Rightarrow> iperf_state \<Rightarrow> bool" where
  "io_post sp s r s' \<longleftrightarrow> t_streams (tst s') = t_streams (tst s) \<and> t_bytes_sent (tst s') = t_bytes_sent (tst s) \<and>
     (\<forall>q. q \<noteq> sp \<longrightarrow> strms s' q = strms s q) \<and>
     cong64 (stream_total (strms s' sp)) (stream_total (strms s sp) + (if r < 0 then 0 else r))"

lemma wp_Nread_os: "(\<And>r d s'. tst s' = tst s \<Longrightarrow> strms s' = strms s \<Longrightarrow> Q (r, d) s') \<Longrightarrow> wp (Nread fd n) Q (s :: iperf_state)"
  by (rule wp_os_only_iperf [OF os_only_net(1)]) auto

lemma wp_Nwrite_os: "(\<And>r s'. tst s' = tst s \<Longrightarrow> strms s' = strms s \<Longrightarrow> Q r s') \<Longrightarrow> wp (Nwrite fd b) Q (s :: iperf_state)"
  by (rule wp_os_only_iperf [OF os_only_net(2)]) auto

lemma wp_Nsendfile_os: "(\<And>r s'. tst s' = tst s \<Longrightarrow> strms s' = strms s \<Longrightarrow> Q r s') \<Longrightarrow> wp (Nsendfile f g n) Q (s :: iperf_state)"
  by (rule wp_os_only_iperf [OF os_only_net(3)]) auto

lemma wp_iperf_err:
  "(\<And>s'. strms s' = strms s \<Longrightarrow> t_streams (tst s') = t_streams (tst s) \<Longrightarrow> t_bytes_sent (tst s') = t_bytes_sent (tst s) \<Longrightarrow> Q () s') \<Longrightarrow>
    wp (iperf_err test f a) Q s"
  by (simp add: iperf_err_def err_text_def fprintf_out_def json_add_def mod_json_def wp_simps)

lemma stream_total_simps [simp]:
  "stream_total (x\<lparr>sp_buffer := b\<rparr>) = stream_total x" "stream_total (x\<lparr>sp_packet_count := n\<rparr>) = stream_total x"
  "stream_total (x\<lparr>sp_green_light := g\<rparr>) = stream_total x"
  "stream_total (udp_count n x) = stream_total x" "stream_total (udp_jitter t1 t2 x) = stream_total x"
  by (simp_all add: stream_total_def)

lemma stream_total_received: "cong64 (stream_total (set_rp (\<lambda>rp. rp\<lparr>rp_bytes_received := u64 (rp_bytes_received rp + r),
    rp_bytes_received_this_interval := v rp\<rparr>) x)) (stream_total x + r)"
  using cong64_add [OF cong64_u64, of "rp_bytes_received (sp_result x) + r" "rp_bytes_sent (sp_result x) - rp_bytes_sent_omit (sp_result x)"]
  by (simp add: stream_total_def algebra_simps)

lemma stream_total_sent: "cong64 (stream_total (set_rp (\<lambda>rp. rp\<lparr>rp_bytes_sent := u64 (rp_bytes_sent rp + r),
    rp_bytes_sent_this_interval := v rp\<rparr>) x)) (stream_total x + r)"
  using cong64_add [OF cong64_u64, of "rp_bytes_sent (sp_result x) + r" "rp_bytes_received (sp_result x) - rp_bytes_sent_omit (sp_result x)"]
  by (simp add: stream_total_def algebra_simps)

lemma stream_total_grows:
  "stream_total x = n \<Longrightarrow> cong64 (stream_total (set_rp (\<lambda>rp. rp\<lparr>rp_bytes_received := u64 (rp_bytes_received rp + r),
    rp_bytes_received_this_interval := v rp\<rparr>) x)) (n + r)"
  "stream_total x = n \<Longrightarrow> cong64 (stream_total (set_rp (\<lambda>rp. rp\<lparr>rp_bytes_sent := u64 (rp_bytes_sent rp + r),
    rp_bytes_sent_this_interval := v rp\<rparr>) x)) (n + r)"
  using stream_total_received stream_total_sent by auto

text \<open>A stream's gain and the test's are the same: the difference between the two sides stays.\<close>

lemma owed_cong: "cong64 (t_bytes_sent (tst s') - (\<Sum>sp\<in>set (t_streams (tst s')). stream_total (strms s' sp)))
    (t_bytes_sent (tst s) - (\<Sum>sp\<in>set (t_streams (tst s)). stream_total (strms s sp))) \<Longrightarrow> owed s' = owed s"
  by (simp add: owed_def cong64_def)

lemma io_post_sum:
  assumes "io_post sp s r s'" "sp \<in> set (t_streams (tst s))"
  shows "cong64 (\<Sum>q\<in>set (t_streams (tst s')). stream_total (strms s' q))
    ((\<Sum>q\<in>set (t_streams (tst s)). stream_total (strms s q)) + (if r < 0 then 0 else r))"
proof -
  let ?S = "set (t_streams (tst s))"
  have "(\<Sum>q\<in>?S - {sp}. stream_total (strms s' q)) = (\<Sum>q\<in>?S - {sp}. stream_total (strms s q))"
    using assms(1) by (intro sum.cong) (auto simp: io_post_def)
  then have "(\<Sum>q\<in>?S. stream_total (strms s' q)) - (\<Sum>q\<in>?S. stream_total (strms s q)) =
      stream_total (strms s' sp) - stream_total (strms s sp)"
    using assms(2) by (simp add: sum.remove)
  then show ?thesis using assms(1) by (simp add: io_post_def cong64_shift)
qed

lemma owed_failed: "io_post sp s r s' \<Longrightarrow> sp \<in> set (t_streams (tst s)) \<Longrightarrow> r < 0 \<Longrightarrow> owed s' = owed s"
  using io_post_sum [of sp s r s'] by (intro owed_cong cong64_diff) (simp_all add: io_post_def)

lemma owed_counted:
  assumes "io_post sp s r s'" "sp \<in> set (t_streams (tst s))" "0 \<le> r"
  shows "owed (s'\<lparr>tst := count_block r (tst s')\<rparr>) = owed s"
proof -
  have "cong64 (u64 (t_bytes_sent (tst s) + r) - (\<Sum>q\<in>set (t_streams (tst s')). stream_total (strms s' q)))
     (t_bytes_sent (tst s) + r - ((\<Sum>q\<in>set (t_streams (tst s)). stream_total (strms s q)) + r))"
    using io_post_sum [OF assms(1,2)] assms(3) by (intro cong64_diff cong64_u64) simp
  then show ?thesis using assms(1) by (intro owed_cong) (simp add: io_post_def count_block_def)
qed

lemma io_counted:
  assumes "io_post sp s r s'" "sp \<in> set (t_streams (tst s))"
  shows "t_streams (tst s') = t_streams (tst s) \<and> owed (if r < 0 then s' else s'\<lparr>tst := count_block r (tst s')\<rparr>) = owed s"
  using owed_failed [OF assms] owed_counted [OF assms] assms(1) by (simp add: io_post_def)

lemma owed_i_errno [simp]: "owed (s\<lparr>i_errno := e\<rparr>) = owed s"
  by (simp add: owed_def)

text \<open>
  The contract of the two functions a protocol provides for its streams (\<open>send\<close> and \<open>recv\<close> of
  \<open>struct protocol\<close>): whatever they transfer on a stream they add to that stream's counters, and they
  touch no other stream and none of the test's own totals.
\<close>

locale transport =
  fixes snd_fn rcv_fn :: "nat \<Rightarrow> int iperf_m"
  assumes snd_io: "wp (snd_fn sp) (io_post sp s) s"
    and rcv_io: "wp (rcv_fn sp) (io_post sp s) s"
begin

text \<open>Work on the stream's buffer before the transfer does not matter.\<close>

lemma snd_after:
  assumes "t_streams (tst s1) = t_streams (tst s)" "t_bytes_sent (tst s1) = t_bytes_sent (tst s)"
    "\<forall>q. q \<noteq> sp \<longrightarrow> strms s1 q = strms s q" "stream_total (strms s1 sp) = stream_total (strms s sp)"
  shows "wp (snd_fn sp) (io_post sp s) s1"
  by (rule wp_mono [OF snd_io]) (use assms in \<open>simp add: io_post_def\<close>)

text \<open>The test's total and the sum over its streams grow by the same amount.\<close>

lemma counted:
  assumes "sp \<in> set (t_streams (tst s))"
  shows "wp (snd_fn sp) (\<lambda>r s'. t_streams (tst s') = t_streams (tst s) \<and>
      owed (if r < 0 then s' else s'\<lparr>tst := count_block r (tst s')\<rparr>) = owed s) s"
    and "wp (rcv_fn sp) (\<lambda>r s'. t_streams (tst s') = t_streams (tst s) \<and>
      owed (if r < 0 then s' else s'\<lparr>tst := count_block r (tst s')\<rparr>) = owed s) s"
  by (rule wp_mono [OF snd_io io_counted [OF _ assms]], assumption) (rule wp_mono [OF rcv_io io_counted [OF _ assms]])

end

text \<open>TCP and UDP meet it, and so does a null pointer, whose call crashes.\<close>

interpretation tcp: transport iperf_tcp_send iperf_tcp_recv
  by unfold_locales (auto simp: iperf_tcp_send_def iperf_tcp_recv_def wp_simps io_post_def stream_total_grows
      intro!: wp_Nread_os wp_Nwrite_os wp_Nsendfile_os)

interpretation udp: transport iperf_udp_send iperf_udp_recv
  by unfold_locales (auto simp: iperf_udp_send_def iperf_udp_recv_def Let_def wp_simps io_post_def stream_total_grows
      intro!: wp_Nread_os wp_Nwrite_os wp_iperf_err)

interpretation null: transport "\<lambda>_. null_call" "\<lambda>_. null_call"
  by unfold_locales (simp_all add: null_call_def wp_simps io_post_def)

text \<open>So do the functions a stream points to, directly or around the file of \<open>-F\<close>.\<close>

interpretation fn: transport "\<lambda>sp. stream_snd2 sp f" "\<lambda>sp. stream_rcv2 sp f" for f
  by unfold_locales
    (cases f; simp add: stream_snd2_def stream_rcv2_def tcp.snd_io udp.snd_io null.snd_io tcp.rcv_io udp.rcv_io null.rcv_io)+

lemma diskfile_send_io: "wp (diskfile_send sp) (io_post sp s) s"
  by (auto simp: diskfile_send_def wp_simps intro!: fn.snd_after split: prod.split) (simp_all add: io_post_def)

lemma diskfile_recv_io: "wp (diskfile_recv sp) (io_post sp s) s"
  unfolding diskfile_recv_def
  by (simp add: wp_simps) (rule wp_mono [OF fn.rcv_io], auto simp: io_post_def)

interpretation strm: transport stream_snd stream_rcv
  by unfold_locales
    (simp_all add: stream_snd_def stream_rcv_def wp_simps diskfile_send_io diskfile_recv_io fn.snd_io fn.rcv_io)

lemma throttle_frame: "wp (iperf_check_throttle sp now) (\<lambda>_ s'. owed s' = owed s \<and> t_streams (tst s') = t_streams (tst s)) s"
  by (auto simp: iperf_check_throttle_def Let_def wp_simps owed_def intro!: arg_cong [where f = u64] sum.cong)

lemma wp_throttle: "(\<And>s'. owed s' = owed s \<Longrightarrow> t_streams (tst s') = t_streams (tst s) \<Longrightarrow> Q () s') \<Longrightarrow> wp (iperf_check_throttle sp now) Q s"
  by (rule wp_mono [OF throttle_frame]) auto

lemma send_streams_owed: "set sps \<subseteq> set (t_streams (tst s)) \<Longrightarrow>
    wp (send_streams k now w sps a) (\<lambda>_ s'. owed s' = owed s \<and> t_streams (tst s') = t_streams (tst s)) s"
proof (induction sps arbitrary: s a)
  case (Cons sp sps)
  have sp: "sp \<in> set (t_streams (tst s))" using Cons.prems by simp
  have ih: "wp (send_streams k now w sps b) (\<lambda>_ s'. owed s' = owed s \<and> t_streams (tst s') = t_streams (tst s)) s1"
    if "owed s1 = owed s" "t_streams (tst s1) = t_streams (tst s)" for s1 b
    using Cons.IH [of s1 b] Cons.prems that by simp
  let ?Q = "\<lambda>_ s'. owed s' = owed s \<and> t_streams (tst s') = t_streams (tst s)"
  have rest: "wp (do { t1 \<leftarrow> get_t id; if send_enough k t1 then ret (None, True) else send_streams k now w sps True }) ?Q s1"
    if "owed s1 = owed s" "t_streams (tst s1) = t_streams (tst s)" for s1
    using that ih [OF that] by (simp add: wp_simps)
  have "wp (if r < 0 then
         (if r = NET_SOFTERROR then ret (None, a) else do { set_i_errno IESTREAMWRITE; ret (Some r, a) })
       else do {
         mod_t (count_block r);
         when_m (paced (tst s)) (iperf_check_throttle sp now);
         t1 \<leftarrow> get_t id;
         if send_enough k t1 then ret (None, True) else send_streams k now w sps True }) ?Q s1"
    if io: "t_streams (tst s1) = t_streams (tst s) \<and>
      owed (if r < 0 then s1 else s1\<lparr>tst := count_block r (tst s1)\<rparr>) = owed s" for r s1
  proof (cases "r < 0")
    case True
    then show ?thesis using io by (simp add: wp_simps)
  next
    case False
    let ?s2 = "s1\<lparr>tst := count_block r (tst s1)\<rparr>"
    have s2: "owed ?s2 = owed s" "t_streams (tst ?s2) = t_streams (tst s)"
      using False io by (simp_all add: count_block_def)
    show ?thesis
    proof (cases "paced (tst s)")
      case p: True
      have "wp (iperf_check_throttle sp now) (\<lambda>_. wp (do { t1 \<leftarrow> get_t id;
          if send_enough k t1 then ret (None, True) else send_streams k now w sps True }) ?Q) ?s2"
        by (rule wp_throttle) (use s2 in \<open>intro rest; simp\<close>)
      with False p show ?thesis by (simp add: wp_bind wp_mod_t wp_if wp_when_m)
    next
      case p: False
      with False rest [OF s2] show ?thesis by (simp add: wp_bind wp_mod_t wp_if wp_when_m)
    qed
  qed
  note step = this
  define cont where "cont = (\<lambda>r. if r < 0 then
         (if r = NET_SOFTERROR then ret (None, a) else do { set_i_errno IESTREAMWRITE; ret (Some r, a) })
       else do {
         mod_t (count_block r);
         when_m (paced (tst s)) (iperf_check_throttle sp now);
         t1 \<leftarrow> get_t id;
         if send_enough k t1 then ret (None, True) else send_streams k now w sps True })"
  have "wp (State_Monad.bind (stream_snd sp) cont) ?Q s"
    unfolding wp_bind cont_def by (rule wp_mono [OF strm.counted(1) [OF sp] step])
  moreover have "run_state (send_streams k now w (sp # sps) a) s =
      (if may_send (tst s) (strms s sp) w then run_state (State_Monad.bind (stream_snd sp) cont) s
       else run_state (send_streams k now w sps a) s)"
    by (simp add: cont_def)
  ultimately show ?case
    using ih [of s a] by (simp only: wp_def simp_thms split: if_split)
qed (simp add: wp_simps)

lemma send_rounds_owed: "wp (send_rounds k now w) (\<lambda>_ s'. owed s' = owed s \<and> t_streams (tst s') = t_streams (tst s)) s"
proof (induction k arbitrary: s now)
  case (Suc k)
  let ?Q = "\<lambda>_ s'. owed s' = owed s \<and> t_streams (tst s') = t_streams (tst s)"
  have streams: "wp (send_streams (Suc k) now1 w (t_streams (tst s1)) False) ?Q s1"
    if "owed s1 = owed s" "t_streams (tst s1) = t_streams (tst s)" for s1 now1
    using send_streams_owed [of "t_streams (tst s1)" s1] that by simp
  have ih: "wp (send_rounds k now1 w) ?Q s1" if "owed s1 = owed s" "t_streams (tst s1) = t_streams (tst s)" for s1 now1
    using Suc [of now1 s1] that by simp
  have body: "wp (do { (r, active) \<leftarrow> send_streams (Suc k) now1 w (t_streams (tst s)) False;
      case r of Some v \<Rightarrow> ret (Some v) | None \<Rightarrow> if \<not> active then ret None else send_rounds k now1 w }) ?Q s1"
    if "owed s1 = owed s" "t_streams (tst s1) = t_streams (tst s)" for s1 now1
    unfolding wp_bind
    by (rule wp_mono [OF streams [OF that, unfolded that(2)]])
      (auto simp: wp_return wp_if ih split: prod.splits option.splits)
  have "owed (after s c) = owed s" for c by (simp add: owed_def)
  with body [of s] body [of "after s SGettimeofday"] show ?case
    by (simp add: wp_bind wp_get_t wp_if wp_gettimeofday wp_return)
qed (simp add: wp_simps)

lemma foreach_throttle_owed: "wp (foreach_m sps (\<lambda>sp. iperf_check_throttle sp now)) (\<lambda>_ s'. owed s' = owed s) s"
proof (induction sps arbitrary: s)
  case (Cons sp sps)
  have "wp (foreach_m sps (\<lambda>sp. iperf_check_throttle sp now)) (\<lambda>_ s'. owed s' = owed s) s1"
    if "owed s1 = owed s" for s1
    using Cons [of s1] that by simp
  then show ?case by (auto simp: wp_simps intro!: wp_throttle)
qed (simp add: wp_simps)

lemma iperf_send_owed: "wp (iperf_send w) (\<lambda>_ s'. owed s' = owed s) s"
proof -
  have throttle: "wp (foreach_m sps (\<lambda>sp. iperf_check_throttle sp now)) (\<lambda>_ s'. owed s' = owed s) s1"
    if "owed s1 = owed s" for s1 sps now
    using foreach_throttle_owed [of sps now s1] that by simp
  have aft: "owed (after s1 c) = owed s1" for s1 c by (simp add: owed_def)
  show ?thesis
    unfolding iperf_send_def wp_bind wp_get_t
    by (rule wp_mono [OF send_rounds_owed])
      (auto simp: wp_simps aft intro!: throttle split: option.split)
qed

lemma recv_streams_owed: "set sps \<subseteq> set (t_streams (tst s)) \<Longrightarrow>
    wp (recv_streams rs sps) (\<lambda>_ s'. owed s' = owed s) s"
proof (induction sps arbitrary: s rs)
  case (Cons sp sps)
  have sp: "sp \<in> set (t_streams (tst s))" using Cons.prems by simp
  have ih: "wp (recv_streams rs1 sps) (\<lambda>_ s'. owed s' = owed s) s1"
    if "owed s1 = owed s" "t_streams (tst s1) = t_streams (tst s)" for s1 rs1
    using Cons.IH [of s1 rs1] Cons.prems that by simp
  have rcv: "wp (if r < 0 then do { set_i_errno IESTREAMREAD; ret (r, rs) }
      else do { mod_t (count_block r); recv_streams (fd_clr (sp_socket (strms s sp)) rs) sps })
     (\<lambda>_ s'. owed s' = owed s) s1" if io: "t_streams (tst s1) = t_streams (tst s) \<and>
      owed (if r < 0 then s1 else s1\<lparr>tst := count_block r (tst s1)\<rparr>) = owed s" for r s1
  proof (cases "r < 0")
    case True
    then show ?thesis using io by (simp add: wp_simps)
  next
    case False
    let ?s2 = "s1\<lparr>tst := count_block r (tst s1)\<rparr>"
    have "owed ?s2 = owed s" "t_streams (tst ?s2) = t_streams (tst s)"
      using False io by (simp_all add: count_block_def)
    from ih [OF this] False show ?thesis by (simp add: wp_bind wp_mod_t wp_if)
  qed
  then have "wp (State_Monad.bind (stream_rcv sp) (\<lambda>r. if r < 0 then do { set_i_errno IESTREAMREAD; ret (r, rs) }
      else do { mod_t (count_block r); recv_streams (fd_clr (sp_socket (strms s sp)) rs) sps }))
     (\<lambda>_ s'. owed s' = owed s) s"
    unfolding wp_bind by (rule wp_mono [OF strm.counted(2) [OF sp]])
  with ih [of s rs] show ?case by (simp add: wp_def)
qed (simp add: wp_simps)

text \<open>
  C1: the books of a test balance. What the test has counted as transferred is, modulo \<open>2 ^ 64\<close>, the sum
  over its streams of the bytes sent since the omitted period and the bytes received; sending and
  receiving, on whatever streams and with whatever errors, keep it so.
\<close>

theorem transfer_accounted:
  "(case run_state (iperf_send write_set) s of (r, s') \<Rightarrow> accounted s' = accounted s) \<and>
   (case run_state (iperf_recv read_set) s of (r, s') \<Rightarrow> accounted s' = accounted s)"
  using iperf_send_owed [of write_set s] recv_streams_owed [of "t_streams (tst s)" s read_set]
  by (auto simp: wp_def accounted_def iperf_recv_def split: prod.splits)

section \<open>Instances\<close>


definition ex_datagrams :: "syscall list \<Rightarrow> sysret" where
  "ex_datagrams tr = (case tr of SRead fd n # _ \<Rightarrow> SysRet 1 0 (udp_header False (Timeval 5 7) 1) [] | _ \<Rightarrow> SysRet 0 0 [] [])"

definition ex_receiver :: iperf_state where
  "ex_receiver = (ex_state ex_datagrams (test0\<lparr>t_settings := settings0\<lparr>st_blksize := 12\<rparr>\<rparr>))\<lparr>strms := \<lambda>_. stream0\<rparr>"

theorem udp_recv_counts_witness:
  "\<exists>s'. run_state (iperf_udp_recv 3) ex_receiver = (12, s') \<and> counters (strms s' 3) = (1, 0, 0) \<and>
     rp_bytes_received (sp_result (strms s' 3)) = 12"
proof -
  have l: "length (udp_header False (Timeval 5 7) 1) = 12" by (simp add: udp_header_def)
  have "run_state (Nread 0 12) ex_receiver = ((12, udp_header False (Timeval 5 7) 1), after ex_receiver (SRead 0 12))"
    using Nread_whole [of 12 ex_receiver 0 "udp_header False (Timeval 5 7) 1"] l
    by (simp add: read_result_def answer_def ex_receiver_def ex_state_def ex_datagrams_def)
  then have n: "run_state (Nread (sp_socket (strms ex_receiver 3)) (nat (st_blksize (t_settings (tst ex_receiver))))) ex_receiver =
      ((12, udp_header False (Timeval 5 7) 1), after ex_receiver (SRead 0 12))"
    by (simp add: ex_receiver_def ex_state_def stream0_def)
  have "snd (udp_parse False (poke 0 (udp_header False (Timeval 5 7) 1) (sp_buffer stream0))) = 1"
    by (simp add: udp_parse_def poke_def udp_header_def of_be_be32_u32 u32_def)
  moreover have "counters (udp_count 1 stream0) = (1, 0, 0)"
    by (simp add: counters_def udp_count_def udp_next_def stream0_def i32_def u64_def)
  ultimately show ?thesis
    using udp_recv_counts [OF n]
    by (auto simp: ex_receiver_def ex_state_def test0_def Let_def u64_def stream0_def result0_def split: prod.splits)
qed

end
