(* ===== verification/Stats.thy ===== *)
theory Stats
  imports Stream_Facts
begin

text \<open>
  Gathering statistics (\<open>iperf_stats_callback\<close>, \<open>iperf_reset_stats\<close> of \<open>iperf_api.c\<close>, \<open>tcp_info.c\<close>): at the
  end of every interval each stream gets one more record of what it transferred.

  The fields of a new record that its branch does not assign hold what the stack held; nothing reads
  them, and here they are those of \<open>interval0\<close> or of the stream before. The kernel counts of a TCP
  connection are unsigned 32-bit numbers, \<open>long\<close> has 64 bits.
\<close>

section \<open>TCP information\<close>

definition tcpinfo_of :: "sysret \<Rightarrow> tcp_info" where
  "tcpinfo_of r =
     (let n = (\<lambda>i. u32 (nth_int (sr_ints r) i))
      in \<lparr>tcpi_snd_cwnd = n 0, tcpi_snd_mss = n 1, tcpi_rtt = n 2, tcpi_total_retrans = n 3\<rparr>)"

text \<open>When the call fails the answer's numbers stand for what the record held.\<close>

definition save_tcpinfo :: "nat \<Rightarrow> iperf_interval_results \<Rightarrow> iperf_interval_results iperf_m" where
  "save_tcpinfo sp irp = do {
     sck \<leftarrow> get_sp sp sp_socket;
     r \<leftarrow> syscall (SGetsockopt sck ''TCP_INFO'');
     when_m (sr_val r < 0) (do {
       e \<leftarrow> get_errno;
       msg \<leftarrow> strerror e;
       iperf_err True ''getsockopt - %s'' [PStr msg] });
     let info = tcpinfo_of r;
     debug \<leftarrow> get_t t_debug;
     when_m (debug \<noteq> 0)
       (sys_do (SStdout (c_printf (''tcpi_snd_cwnd %u tcpi_snd_mss %u tcpi_rtt %u'' @ nl)
         [PInt (tcpi_snd_cwnd info), PInt (tcpi_snd_mss info), PInt (tcpi_rtt info)])));
     ret (irp\<lparr>ir_tcpInfo := info\<rparr>) }"

definition get_total_retransmits :: "iperf_interval_results \<Rightarrow> int" where
  "get_total_retransmits irp = tcpi_total_retrans (ir_tcpInfo irp)"

definition get_snd_cwnd :: "iperf_interval_results \<Rightarrow> int" where
  "get_snd_cwnd irp = u32 (tcpi_snd_cwnd (ir_tcpInfo irp) * tcpi_snd_mss (ir_tcpInfo irp))"

definition get_rtt :: "iperf_interval_results \<Rightarrow> int" where
  "get_rtt irp = tcpi_rtt (ir_tcpInfo irp)"

section \<open>Intervals\<close>

definition interval0 :: iperf_interval_results where
  "interval0 = \<lparr>ir_bytes_transferred = 0, ir_interval_start_time = Timeval 0 0, ir_interval_end_time = Timeval 0 0,
     ir_interval_duration = Fin 0, ir_interval_packet_count = 0, ir_interval_outoforder_packets = 0,
     ir_interval_cnt_error = 0, ir_packet_count = 0, ir_jitter = Fin 0, ir_outoforder_packets = 0,
     ir_cnt_error = 0, ir_omitted = 0,
     ir_tcpInfo = \<lparr>tcpi_snd_cwnd = 0, tcpi_snd_mss = 0, tcpi_rtt = 0, tcpi_total_retrans = 0\<rparr>,
     ir_interval_retrans = 0, ir_snd_cwnd = 0, ir_rtt = 0\<rparr>"

definition add_to_interval_list :: "iperf_interval_results \<Rightarrow> iperf_stream_result \<Rightarrow> iperf_stream_result" where
  "add_to_interval_list new rp = rp\<lparr>rp_interval_results := rp_interval_results rp @ [new]\<rparr>"

definition last_interval :: "iperf_stream \<Rightarrow> iperf_interval_results option" where
  "last_interval sp = (case rp_interval_results (sp_result sp) of [] \<Rightarrow> None | irs \<Rightarrow> Some (last irs))"

definition retransmits_known :: "iperf_test \<Rightarrow> bool" where
  "retransmits_known t \<longleftrightarrow> t_sender t \<noteq> 0 \<and> t_sender_has_retransmits t \<noteq> 0"

text \<open>The part of an interval a TCP sender learns from the kernel, and what it adds up over the test.\<close>

definition interval_retransmits :: "iperf_stream_result \<Rightarrow> iperf_interval_results \<Rightarrow> iperf_interval_results" where
  "interval_retransmits rp temp =
     temp\<lparr>ir_interval_retrans := i32 (get_total_retransmits temp - rp_stream_prev_total_retrans rp),
          ir_snd_cwnd := i32 (get_snd_cwnd temp), ir_rtt := i32 (get_rtt temp)\<rparr>"

definition add_retransmits :: "iperf_interval_results \<Rightarrow> iperf_stream_result \<Rightarrow> iperf_stream_result" where
  "add_retransmits temp rp =
     rp\<lparr>rp_stream_retrans := i32 (rp_stream_retrans rp + ir_interval_retrans temp),
        rp_stream_prev_total_retrans := i32 (get_total_retransmits temp),
        rp_stream_max_snd_cwnd := (if rp_stream_max_snd_cwnd rp < ir_snd_cwnd temp then ir_snd_cwnd temp else rp_stream_max_snd_cwnd rp),
        rp_stream_max_rtt := (if rp_stream_max_rtt rp < ir_rtt temp then ir_rtt temp else rp_stream_max_rtt rp),
        rp_stream_min_rtt := (if rp_stream_min_rtt rp = 0 \<or> ir_rtt temp < rp_stream_min_rtt rp then ir_rtt temp else rp_stream_min_rtt rp),
        rp_stream_sum_rtt := i32 (rp_stream_sum_rtt rp + ir_rtt temp),
        rp_stream_count_rtt := i32 (rp_stream_count_rtt rp + 1)\<rparr>"

text \<open>The part of an interval that counts datagrams: the difference to the interval before.\<close>

definition interval_packets :: "iperf_stream \<Rightarrow> iperf_interval_results option \<Rightarrow> iperf_interval_results \<Rightarrow> iperf_interval_results" where
  "interval_packets sp irp temp =
     (case irp of
        None \<Rightarrow> temp\<lparr>ir_interval_packet_count := sp_packet_count sp,
          ir_interval_outoforder_packets := sp_outoforder_packets sp, ir_interval_cnt_error := sp_cnt_error sp\<rparr>
      | Some p \<Rightarrow> temp\<lparr>ir_interval_packet_count := i32 (sp_packet_count sp - ir_packet_count p),
          ir_interval_outoforder_packets := i32 (sp_outoforder_packets sp - ir_outoforder_packets p),
          ir_interval_cnt_error := i32 (sp_cnt_error sp - ir_cnt_error p)\<rparr>)
     \<lparr>ir_packet_count := sp_packet_count sp, ir_jitter := sp_jitter sp,
      ir_outoforder_packets := sp_outoforder_packets sp, ir_cnt_error := sp_cnt_error sp\<rparr>"

definition interval_times :: "iperf_test \<Rightarrow> iperf_stream_result \<Rightarrow> iperf_interval_results option \<Rightarrow> timeval \<Rightarrow>
    iperf_interval_results \<Rightarrow> iperf_interval_results" where
  "interval_times t rp irp now temp =
     (let start = (if irp \<noteq> None then rp_end_time rp else rp_start_time rp)
      in temp\<lparr>ir_bytes_transferred := (if t_sender t \<noteq> 0 then rp_bytes_sent_this_interval rp else rp_bytes_received_this_interval rp),
              ir_interval_start_time := start, ir_interval_end_time := now,
              ir_interval_duration := to_float (timeval_diff start now)\<rparr>)"

text \<open>One stream; the result is \<open>temp\<close> as it is left for the next.\<close>

definition stats_stream :: "nat \<Rightarrow> iperf_interval_results \<Rightarrow> iperf_interval_results iperf_m" where
  "stats_stream sp temp = do {
     t \<leftarrow> get_t id;
     st \<leftarrow> get_sp sp id;
     let irp = last_interval st;
     (_, now) \<leftarrow> gettimeofday;
     let temp1 = interval_times t (sp_result st) irp now temp;
     mod_sp sp (set_rp (\<lambda>rp. rp\<lparr>rp_end_time := now\<rparr>));
     temp2 \<leftarrow> (if protocol_id_is t Ptcp then
         (if has_tcpinfo \<noteq> 0 then do {
            temp2 \<leftarrow> save_tcpinfo sp temp1;
            if retransmits_known t then do {
              let temp3 = interval_retransmits (sp_result st) temp2;
              mod_sp sp (set_rp (add_retransmits temp3));
              ret temp3 }
            else ret temp2 }
          else ret temp1)
       else ret (interval_packets st irp temp1));
     mod_sp sp (set_rp (add_to_interval_list temp2));
     mod_sp sp (set_rp (\<lambda>rp. rp\<lparr>rp_bytes_sent_this_interval := 0, rp_bytes_received_this_interval := 0\<rparr>));
     ret temp2 }"

fun stats_streams :: "nat list \<Rightarrow> iperf_interval_results \<Rightarrow> unit iperf_m" where
  "stats_streams [] temp = skip_m"
| "stats_streams (sp # sps) temp = do {
     temp1 \<leftarrow> stats_stream sp temp;
     stats_streams sps temp1 }"

definition iperf_stats_callback :: "unit iperf_m" where
  "iperf_stats_callback = do {
     t \<leftarrow> get_t id;
     stats_streams (t_streams t) (interval0\<lparr>ir_omitted := t_omitting t\<rparr>) }"

section \<open>Resetting\<close>

definition reset_stream_stats :: "timeval \<Rightarrow> nat \<Rightarrow> unit iperf_m" where
  "reset_stream_stats now sp = do {
     mod_sp sp (\<lambda>x. x\<lparr>sp_omitted_packet_count := sp_packet_count x, sp_omitted_cnt_error := sp_cnt_error x,
       sp_omitted_outoforder_packets := sp_outoforder_packets x, sp_jitter := Fin 0\<rparr>);
     mod_sp sp (set_rp (\<lambda>rp. rp\<lparr>rp_bytes_sent_omit := rp_bytes_sent rp, rp_bytes_received := 0,
       rp_bytes_sent_this_interval := 0, rp_bytes_received_this_interval := 0\<rparr>));
     t \<leftarrow> get_t id;
     when_m (retransmits_known t) (do {
       ir \<leftarrow> save_tcpinfo sp interval0;
       mod_sp sp (set_rp (\<lambda>rp. rp\<lparr>rp_stream_prev_total_retrans := i32 (get_total_retransmits ir)\<rparr>)) });
     mod_sp sp (set_rp (\<lambda>rp. rp\<lparr>rp_stream_retrans := 0, rp_start_time := now\<rparr>)) }"

definition iperf_reset_stats :: "unit iperf_m" where
  "iperf_reset_stats = do {
     mod_t (\<lambda>t. t\<lparr>t_bytes_sent := 0, t_blocks_sent := 0\<rparr>);
     (_, now) \<leftarrow> gettimeofday;
     sps \<leftarrow> get_t t_streams;
     foreach_m sps (reset_stream_stats now) }"

section \<open>Intervals follow one another\<close>

definition this_interval :: "iperf_test \<Rightarrow> iperf_stream_result \<Rightarrow> int" where
  "this_interval t rp = (if t_sender t \<noteq> 0 then rp_bytes_sent_this_interval rp else rp_bytes_received_this_interval rp)"

text \<open>What one call does to the results of a stream.\<close>

definition stats_post :: "iperf_test \<Rightarrow> iperf_stream_result \<Rightarrow> iperf_stream_result \<Rightarrow> bool" where
  "stats_post t rp rp' \<longleftrightarrow>
     (\<exists>ir. rp_interval_results rp' = rp_interval_results rp @ [ir] \<and>
        ir_bytes_transferred ir = this_interval t rp \<and>
        ir_interval_start_time ir = (if rp_interval_results rp = [] then rp_start_time rp else rp_end_time rp) \<and>
        ir_interval_end_time ir = rp_end_time rp' \<and>
        ir_interval_duration ir = to_float (timeval_diff (ir_interval_start_time ir) (ir_interval_end_time ir))) \<and>
     rp_bytes_sent_this_interval rp' = 0 \<and> rp_bytes_received_this_interval rp' = 0 \<and>
     rp_bytes_sent rp' = rp_bytes_sent rp \<and> rp_bytes_received rp' = rp_bytes_received rp \<and>
     rp_bytes_sent_omit rp' = rp_bytes_sent_omit rp \<and> rp_start_time rp' = rp_start_time rp"

text \<open>The tests differ at most in their JSON document.\<close>

definition but_json :: "iperf_test \<Rightarrow> iperf_test \<Rightarrow> bool" where
  "but_json t t' \<longleftrightarrow> t'\<lparr>t_json_top := None\<rparr> = t\<lparr>t_json_top := None\<rparr>"

lemma but_json_simps [simp]: "but_json t t" "but_json t (t'\<lparr>t_json_top := j\<rparr>) \<longleftrightarrow> but_json t t'"
  by (simp_all add: but_json_def)

lemma but_json_sel: "but_json t t' \<Longrightarrow> t_sender t' = t_sender t \<and> t_streams t' = t_streams t \<and> t_protocol t' = t_protocol t \<and>
    t_sender_has_retransmits t' = t_sender_has_retransmits t \<and> t_bytes_sent t' = t_bytes_sent t \<and> t_blocks_sent t' = t_blocks_sent t"
  unfolding but_json_def by (cases t; cases t') simp

lemma wp_iperf_err_json:
  "(\<And>s'. strms s' = strms s \<Longrightarrow> but_json (tst s) (tst s') \<Longrightarrow> Q () s') \<Longrightarrow> wp (iperf_err test f a) Q s"
  by (auto simp: iperf_err_def err_text_def fprintf_out_def json_add_def mod_json_def wp_simps)

lemma wp_save_tcpinfo:
  assumes "\<And>s' info. strms s' = strms s \<Longrightarrow> but_json (tst s) (tst s') \<Longrightarrow> Q (irp\<lparr>ir_tcpInfo := info\<rparr>) s'"
  shows "wp (save_tcpinfo sp irp) Q s"
  unfolding save_tcpinfo_def Let_def
  by (auto simp: wp_simps intro!: wp_iperf_err_json assms)

definition timed :: "iperf_test \<Rightarrow> iperf_stream_result \<Rightarrow> timeval \<Rightarrow> iperf_interval_results \<Rightarrow> bool" where
  "timed t rp now ir \<longleftrightarrow> ir_bytes_transferred ir = this_interval t rp \<and>
     ir_interval_start_time ir = (if rp_interval_results rp = [] then rp_start_time rp else rp_end_time rp) \<and>
     ir_interval_end_time ir = now \<and>
     ir_interval_duration ir = to_float (timeval_diff (ir_interval_start_time ir) now)"

lemma timed_intros [simp]:
  "timed t (sp_result st) now (interval_times t (sp_result st) (last_interval st) now temp)"
  "timed t rp now (ir\<lparr>ir_tcpInfo := info\<rparr>) = timed t rp now ir"
  "timed t rp now (interval_retransmits rp2 ir) = timed t rp now ir"
  "timed t rp now (interval_packets st2 p ir) = timed t rp now ir"
proof -
  show "timed t (sp_result st) now (interval_times t (sp_result st) (last_interval st) now temp)"
    by (cases "rp_interval_results (sp_result st)")
      (simp_all add: timed_def interval_times_def this_interval_def last_interval_def Let_def)
qed (simp_all add: timed_def interval_retransmits_def interval_packets_def split: option.split)

definition finish_result :: "iperf_interval_results \<Rightarrow> timeval \<Rightarrow> iperf_stream_result \<Rightarrow> iperf_stream_result" where
  "finish_result ir now rp = (add_to_interval_list ir rp)
     \<lparr>rp_end_time := now, rp_bytes_sent_this_interval := 0, rp_bytes_received_this_interval := 0\<rparr>"

lemma stats_post_finish:
  "timed t rp now ir \<Longrightarrow> stats_post t rp (finish_result ir now rp)"
  "timed t rp now ir \<Longrightarrow> stats_post t rp (finish_result ir now (add_retransmits ir2 rp))"
  by (simp_all add: stats_post_def timed_def finish_result_def add_to_interval_list_def add_retransmits_def)

lemma finish_eqs:
  "sp_result (set_rp (\<lambda>rp. rp\<lparr>rp_bytes_sent_this_interval := 0, rp_bytes_received_this_interval := 0\<rparr>)
     (set_rp (add_to_interval_list ir) (set_rp (\<lambda>rp. rp\<lparr>rp_end_time := now\<rparr>) x))) = finish_result ir now (sp_result x)"
  "sp_result (set_rp (\<lambda>rp. rp\<lparr>rp_bytes_sent_this_interval := 0, rp_bytes_received_this_interval := 0\<rparr>)
     (set_rp (add_to_interval_list ir) (set_rp (add_retransmits ir2) (set_rp (\<lambda>rp. rp\<lparr>rp_end_time := now\<rparr>) x)))) =
   finish_result ir now (add_retransmits ir2 (sp_result x))"
  by (simp_all add: finish_result_def add_to_interval_list_def add_retransmits_def)

lemma stats_stream_wp:
  "wp (stats_stream sp temp) (\<lambda>_ s'. but_json (tst s) (tst s') \<and> (\<forall>q. q \<noteq> sp \<longrightarrow> strms s' q = strms s q) \<and>
     stats_post (tst s) (sp_result (strms s sp)) (sp_result (strms s' sp))) s"
  unfolding stats_stream_def Let_def
  by (simp add: wp_simps del: set_rp_sel(1))
    (intro conjI impI wp_save_tcpinfo, simp_all del: set_rp_sel(1) add: finish_eqs stats_post_finish)

lemma stats_post_cong: "t_sender t' = t_sender t \<Longrightarrow> stats_post t' = stats_post t"
  by (simp add: stats_post_def this_interval_def fun_eq_iff)

lemma stats_streams_wp:
  "distinct sps \<Longrightarrow> wp (stats_streams sps temp) (\<lambda>_ s'. but_json (tst s) (tst s') \<and>
     (\<forall>q. q \<notin> set sps \<longrightarrow> strms s' q = strms s q) \<and>
     (\<forall>q \<in> set sps. stats_post (tst s) (sp_result (strms s q)) (sp_result (strms s' q)))) s"
proof (induction sps arbitrary: s temp)
  case (Cons sp sps)
  have "wp (stats_streams sps temp1) (\<lambda>_ s'. but_json (tst s) (tst s') \<and>
     (\<forall>q. q \<notin> set (sp # sps) \<longrightarrow> strms s' q = strms s q) \<and>
     (\<forall>q \<in> set (sp # sps). stats_post (tst s) (sp_result (strms s q)) (sp_result (strms s' q)))) s1"
    if s1: "but_json (tst s) (tst s1)" "\<forall>q. q \<noteq> sp \<longrightarrow> strms s1 q = strms s q"
      "stats_post (tst s) (sp_result (strms s sp)) (sp_result (strms s1 sp))" for temp1 s1
  proof -
    have c: "stats_post (tst s1) = stats_post (tst s)" using but_json_sel [OF s1(1)] by (intro stats_post_cong) simp
    have sp: "sp \<notin> set sps" using Cons.prems by simp
    show ?thesis
    proof (rule wp_mono [OF Cons.IH])
      show "distinct sps" using Cons.prems by simp
      fix s'
      assume s': "but_json (tst s1) (tst s') \<and> (\<forall>q. q \<notin> set sps \<longrightarrow> strms s' q = strms s1 q) \<and>
        (\<forall>q\<in>set sps. stats_post (tst s1) (sp_result (strms s1 q)) (sp_result (strms s' q)))"
      have "stats_post (tst s) (sp_result (strms s q)) (sp_result (strms s' q))" if "q \<in> set (sp # sps)" for q
        using s' s1 c sp that by (cases "q = sp") auto
      then show "but_json (tst s) (tst s') \<and> (\<forall>q. q \<notin> set (sp # sps) \<longrightarrow> strms s' q = strms s q) \<and>
        (\<forall>q\<in>set (sp # sps). stats_post (tst s) (sp_result (strms s q)) (sp_result (strms s' q)))"
        using s' s1 by (simp add: but_json_def)
    qed
  qed
  then show ?case
    unfolding stats_streams.simps wp_bind by (intro wp_mono [OF stats_stream_wp]) simp
qed (simp add: wp_simps)

text \<open>
  The intervals of a stream follow one another without a gap, the last one ends at \<open>end_time\<close>, and what
  was transferred in them and since adds up to a total.
\<close>

fun contiguous :: "timeval \<Rightarrow> iperf_interval_results list \<Rightarrow> timeval \<Rightarrow> bool" where
  "contiguous a [] b \<longleftrightarrow> a = b"
| "contiguous a (ir # irs) b \<longleftrightarrow> ir_interval_start_time ir = a \<and> contiguous (ir_interval_end_time ir) irs b"

definition intervals_ok :: "timeval \<Rightarrow> iperf_stream_result \<Rightarrow> bool" where
  "intervals_ok start rp \<longleftrightarrow>
     (if rp_interval_results rp = [] then rp_start_time rp = start
      else contiguous start (rp_interval_results rp) (rp_end_time rp))"

definition transferred :: "iperf_test \<Rightarrow> iperf_stream_result \<Rightarrow> int" where
  "transferred t rp = sum_list (map ir_bytes_transferred (rp_interval_results rp)) + this_interval t rp"

lemma contiguous_snoc: "contiguous a (irs @ [ir]) b \<longleftrightarrow> contiguous a irs (ir_interval_start_time ir) \<and> ir_interval_end_time ir = b"
  by (induction a irs b rule: contiguous.induct) auto

lemma stats_post_intervals: "stats_post t rp rp' \<Longrightarrow> intervals_ok start rp \<Longrightarrow> intervals_ok start rp'"
  by (auto simp: stats_post_def intervals_ok_def contiguous_snoc split: if_splits)

lemma stats_post_transferred: "stats_post t rp rp' \<Longrightarrow> transferred t rp' = transferred t rp"
  by (auto simp: stats_post_def transferred_def this_interval_def)

text \<open>
  C2: the records of the intervals. At the end of an interval every stream gets exactly one record
  more; the records follow one another without a gap, each from the end of the one before it, and
  together with what was transferred since the last of them they add up to the same total as before:
  no byte is lost between two intervals or counted twice.
\<close>

theorem intervals_conserved:
  assumes "distinct (t_streams (tst s))"
  shows "case run_state iperf_stats_callback s of (_, s') \<Rightarrow>
    list_all (\<lambda>sp. let rp = sp_result (strms s sp); rp' = sp_result (strms s' sp) in
      length (rp_interval_results rp') = Suc (length (rp_interval_results rp)) \<and>
      (intervals_ok start rp \<longrightarrow> intervals_ok start rp') \<and>
      transferred (tst s) rp' = transferred (tst s) rp \<and>
      this_interval (tst s) rp' = 0 \<and>
      rp_bytes_sent rp' = rp_bytes_sent rp \<and> rp_bytes_received rp' = rp_bytes_received rp) (t_streams (tst s))"
proof -
  have "list_all (\<lambda>sp. let rp = sp_result (strms s sp); rp' = sp_result (strms s' sp) in
      length (rp_interval_results rp') = Suc (length (rp_interval_results rp)) \<and>
      (intervals_ok start rp \<longrightarrow> intervals_ok start rp') \<and>
      transferred (tst s) rp' = transferred (tst s) rp \<and> this_interval (tst s) rp' = 0 \<and>
      rp_bytes_sent rp' = rp_bytes_sent rp \<and> rp_bytes_received rp' = rp_bytes_received rp) (t_streams (tst s))"
    if "\<forall>q \<in> set (t_streams (tst s)). stats_post (tst s) (sp_result (strms s q)) (sp_result (strms s' q))" for s'
    unfolding list_all_iff Let_def
  proof (intro ballI)
    fix sp assume "sp \<in> set (t_streams (tst s))"
    with that have p: "stats_post (tst s) (sp_result (strms s sp)) (sp_result (strms s' sp))" by blast
    show "length (rp_interval_results (sp_result (strms s' sp))) = Suc (length (rp_interval_results (sp_result (strms s sp)))) \<and>
      (intervals_ok start (sp_result (strms s sp)) \<longrightarrow> intervals_ok start (sp_result (strms s' sp))) \<and>
      transferred (tst s) (sp_result (strms s' sp)) = transferred (tst s) (sp_result (strms s sp)) \<and>
      this_interval (tst s) (sp_result (strms s' sp)) = 0 \<and>
      rp_bytes_sent (sp_result (strms s' sp)) = rp_bytes_sent (sp_result (strms s sp)) \<and>
      rp_bytes_received (sp_result (strms s' sp)) = rp_bytes_received (sp_result (strms s sp))"
      using stats_post_intervals [OF p] stats_post_transferred [OF p] p
      by (auto simp: stats_post_def this_interval_def)
  qed
  then show ?thesis
    using stats_streams_wp [OF assms, of "interval0\<lparr>ir_omitted := t_omitting (tst s)\<rparr>" s]
    by (auto simp: wp_def iperf_stats_callback_def split: prod.splits)
qed


section \<open>After the omitted period\<close>

definition reset_post :: "iperf_stream \<Rightarrow> iperf_stream \<Rightarrow> bool" where
  "reset_post x x' \<longleftrightarrow> stream_total x' = 0 \<and> counters x' = counters x \<and>
     (sp_omitted_packet_count x', sp_omitted_cnt_error x', sp_omitted_outoforder_packets x') = counters x \<and>
     rp_bytes_sent_this_interval (sp_result x') = 0 \<and> rp_bytes_received_this_interval (sp_result x') = 0 \<and>
     rp_interval_results (sp_result x') = rp_interval_results (sp_result x)"

lemma reset_stream_wp:
  "wp (reset_stream_stats now sp) (\<lambda>_ s'. but_json (tst s) (tst s') \<and> (\<forall>q. q \<noteq> sp \<longrightarrow> strms s' q = strms s q) \<and>
     reset_post (strms s sp) (strms s' sp)) s"
  unfolding reset_stream_stats_def
  by (auto simp: wp_simps reset_post_def counters_def stream_total_def set_rp_def intro!: wp_save_tcpinfo)

lemma reset_post_twice: "reset_post x y \<Longrightarrow> reset_post y z \<Longrightarrow> reset_post x z"
  by (simp add: reset_post_def)

lemma reset_streams_wp:
  "wp (foreach_m sps (reset_stream_stats now)) (\<lambda>_ s'. but_json (tst s) (tst s') \<and>
     (\<forall>q. q \<notin> set sps \<longrightarrow> strms s' q = strms s q) \<and> (\<forall>q \<in> set sps. reset_post (strms s q) (strms s' q))) s"
proof (induction sps arbitrary: s)
  case (Cons sp sps)
  have "wp (foreach_m sps (reset_stream_stats now)) (\<lambda>_ s'. but_json (tst s) (tst s') \<and>
     (\<forall>q. q \<notin> set (sp # sps) \<longrightarrow> strms s' q = strms s q) \<and> (\<forall>q \<in> set (sp # sps). reset_post (strms s q) (strms s' q))) s1"
    if s1: "but_json (tst s) (tst s1)" "\<forall>q. q \<noteq> sp \<longrightarrow> strms s1 q = strms s q" "reset_post (strms s sp) (strms s1 sp)" for s1
  proof (rule wp_mono [OF Cons.IH])
    fix s'
    assume s': "but_json (tst s1) (tst s') \<and> (\<forall>q. q \<notin> set sps \<longrightarrow> strms s' q = strms s1 q) \<and>
      (\<forall>q \<in> set sps. reset_post (strms s1 q) (strms s' q))"
    have "reset_post (strms s q) (strms s' q)" if "q \<in> set (sp # sps)" for q
      using s' s1 that reset_post_twice by (cases "q = sp"; cases "q \<in> set sps") auto
    then show "but_json (tst s) (tst s') \<and> (\<forall>q. q \<notin> set (sp # sps) \<longrightarrow> strms s' q = strms s q) \<and>
      (\<forall>q \<in> set (sp # sps). reset_post (strms s q) (strms s' q))"
      using s' s1 by (simp add: but_json_def)
  qed
  then show ?case
    unfolding foreach_m.simps wp_bind by (intro wp_mono [OF reset_stream_wp]) simp
qed (simp add: wp_simps)

text \<open>
  The end of the omitted period. Afterwards the test has transferred nothing, every stream's total
  is zero, its counters of datagrams are kept and noted as omitted, the intervals recorded so far stay,
  and the books of the test balance whatever they were before.
\<close>

theorem reset_stats_balances:
  "case run_state iperf_reset_stats s of (_, s') \<Rightarrow>
     t_bytes_sent (tst s') = 0 \<and> t_blocks_sent (tst s') = 0 \<and> t_streams (tst s') = t_streams (tst s) \<and>
     list_all (\<lambda>sp. reset_post (strms s sp) (strms s' sp)) (t_streams (tst s)) \<and> accounted s'"
proof -
  let ?Q = "\<lambda>s'. t_bytes_sent (tst s') = 0 \<and> t_blocks_sent (tst s') = 0 \<and> t_streams (tst s') = t_streams (tst s) \<and>
     list_all (\<lambda>sp. reset_post (strms s sp) (strms s' sp)) (t_streams (tst s)) \<and> accounted s'"
  have post: "?Q s'" if "but_json ((tst s)\<lparr>t_bytes_sent := 0, t_blocks_sent := 0\<rparr>) (tst s')"
    "\<forall>q \<in> set (t_streams (tst s)). reset_post (strms s q) (strms s' q)" for s'
  proof -
    have "t_bytes_sent (tst s') = 0" "t_blocks_sent (tst s') = 0" "t_streams (tst s') = t_streams (tst s)"
      using but_json_sel [OF that(1)] by simp_all
    then show ?thesis using that(2) by (simp add: accounted_def owed_def reset_post_def u64_def list_all_iff)
  qed
  have "wp iperf_reset_stats (\<lambda>_. ?Q) s"
    unfolding iperf_reset_stats_def
    by (simp add: wp_simps split_beta) (intro wp_mono [OF reset_streams_wp] post; simp)
  then show ?thesis by (simp add: wp_def split: prod.splits)
qed

section \<open>An instance\<close>

theorem intervals_conserved_witness:
  "\<exists>s s'. t_streams (tst s) = [3] \<and> run_state iperf_stats_callback s = ((), s') \<and>
     length (rp_interval_results (sp_result (strms s' 3))) = 1"
proof -
  define s where "s = (ex_state (\<lambda>_. SysRet 0 0 [] []) (test0\<lparr>t_streams := [3]\<rparr>))\<lparr>strms := \<lambda>_. stream0\<rparr>"
  obtain s' where s': "run_state iperf_stats_callback s = ((), s')"
    by (cases "run_state iperf_stats_callback s") simp
  have st: "t_streams (tst s) = [3]" by (simp add: s_def ex_state_def)
  have "length (rp_interval_results (sp_result (strms s' 3))) = 1"
    using intervals_conserved [of s] s' st by (simp add: Let_def s_def ex_state_def stream0_def result0_def)
  with st s' show ?thesis by blast
qed

end
