(* ===== verification/Report.thy ===== *)
theory Report
  imports Stats
begin

text \<open>
  The reports of a test (\<open>iperf_reporter_callback\<close> and the functions it calls, \<open>iperf_api.c\<close>): the line,
  the JSON object and the Java callback for every stream in an interval, for the sum over the
  streams, and for the whole test. \<open>json_interval\<close> is the last item of the document's intervals, and
  \<open>json_summary_streams\<close> the last of its end. Arguments of \<open>%u\<close> conversions are unsigned.
\<close>

section \<open>Parts the reports share\<close>

definition UNIT_LEN :: nat where "UNIT_LEN = 32"
definition STREAM_RUNNING :: int where "STREAM_RUNNING = 6"
definition Psctp :: int where "Psctp = 12"

definition report_datagrams :: string where
  "report_datagrams = ''[%3d] Sent %d datagrams'' @ nl"

text \<open>\<open>unit_snprintf\<close> into a buffer of its own; past the end of its tables it prints what is there.\<close>

definition unit_text :: "double \<Rightarrow> char \<Rightarrow> string iperf_m" where
  "unit_text x f = (case unit_snprintf UNIT_LEN x f of
      Some t \<Rightarrow> ret t
    | None \<Rightarrow> do { u \<leftarrow> syscall (SUninit UNIT_LEN); ret (take (UNIT_LEN - 1) (c_str (sr_data u))) })"

definition tcp_like :: "iperf_test \<Rightarrow> bool" where
  "tcp_like t \<longleftrightarrow> protocol_id_is t Ptcp \<or> protocol_id_is t Psctp"

definition bits :: "double \<Rightarrow> double" where
  "bits bandwidth = d_mul bandwidth (Fin 8)"

definition omitted_text :: "int \<Rightarrow> parg" where
  "omitted_text omitted = PStr (if omitted \<noteq> 0 then report_omitted else [])"

definition lost_percent :: "int \<Rightarrow> int \<Rightarrow> double" where
  "lost_percent lost packets =
     (if 0 < packets then d_div (d_mul (Fin 100) (d_of_int lost)) (d_of_int packets) else Fin 0)"

text \<open>\<open>on_interval_java\<close> and \<open>on_result_java\<close>, both by way of \<open>on_report_bandwidth\<close>.\<close>

definition on_report_bandwidth :: "string \<Rightarrow> double \<Rightarrow> double \<Rightarrow> string \<Rightarrow> string \<Rightarrow> unit iperf_m" where
  "on_report_bandwidth mth start finish send_bytes band_width = do {
     reverse \<leftarrow> get_t t_reverse;
     jni_call mth [send_bytes, band_width] [reverse] [start, finish] }"

definition on_interval :: "double \<Rightarrow> double \<Rightarrow> string \<Rightarrow> string \<Rightarrow> unit iperf_m" where
  "on_interval st et ubuf nbuf = on_report_bandwidth ''onInterval'' (to_float st) (to_float et) ubuf nbuf"

definition on_result :: "double \<Rightarrow> double \<Rightarrow> string \<Rightarrow> string \<Rightarrow> unit iperf_m" where
  "on_result st et ubuf nbuf = on_report_bandwidth ''onResult'' (to_float st) (to_float et) ubuf nbuf"

text \<open>Changing the last child of an item.\<close>

definition upd_last :: "(cJSON \<Rightarrow> cJSON) \<Rightarrow> cJSON \<Rightarrow> cJSON" where
  "upd_last f j = cj_set_child (case cj_child j of [] \<Rightarrow> [] | cs \<Rightarrow> butlast cs @ [f (last cs)]) j"

section \<open>A stream in an interval\<close>

definition interval_header :: "iperf_test \<Rightarrow> nat \<Rightarrow> iperf_stream \<Rightarrow> iperf_interval_results \<Rightarrow> unit iperf_m" where
  "interval_header t sp st irp =
     when_m (t_json_output t = 0 \<and> t_streams t \<noteq> [] \<and> sp = hd (t_streams t))
       (if timeval_equals (rp_start_time (sp_result st)) (ir_interval_start_time irp) \<noteq> 0 then
          (if tcp_like t then
             iprintf ''%s'' [PStr (if retransmits_known t then report_bw_retrans_cwnd_header else report_bw_header)]
           else
             iprintf ''%s'' [PStr (if t_sender t \<noteq> 0 then report_bw_udp_sender_header else report_bw_udp_header)])
        else when_m (1 < t_num_streams t) (iprintf ''%s'' [PStr report_bw_separator]))"

definition interval_json :: "iperf_test \<Rightarrow> iperf_stream \<Rightarrow> iperf_interval_results \<Rightarrow> double \<Rightarrow> double \<Rightarrow> double \<Rightarrow> cJSON option" where
  "interval_json t st irp start finish bandwidth =
     (let common = [JInt (sp_socket st), JFloat start, JFloat finish, JFloat (ir_interval_duration irp),
            JInt (i64 (ir_bytes_transferred irp)), JFloat (bits bandwidth)]
      in if tcp_like t then
           (if retransmits_known t then
              iperf_json_printf ''socket: %d  start: %f  end: %f  seconds: %f  bytes: %d  bits_per_second: %f  retransmits: %d  snd_cwnd:  %d  rtt:  %d  omitted: %b''
                (common @ [JInt (ir_interval_retrans irp), JInt (ir_snd_cwnd irp), JInt (ir_rtt irp), JBool (ir_omitted irp)])
            else
              iperf_json_printf ''socket: %d  start: %f  end: %f  seconds: %f  bytes: %d  bits_per_second: %f  omitted: %b''
                (common @ [JBool (ir_omitted irp)]))
         else if t_sender t \<noteq> 0 then
           iperf_json_printf ''socket: %d  start: %f  end: %f  seconds: %f  bytes: %d  bits_per_second: %f  packets: %d  omitted: %b''
             (common @ [JInt (ir_interval_packet_count irp), JBool (ir_omitted irp)])
         else
           iperf_json_printf ''socket: %d  start: %f  end: %f  seconds: %f  bytes: %d  bits_per_second: %f  jitter_ms: %f  lost_packets: %d  packets: %d  lost_percent: %f  omitted: %b''
             (common @ [JFloat (d_mul (ir_jitter irp) (Fin 1000)), JInt (ir_interval_cnt_error irp),
                JInt (ir_interval_packet_count irp),
                JFloat (lost_percent (ir_interval_cnt_error irp) (ir_interval_packet_count irp)), JBool (ir_omitted irp)]))"

definition interval_line :: "iperf_test \<Rightarrow> iperf_stream \<Rightarrow> iperf_interval_results \<Rightarrow> double \<Rightarrow> double \<Rightarrow> string \<Rightarrow> string \<Rightarrow> unit iperf_m" where
  "interval_line t st irp start finish ubuf nbuf = do {
     let common = [PInt (sp_socket st), PDbl start, PDbl finish, PStr ubuf, PStr nbuf];
     let omitted = omitted_text (ir_omitted irp);
     if tcp_like t \<and> retransmits_known t then do {
       cbuf \<leftarrow> unit_text (d_of_int (ir_snd_cwnd irp)) CHR ''A'';
       when_m (t_num_streams t = 1) (on_interval start finish ubuf nbuf);
       iprintf report_bw_retrans_cwnd_format (common @ [PInt (u32 (ir_interval_retrans irp)), PStr cbuf, omitted]) }
     else do {
       when_m (t_num_streams t = 1) (on_interval start finish ubuf nbuf);
       if tcp_like t then iprintf report_bw_format (common @ [omitted])
       else if t_sender t \<noteq> 0 then
         iprintf report_bw_udp_sender_format (common @ [PInt (ir_interval_packet_count irp), omitted])
       else
         iprintf report_bw_udp_format (common @ [PDbl (d_mul (ir_jitter irp) (Fin 1000)),
           PInt (ir_interval_cnt_error irp), PInt (ir_interval_packet_count irp),
           PDbl (lost_percent (ir_interval_cnt_error irp) (ir_interval_packet_count irp)), omitted]) } }"

definition print_interval_results :: "nat \<Rightarrow> unit iperf_m" where
  "print_interval_results sp = do {
     t \<leftarrow> get_t id;
     st \<leftarrow> get_sp sp id;
     case last_interval st of
       None \<Rightarrow> iperf_err True ''print_interval_results error: interval_results is NULL'' []
     | Some irp \<Rightarrow> do {
         interval_header t sp st irp;
         ubuf \<leftarrow> unit_text (d_of_int (ir_bytes_transferred irp)) CHR ''A'';
         let bandwidth = d_div (d_of_int (ir_bytes_transferred irp)) (ir_interval_duration irp);
         nbuf \<leftarrow> unit_text bandwidth (st_unit_format (t_settings t));
         let start = timeval_diff (rp_start_time (sp_result st)) (ir_interval_start_time irp);
         let finish = timeval_diff (rp_start_time (sp_result st)) (ir_interval_end_time irp);
         (if t_json_output t \<noteq> 0 then
            mod_json json_intervals (upd_last (upd_path [''streams'']
              (\<lambda>a. cJSON_AddItemToArray a (interval_json t st irp start finish bandwidth))))
          else interval_line t st irp start finish ubuf nbuf);
         when_m (t_logfile t \<noteq> None) iflush } }"

section \<open>All streams in an interval\<close>

record interval_sum =
  is_bytes :: int
  is_retransmits :: int
  is_packets :: int
  is_lost :: int
  is_jitter :: double

definition interval_sum0 :: interval_sum where
  "interval_sum0 = \<lparr>is_bytes = 0, is_retransmits = 0, is_packets = 0, is_lost = 0, is_jitter = Fin 0\<rparr>"

definition add_interval :: "iperf_test \<Rightarrow> iperf_interval_results \<Rightarrow> interval_sum \<Rightarrow> interval_sum" where
  "add_interval t irp x =
     (let y = x\<lparr>is_bytes := u64 (is_bytes x + ir_bytes_transferred irp)\<rparr>
      in if protocol_id_is t Ptcp then
           (if retransmits_known t then y\<lparr>is_retransmits := i32 (is_retransmits y + ir_interval_retrans irp)\<rparr> else y)
         else y\<lparr>is_packets := i32 (is_packets y + ir_interval_packet_count irp),
                is_lost := i32 (is_lost y + ir_interval_cnt_error irp),
                is_jitter := d_add (is_jitter y) (ir_jitter irp)\<rparr>)"

text \<open>Without an interval the function returns.\<close>

fun sum_intervals :: "nat list \<Rightarrow> interval_sum \<Rightarrow> interval_sum option iperf_m" where
  "sum_intervals [] x = ret (Some x)"
| "sum_intervals (sp # sps) x = do {
     print_interval_results sp;
     t \<leftarrow> get_t id;
     st \<leftarrow> get_sp sp id;
     case last_interval st of
       None \<Rightarrow> do { iperf_err True ''iperf_print_intermediate error: interval_results is NULL'' []; ret None }
     | Some irp \<Rightarrow> sum_intervals sps (add_interval t irp x) }"

definition mean_jitter :: "iperf_test \<Rightarrow> double \<Rightarrow> double" where
  "mean_jitter t x = d_div x (d_of_int (t_num_streams t))"

definition interval_sum_json :: "iperf_test \<Rightarrow> interval_sum \<Rightarrow> iperf_interval_results \<Rightarrow> double \<Rightarrow> double \<Rightarrow> double \<Rightarrow> cJSON option" where
  "interval_sum_json t x irp start finish bandwidth =
     (let common = [JFloat start, JFloat finish, JFloat (ir_interval_duration irp), JInt (i64 (is_bytes x)), JFloat (bits bandwidth)]
      in if tcp_like t then
           (if retransmits_known t then
              iperf_json_printf ''start: %f  end: %f  seconds: %f  bytes: %d  bits_per_second: %f  retransmits: %d  omitted: %b''
                (common @ [JInt (is_retransmits x), JBool (ir_omitted irp)])
            else
              iperf_json_printf ''start: %f  end: %f  seconds: %f  bytes: %d  bits_per_second: %f  omitted: %b''
                (common @ [JBool (t_omitting t)]))
         else if t_sender t \<noteq> 0 then
           iperf_json_printf ''start: %f  end: %f  seconds: %f  bytes: %d  bits_per_second: %f  packets: %d  omitted: %b''
             (common @ [JInt (is_packets x), JBool (t_omitting t)])
         else
           iperf_json_printf ''start: %f  end: %f  seconds: %f  bytes: %d  bits_per_second: %f  jitter_ms: %f  lost_packets: %d  packets: %d  lost_percent: %f  omitted: %b''
             (common @ [JFloat (d_mul (mean_jitter t (is_jitter x)) (Fin 1000)), JInt (is_lost x), JInt (is_packets x),
                JFloat (lost_percent (is_lost x) (is_packets x)), JBool (t_omitting t)]))"

definition interval_sum_line :: "iperf_test \<Rightarrow> interval_sum \<Rightarrow> iperf_interval_results \<Rightarrow> double \<Rightarrow> double \<Rightarrow> string \<Rightarrow> string \<Rightarrow> unit iperf_m" where
  "interval_sum_line t x irp start finish ubuf nbuf = do {
     let common = [PDbl start, PDbl finish, PStr ubuf, PStr nbuf];
     let omitting = omitted_text (t_omitting t);
     on_interval start finish ubuf nbuf;
     if tcp_like t then
       (if retransmits_known t then
          iprintf report_sum_bw_retrans_format (common @ [PInt (is_retransmits x), omitted_text (ir_omitted irp)])
        else iprintf report_sum_bw_format (common @ [omitting]))
     else if t_sender t \<noteq> 0 then
       iprintf report_sum_bw_udp_sender_format (common @ [PInt (is_packets x), omitting])
     else
       iprintf report_sum_bw_udp_format (common @ [PDbl (d_mul (mean_jitter t (is_jitter x)) (Fin 1000)),
         PInt (is_lost x), PInt (is_packets x), PDbl (lost_percent (is_lost x) (is_packets x)), omitting]) }"

text \<open>The first stream, which has an interval here, gives the times.\<close>

definition print_interval_sum :: "interval_sum \<Rightarrow> unit iperf_m" where
  "print_interval_sum x = do {
     t \<leftarrow> get_t id;
     case t_streams t of
       [] \<Rightarrow> skip_m
     | sp # _ \<Rightarrow> do {
         st \<leftarrow> get_sp sp id;
         case last_interval st of
           None \<Rightarrow> sys_do (SCrash ''irp'')
         | Some irp \<Rightarrow> do {
             ubuf \<leftarrow> unit_text (d_of_int (is_bytes x)) CHR ''A'';
             let bandwidth = d_div (d_of_int (is_bytes x)) (ir_interval_duration irp);
             nbuf \<leftarrow> unit_text bandwidth (st_unit_format (t_settings t));
             let start = timeval_diff (rp_start_time (sp_result st)) (ir_interval_start_time irp);
             let finish = timeval_diff (rp_start_time (sp_result st)) (ir_interval_end_time irp);
             if t_json_output t \<noteq> 0 then
               mod_json json_intervals (upd_last (\<lambda>j. cJSON_AddItemToObject j ''sum''
                 (interval_sum_json t x irp start finish bandwidth)))
             else interval_sum_line t x irp start finish ubuf nbuf } } }"

definition iperf_print_intermediate :: "unit iperf_m" where
  "iperf_print_intermediate = do {
     t \<leftarrow> get_t id;
     when_m (t_json_output t \<noteq> 0) (do {
       mod_json json_intervals (\<lambda>j. cJSON_AddItemToArray j (Some cJSON_CreateObject));
       mod_json json_intervals (upd_last (\<lambda>j. cJSON_AddItemToObject j ''streams'' (Some cJSON_CreateArray))) });
     r \<leftarrow> sum_intervals (t_streams t) interval_sum0;
     case r of
       None \<Rightarrow> skip_m
     | Some x \<Rightarrow> when_m (1 < t_num_streams t \<or> t_json_output t \<noteq> 0) (print_interval_sum x) }"

section \<open>A stream at the end\<close>

record result_sum =
  rs_retransmits :: int
  rs_packets :: int
  rs_lost :: int
  rs_sent :: int
  rs_received :: int
  rs_jitter :: double

definition result_sum0 :: result_sum where
  "result_sum0 = \<lparr>rs_retransmits = 0, rs_packets = 0, rs_lost = 0, rs_sent = 0, rs_received = 0, rs_jitter = Fin 0\<rparr>"

definition stream_sent :: "iperf_stream \<Rightarrow> int" where
  "stream_sent st = u64 (rp_bytes_sent (sp_result st) - rp_bytes_sent_omit (sp_result st))"

definition stream_packets :: "iperf_stream \<Rightarrow> int" where
  "stream_packets st = i32 (sp_packet_count st - sp_omitted_packet_count st)"

definition stream_lost :: "iperf_stream \<Rightarrow> int" where
  "stream_lost st = i32 (sp_cnt_error st - sp_omitted_cnt_error st)"

definition stream_outoforder :: "iperf_stream \<Rightarrow> int" where
  "stream_outoforder st = i32 (sp_outoforder_packets st - sp_omitted_outoforder_packets st)"

definition add_result :: "iperf_test \<Rightarrow> iperf_stream \<Rightarrow> result_sum \<Rightarrow> result_sum" where
  "add_result t st x =
     (let y = x\<lparr>rs_sent := u64 (rs_sent x + stream_sent st),
                rs_received := u64 (rs_received x + rp_bytes_received (sp_result st))\<rparr>
      in if tcp_like t then
           (if t_sender_has_retransmits t \<noteq> 0
            then y\<lparr>rs_retransmits := i32 (rs_retransmits y + rp_stream_retrans (sp_result st))\<rparr> else y)
         else y\<lparr>rs_packets := i32 (rs_packets y + stream_packets st),
                rs_lost := i32 (rs_lost y + stream_lost st),
                rs_jitter := d_add (rs_jitter y) (sp_jitter st)\<rparr>)"

text \<open>Adding to the object of the current stream, \<open>json_summary_stream\<close>.\<close>

definition summary_add :: "string \<Rightarrow> cJSON option \<Rightarrow> unit iperf_m" where
  "summary_add nm item = mod_json json_end (upd_last (upd_last (\<lambda>o1. cJSON_AddItemToObject o1 nm item)))"

definition mean_rtt :: "iperf_stream_result \<Rightarrow> int" where
  "mean_rtt rp = (if rp_stream_count_rtt rp = 0 then 0 else c_div (rp_stream_sum_rtt rp) (rp_stream_count_rtt rp))"

definition sent_json :: "iperf_test \<Rightarrow> iperf_stream \<Rightarrow> double \<Rightarrow> double \<Rightarrow> cJSON option" where
  "sent_json t st end_time bandwidth =
     (let rp = sp_result st;
          common = [JInt (sp_socket st), JFloat (Fin 0), JFloat end_time, JFloat end_time,
            JInt (i64 (stream_sent st)), JFloat (bits bandwidth)]
      in if tcp_like t then
           (if t_sender_has_retransmits t \<noteq> 0 then
              iperf_json_printf ''socket: %d  start: %f  end: %f  seconds: %f  bytes: %d  bits_per_second: %f  retransmits: %d  max_snd_cwnd:  %d  max_rtt:  %d  min_rtt:  %d  mean_rtt:  %d''
                (common @ [JInt (rp_stream_retrans rp), JInt (rp_stream_max_snd_cwnd rp), JInt (rp_stream_max_rtt rp),
                   JInt (rp_stream_min_rtt rp), JInt (mean_rtt rp)])
            else
              iperf_json_printf ''socket: %d  start: %f  end: %f  seconds: %f  bytes: %d  bits_per_second: %f'' common)
         else
           iperf_json_printf ''socket: %d  start: %f  end: %f  seconds: %f  bytes: %d  bits_per_second: %f  jitter_ms: %f  lost_packets: %d  packets: %d  lost_percent: %f  out_of_order: %d''
             (common @ [JFloat (d_mul (sp_jitter st) (Fin 1000)), JInt (stream_lost st), JInt (stream_packets st),
                JFloat (lost_percent (stream_lost st) (stream_packets st)), JInt (stream_outoforder st)]))"

definition sent_line :: "iperf_test \<Rightarrow> iperf_stream \<Rightarrow> double \<Rightarrow> string \<Rightarrow> string \<Rightarrow> unit iperf_m" where
  "sent_line t st end_time ubuf nbuf = do {
     let common = [PInt (sp_socket st), PDbl (Fin 0), PDbl end_time, PStr ubuf, PStr nbuf];
     if tcp_like t then
       (if t_sender_has_retransmits t \<noteq> 0 then do {
          when_m (t_num_streams t = 1) (on_result (Fin 0) end_time ubuf nbuf);
          iprintf report_bw_retrans_format (common @ [PInt (u32 (rp_stream_retrans (sp_result st))), PStr report_sender]) }
        else do {
          when_m (t_reverse t = 0 \<and> t_num_streams t = 1) (on_result (Fin 0) end_time ubuf nbuf);
          iprintf report_bw_format (common @ [PStr report_sender]) })
     else do {
       when_m (t_reverse t = 0 \<and> t_num_streams t = 1) (on_result (Fin 0) end_time ubuf nbuf);
       iprintf report_bw_udp_format (common @ [PDbl (d_mul (sp_jitter st) (Fin 1000)), PInt (stream_lost st),
         PInt (stream_packets st), PDbl (lost_percent (stream_lost st) (stream_packets st)), PStr []]);
       when_m (t_role t = CHR ''c'') (iprintf report_datagrams [PInt (sp_socket st), PInt (stream_packets st)]);
       when_m (0 < stream_outoforder st)
         (iprintf report_sum_outoforder [PDbl (Fin 0), PDbl end_time, PInt (stream_outoforder st)]) } }"

definition diskfile_summary :: "iperf_test \<Rightarrow> iperf_stream \<Rightarrow> string \<Rightarrow> unit iperf_m" where
  "diskfile_summary t st ubuf =
     when_m (0 \<le> sp_diskfile_fd st) (do {
       sb \<leftarrow> syscall (SFstat (sp_diskfile_fd st));
       when_m (sr_val sb = 0) (do {
         let st_size = nth_int (sr_ints sb) 0;
         let percent = d_to_i32 (d_mul (d_div (d_of_int (stream_sent st)) (d_of_int st_size)) (Fin 100));
         let name = (case t_diskfile_name t of None \<Rightarrow> ''(null)'' | Some f \<Rightarrow> f);
         sbuf \<leftarrow> unit_text (d_of_int st_size) CHR ''A'';
         if t_json_output t \<noteq> 0 then
           summary_add ''diskfile'' (iperf_json_printf ''sent: %d  size: %d  percent: %d  filename: %s''
             [JInt (i64 (stream_sent st)), JInt st_size, JInt percent, JString name])
         else iprintf report_diskfile [PStr ubuf, PStr sbuf, PInt percent, PStr name] }) })"

definition received_json :: "iperf_stream \<Rightarrow> double \<Rightarrow> double \<Rightarrow> cJSON option" where
  "received_json st end_time bandwidth =
     iperf_json_printf ''socket: %d  start: %f  end: %f  seconds: %f  bytes: %d  bits_per_second: %f''
       [JInt (sp_socket st), JFloat (Fin 0), JFloat end_time, JFloat end_time,
        JInt (i64 (rp_bytes_received (sp_result st))), JFloat (bits bandwidth)]"

definition stream_summary :: "double \<Rightarrow> nat \<Rightarrow> unit iperf_m" where
  "stream_summary end_time sp = do {
     t \<leftarrow> get_t id;
     st \<leftarrow> get_sp sp id;
     when_m (t_json_output t \<noteq> 0)
       (mod_json json_end (upd_last (\<lambda>a. cJSON_AddItemToArray a (Some cJSON_CreateObject))));
     ubuf \<leftarrow> unit_text (d_of_int (stream_sent st)) CHR ''A'';
     let bandwidth = d_div (d_of_int (stream_sent st)) end_time;
     nbuf \<leftarrow> unit_text bandwidth (st_unit_format (t_settings t));
     (if t_json_output t \<noteq> 0 then
        summary_add (if tcp_like t then ''sender'' else ''udp'') (sent_json t st end_time bandwidth)
      else sent_line t st end_time ubuf nbuf);
     diskfile_summary t st ubuf;
     let received = rp_bytes_received (sp_result st);
     ubuf2 \<leftarrow> unit_text (d_of_int received) CHR ''A'';
     let bandwidth2 = d_div (d_of_int received) end_time;
     nbuf2 \<leftarrow> unit_text bandwidth2 (st_unit_format (t_settings t));
     when_m (tcp_like t)
       (if t_json_output t \<noteq> 0 then summary_add ''receiver'' (received_json st end_time bandwidth2)
        else do {
          when_m (t_reverse t \<noteq> 0 \<and> t_num_streams t = 1) (on_result (Fin 0) end_time ubuf2 nbuf2);
          iprintf report_bw_format [PInt (sp_socket st), PDbl (Fin 0), PDbl end_time, PStr ubuf2, PStr nbuf2,
            PStr report_receiver] }) }"

fun stream_summaries :: "double \<Rightarrow> nat list \<Rightarrow> result_sum \<Rightarrow> result_sum iperf_m" where
  "stream_summaries end_time [] x = ret x"
| "stream_summaries end_time (sp # sps) x = do {
     t \<leftarrow> get_t id;
     st \<leftarrow> get_sp sp id;
     stream_summary end_time sp;
     stream_summaries end_time sps (add_result t st x) }"

section \<open>The whole test\<close>

definition bandwidth_of :: "int \<Rightarrow> double \<Rightarrow> double" where
  "bandwidth_of amount end_time = (if d_lt (Fin 0) end_time then d_div (d_of_int amount) end_time else Fin 0)"

definition sum_json :: "int \<Rightarrow> double \<Rightarrow> double \<Rightarrow> (string \<times> jarg) list \<Rightarrow> cJSON option" where
  "sum_json amount end_time bandwidth rest =
     iperf_json_printf
       (''start: %f  end: %f  seconds: %f  bytes: %d  bits_per_second: %f'' @ concat (map fst rest))
       ([JFloat (Fin 0), JFloat end_time, JFloat end_time, JInt (i64 amount), JFloat (bits bandwidth)] @ map snd rest)"

definition sum_tcp :: "iperf_test \<Rightarrow> result_sum \<Rightarrow> double \<Rightarrow> unit iperf_m" where
  "sum_tcp t x end_time = do {
     let js = t_json_output t \<noteq> 0;
     ubuf \<leftarrow> unit_text (d_of_int (rs_sent x)) CHR ''A'';
     let bandwidth = bandwidth_of (rs_sent x) end_time;
     nbuf \<leftarrow> unit_text bandwidth (st_unit_format (t_settings t));
     (if js then json_add json_end ''sum_sent'' (sum_json (rs_sent x) end_time bandwidth
          (if t_sender_has_retransmits t \<noteq> 0 then [(''  retransmits: %d'', JInt (rs_retransmits x))] else []))
      else do {
        when_m (t_reverse t = 0) (on_result (Fin 0) end_time ubuf nbuf);
        if t_sender_has_retransmits t \<noteq> 0 then
          iprintf report_sum_bw_retrans_format [PDbl (Fin 0), PDbl end_time, PStr ubuf, PStr nbuf,
            PInt (rs_retransmits x), PStr report_sender]
        else iprintf report_sum_bw_format [PDbl (Fin 0), PDbl end_time, PStr ubuf, PStr nbuf, PStr report_sender] });
     ubuf2 \<leftarrow> unit_text (d_of_int (rs_received x)) CHR ''A'';
     let bandwidth2 = bandwidth_of (rs_received x) end_time;
     nbuf2 \<leftarrow> unit_text bandwidth2 (st_unit_format (t_settings t));
     if js then json_add json_end ''sum_received'' (sum_json (rs_received x) end_time bandwidth2 [])
     else do {
       when_m (t_reverse t \<noteq> 0) (on_result (Fin 0) end_time ubuf2 nbuf2);
       iprintf report_sum_bw_format [PDbl (Fin 0), PDbl end_time, PStr ubuf2, PStr nbuf2, PStr report_receiver] } }"

definition sum_udp :: "iperf_test \<Rightarrow> result_sum \<Rightarrow> double \<Rightarrow> unit iperf_m" where
  "sum_udp t x end_time = do {
     ubuf \<leftarrow> unit_text (d_of_int (rs_sent x)) CHR ''A'';
     let bandwidth = bandwidth_of (rs_sent x) end_time;
     nbuf \<leftarrow> unit_text bandwidth (st_unit_format (t_settings t));
     let jitter = d_mul (mean_jitter t (rs_jitter x)) (Fin 1000);
     let percent = lost_percent (rs_lost x) (rs_packets x);
     if t_json_output t \<noteq> 0 then json_add json_end ''sum'' (sum_json (rs_sent x) end_time bandwidth
       [(''  jitter_ms: %f'', JFloat jitter), (''  lost_packets: %d'', JInt (rs_lost x)),
        (''  packets: %d'', JInt (rs_packets x)), (''  lost_percent: %f'', JFloat percent)])
     else do {
       when_m (t_reverse t = 0) (on_result (Fin 0) end_time ubuf nbuf);
       iprintf report_sum_bw_udp_format [PDbl (Fin 0), PDbl end_time, PStr ubuf, PStr nbuf, PDbl jitter,
         PInt (rs_lost x), PInt (rs_packets x), PDbl percent, PStr []] } }"

definition cpu_report :: "iperf_test \<Rightarrow> unit iperf_m" where
  "cpu_report t =
     (let (c0, c1, c2) = t_cpu_util t; (r0, r1, r2) = t_remote_cpu_util t in
      if t_json_output t \<noteq> 0 then
        json_add json_end ''cpu_utilization_percent''
          (iperf_json_printf ''host_total: %f  host_user: %f  host_system: %f  remote_total: %f  remote_user: %f  remote_system: %f''
            [JFloat c0, JFloat c1, JFloat c2, JFloat r0, JFloat r1, JFloat r2])
      else when_m (t_verbose t \<noteq> 0)
        (iprintf report_cpu
          [PStr report_local, PStr (if t_sender t \<noteq> 0 then report_sender else report_receiver), PDbl c0, PDbl c1, PDbl c2,
           PStr report_remote, PStr (if t_sender t \<noteq> 0 then report_receiver else report_sender), PDbl r0, PDbl r1, PDbl r2]))"

definition print_server_output :: "unit iperf_m" where
  "print_server_output = do {
     t \<leftarrow> get_t id;
     when_m (t_json_output t = 0 \<and> t_role t = CHR ''c'' \<and> iperf_get_test_get_server_output t \<noteq> 0) (do {
       (case t_json_server_output t of
          None \<Rightarrow> skip_m
        | Some j \<Rightarrow> do {
            iprintf (nl @ ''Server JSON output:'' @ nl @ ''%s'' @ nl)
              [PStr (case cJSON_Print j of None \<Rightarrow> ''(null)'' | Some x \<Rightarrow> x)];
            mod_t (\<lambda>t. t\<lparr>t_json_server_output := None\<rparr>) });
       (case t_server_output_text t of
          None \<Rightarrow> skip_m
        | Some x \<Rightarrow> do {
            iprintf (nl @ ''Server output:'' @ nl @ ''%s'' @ nl) [PStr x];
            mod_t (\<lambda>t. t\<lparr>t_server_output_text := None\<rparr>) }) }) }"

definition results_header :: "iperf_test \<Rightarrow> unit iperf_m" where
  "results_header t =
     (if t_json_output t \<noteq> 0 then json_add json_end ''streams'' (Some cJSON_CreateArray)
      else do {
        iprintf ''%s'' [PStr report_bw_separator];
        when_m (t_verbose t \<noteq> 0) (iprintf ''%s'' [PStr report_summary]);
        iprintf ''%s'' [PStr (if tcp_like t then
          (if t_sender_has_retransmits t \<noteq> 0 then report_bw_retrans_header else report_bw_header)
          else report_bw_udp_header)] })"

text \<open>
  Without a stream \<open>end_time\<close> is not assigned, and is read all the same when there are to be several
  streams or in JSON mode: the quotient of the environment's first two numbers, or NaN.
\<close>

definition uninit_double :: "sysret \<Rightarrow> double" where
  "uninit_double u = d_div (d_of_int (nth_int (sr_ints u) 0)) (d_of_int (nth_int (sr_ints u) 1))"

definition results_end_time :: "double iperf_m" where
  "results_end_time = do {
     sps \<leftarrow> get_t t_streams;
     case sps of
       [] \<Rightarrow> do { u \<leftarrow> syscall (SUninit 8); ret (uninit_double u) }
     | sp # _ \<Rightarrow> get_sp sp (\<lambda>st. timeval_diff (rp_start_time (sp_result st)) (rp_end_time (sp_result st))) }"

definition iperf_print_results :: "unit iperf_m" where
  "iperf_print_results = do {
     t \<leftarrow> get_t id;
     results_header t;
     end_time \<leftarrow> results_end_time;
     x \<leftarrow> stream_summaries end_time (t_streams t) result_sum0;
     when_m (1 < t_num_streams t \<or> t_json_output t \<noteq> 0)
       (if tcp_like t then sum_tcp t x end_time else sum_udp t x end_time);
     cpu_report t;
     print_server_output }"

definition iperf_reporter_callback :: "unit iperf_m" where
  "iperf_reporter_callback = do {
     state \<leftarrow> get_t t_state;
     if state = TEST_RUNNING \<or> state = STREAM_RUNNING then iperf_print_intermediate
     else if state = TEST_END \<or> state = DISPLAY_RESULTS then do {
       iperf_print_intermediate;
       iperf_print_results }
     else skip_m }"

end
