(* ===== verification/Callbacks.thy ===== *)
theory Callbacks
  imports Report
begin

text \<open>
  The timers of a test (\<open>iperf_client_api.c\<close>, \<open>iperf_server_api.c\<close>): the procedures that run when one
  expires, and the functions that create them. \<open>run_timer_proc\<close> is the call of a timer's procedure
  in \<open>tmr_run\<close>; procedures of the test get no client data.
\<close>

section \<open>Procedures\<close>

definition test_timer_proc :: "unit iperf_m" where
  "test_timer_proc = mod_t (\<lambda>t. t\<lparr>t_timer := None, t_done := 1\<rparr>)"

definition stats_timer_proc :: "unit iperf_m" where
  "stats_timer_proc = do {
     t \<leftarrow> get_t id;
     when_m (t_done t = 0 \<and> t_stats_callback t) iperf_stats_callback }"

definition reporter_timer_proc :: "unit iperf_m" where
  "reporter_timer_proc = do {
     t \<leftarrow> get_t id;
     when_m (t_done t = 0 \<and> t_reporter_callback t) iperf_reporter_callback }"

text \<open>\<open>client_omit_timer_proc\<close> and \<open>server_omit_timer_proc\<close>, which are the same.\<close>

definition omit_timer_proc :: "timeval \<Rightarrow> unit iperf_m" where
  "omit_timer_proc nowP = do {
     mod_t (\<lambda>t. t\<lparr>t_omit_timer := None, t_omitting := 0\<rparr>);
     iperf_reset_stats;
     t \<leftarrow> get_t id;
     when_m (t_verbose t \<noteq> 0 \<and> t_json_output t = 0 \<and> d_eq (t_reporter_interval t) (Fin 0))
       (iprintf ''%s'' [PStr report_omit_done]);
     (case t_stats_timer t of None \<Rightarrow> skip_m | Some a \<Rightarrow> tmr_reset (Some nowP) a);
     (case t_reporter_timer t of None \<Rightarrow> skip_m | Some a \<Rightarrow> tmr_reset (Some nowP) a) }"

fun timer_body :: "timer_proc \<Rightarrow> client_data \<Rightarrow> timeval \<Rightarrow> unit iperf_m" where
  "timer_body Test_timer_proc cd now = test_timer_proc"
| "timer_body Client_stats_timer_proc cd now = stats_timer_proc"
| "timer_body Client_reporter_timer_proc cd now = reporter_timer_proc"
| "timer_body Client_omit_timer_proc cd now = omit_timer_proc now"
| "timer_body Server_stats_timer_proc cd now = stats_timer_proc"
| "timer_body Server_reporter_timer_proc cd now = reporter_timer_proc"
| "timer_body Server_omit_timer_proc cd now = omit_timer_proc now"
| "timer_body Send_timer_proc (Stream_ptr sp) now = send_timer_proc sp now"
| "timer_body Send_timer_proc Test_ptr now = sys_do (SCrash ''send_timer_proc'')"

definition run_timer_proc :: "timer_proc \<Rightarrow> client_data \<Rightarrow> timeval \<Rightarrow> iperf_state \<Rightarrow> iperf_state" where
  "run_timer_proc p cd now s = snd (run_state (timer_body p cd now) s)"

section \<open>Creation\<close>

definition interval_usecs :: "double \<Rightarrow> int" where
  "interval_usecs d = d_to_i64 (d_mul d (d_of_int SEC_TO_US))"

text \<open>A timer of the test that is stored in a field; 0 when it was created, -1 otherwise.\<close>

definition new_timer ::
  "timeval \<Rightarrow> timer_proc \<Rightarrow> int \<Rightarrow> bool \<Rightarrow> (nat option \<Rightarrow> iperf_test \<Rightarrow> iperf_test) \<Rightarrow> int iperf_m" where
  "new_timer now p usecs periodic put = do {
     a \<leftarrow> tmr_create (Some now) p Test_ptr usecs periodic;
     mod_t (put a);
     if a = None then do { set_i_errno IEINITTEST; ret (-1) } else ret 0 }"

text \<open>The timers for statistics and reports, each unless its interval is 0.\<close>

definition create_interval_timers :: "timeval \<Rightarrow> timer_proc \<Rightarrow> timer_proc \<Rightarrow> int iperf_m" where
  "create_interval_timers now stats reporter = do {
     t \<leftarrow> get_t id;
     r1 \<leftarrow> (if d_eq (t_stats_interval t) (Fin 0) then ret 0
           else new_timer now stats (interval_usecs (t_stats_interval t)) True (\<lambda>a t. t\<lparr>t_stats_timer := a\<rparr>));
     if r1 < 0 then ret (-1)
     else if d_eq (t_reporter_interval t) (Fin 0) then ret 0
     else new_timer now reporter (interval_usecs (t_reporter_interval t)) True (\<lambda>a t. t\<lparr>t_reporter_timer := a\<rparr>) }"

definition create_client_timers :: "int iperf_m" where
  "create_client_timers = do {
     (g, now) \<leftarrow> gettimeofday;
     if g < 0 then do { set_i_errno IEINITTEST; ret (-1) }
     else do {
       mod_t (\<lambda>t. t\<lparr>t_timer := None, t_stats_timer := None, t_reporter_timer := None\<rparr>);
       t \<leftarrow> get_t id;
       r \<leftarrow> (if t_duration t = 0 then ret 0
            else do {
              mod_t (\<lambda>t. t\<lparr>t_done := 0\<rparr>);
              new_timer now Test_timer_proc (i32 (t_duration t + t_omit t) * SEC_TO_US) False (\<lambda>a t. t\<lparr>t_timer := a\<rparr>) });
       if r < 0 then ret (-1)
       else create_interval_timers now Client_stats_timer_proc Client_reporter_timer_proc } }"

definition create_omit_timer :: "timer_proc \<Rightarrow> int iperf_m" where
  "create_omit_timer p = do {
     omit \<leftarrow> get_t t_omit;
     if omit = 0 then do {
       mod_t (\<lambda>t. t\<lparr>t_omit_timer := None, t_omitting := 0\<rparr>);
       ret 0 }
     else do {
       (g, now) \<leftarrow> gettimeofday;
       if g < 0 then do { set_i_errno IEINITTEST; ret (-1) }
       else do {
         mod_t (\<lambda>t. t\<lparr>t_omitting := 1\<rparr>);
         new_timer now p (omit * SEC_TO_US) False (\<lambda>a t. t\<lparr>t_omit_timer := a\<rparr>) } } }"

definition create_client_omit_timer :: "int iperf_m" where
  "create_client_omit_timer = create_omit_timer Client_omit_timer_proc"

definition create_server_timers :: "int iperf_m" where
  "create_server_timers = do {
     (g, now) \<leftarrow> gettimeofday;
     if g < 0 then do { set_i_errno IEINITTEST; ret (-1) }
     else do {
       mod_t (\<lambda>t. t\<lparr>t_stats_timer := None, t_reporter_timer := None\<rparr>);
       create_interval_timers now Server_stats_timer_proc Server_reporter_timer_proc } }"

definition create_server_omit_timer :: "int iperf_m" where
  "create_server_omit_timer = create_omit_timer Server_omit_timer_proc"

section \<open>Waiting for descriptors\<close>

text \<open>
  \<open>select\<close> with two sets and a timeout. The first two numbers of the answer are what is left of the
  timeout, which the kernel writes back; the others name the ready descriptors, \<open>2 * fd\<close> for one
  that can be read and \<open>2 * fd + 1\<close> for one that can be written. On an error the sets are unchanged.
\<close>

record selected =
  sel_result :: int
  sel_read :: "int list"
  sel_write :: "int list"
  sel_timeout :: "timeval option"

definition select_fds :: "int \<Rightarrow> int list \<Rightarrow> int list \<Rightarrow> timeval option \<Rightarrow> selected iperf_m" where
  "select_fds nfds rs ws timeout = do {
     r \<leftarrow> syscall (SSelect nfds rs ws timeout);
     let ready = drop 2 (sr_ints r);
     let rest = map_option (\<lambda>_. Timeval (nth_int (sr_ints r) 0) (nth_int (sr_ints r) 1)) timeout;
     ret (if sr_val r < 0 then \<lparr>sel_result = -1, sel_read = rs, sel_write = ws, sel_timeout = timeout\<rparr>
          else if sr_val r = 0 then \<lparr>sel_result = 0, sel_read = [], sel_write = [], sel_timeout = rest\<rparr>
          else \<lparr>sel_result = sr_val r, sel_read = filter (\<lambda>fd. 2 * fd \<in> set ready) rs,
                sel_write = filter (\<lambda>fd. 2 * fd + 1 \<in> set ready) ws, sel_timeout = rest\<rparr>) }"

text \<open>A byte read into a \<open>signed char\<close>.\<close>

definition schar :: "char \<Rightarrow> int" where
  "schar c = (if (of_char c :: int) < 128 then of_char c else of_char c - 256)"

text \<open>The first lines of both roles, and one round's call of \<open>select\<close>.\<close>

definition announce_version :: "unit iperf_m" where
  "announce_version = do {
     t \<leftarrow> get_t id;
     if t_json_output t \<noteq> 0 then do {
       json_add json_start ''version'' (Some (cJSON_CreateString version_text));
       info \<leftarrow> get_system_info;
       json_add json_start ''system_info'' (Some (cJSON_CreateString info)) }
     else when_m (t_verbose t \<noteq> 0) (do {
       iprintf (''%s'' @ nl) [PStr version_text];
       iprintf ''%s'' [PStr []];
       info \<leftarrow> get_system_info;
       iprintf (''%s'' @ nl) [PStr info];
       iflush }) }"

definition wait_for_events :: "selected iperf_m" where
  "wait_for_events = do {
     t \<leftarrow> get_t id;
     (_, now) \<leftarrow> gettimeofday;
     timeout \<leftarrow> tmr_timeout (Some now);
     select_fds (t_max_fd t + 1) (t_read_set t) (t_write_set t) timeout }"

end
