(* ===== verification/Frame.thy ===== *)
theory Frame
  imports Report
begin

text \<open>
  What the operations leave alone. An \<open>observer\<close> reads a part of the state; \<open>frame f m\<close> says that
  running \<open>m\<close> does not change what \<open>f\<close> reads. The rules take a frame apart along the program, so that
  each operation is one line.
\<close>

section \<open>Frames\<close>

definition frame :: "('s \<Rightarrow> 'b) \<Rightarrow> ('s, 'a) state \<Rightarrow> bool" where
  "frame f m \<longleftrightarrow> (\<forall>s. f (snd (run_state m s)) = f s)"

named_theorems frames \<open>what an operation leaves alone\<close>

lemma frameD: "frame f m \<Longrightarrow> run_state m s = (a, s') \<Longrightarrow> f s' = f s"
  by (metis frame_def snd_conv)

lemma frame_wp: "frame f m \<Longrightarrow> wp m (\<lambda>_ s'. f s' = f s) s"
  by (simp add: wp_iff frame_def)

lemma frame_of: "frame f m \<Longrightarrow> frame (\<lambda>s. g (f s)) m"
  by (simp add: frame_def)

lemma frame_return [frames]: "frame f (ret a)"
  by (simp add: frame_def)

lemma frame_bind [frames]: "frame f m \<Longrightarrow> (\<And>a. frame f (n a)) \<Longrightarrow> frame f (State_Monad.bind m n)"
  by (simp add: frame_def split: prod.split) (metis snd_conv)

lemma frame_gets [frames]: "frame f (gets g)"
  by (simp add: frame_def)

lemma frame_get [frames]: "frame f State_Monad.get"
  by (simp add: frame_def)

lemma frame_skip [frames]: "frame f skip_m"
  by (simp add: frame_def)

lemma frame_if [frames]: "(b \<Longrightarrow> frame f m) \<Longrightarrow> (\<not> b \<Longrightarrow> frame f n) \<Longrightarrow> frame f (if b then m else n)"
  by simp

lemma frame_when [frames]: "frame f m \<Longrightarrow> frame f (when_m b m)"
  by (simp add: when_m_def frame_skip)

lemma frame_option [frames]: "frame f m \<Longrightarrow> (\<And>x. frame f (n x)) \<Longrightarrow> frame f (case v of None \<Rightarrow> m | Some x \<Rightarrow> n x)"
  by (simp split: option.split)

lemma frame_prod [frames]: "(\<And>x y. frame f (m x y)) \<Longrightarrow> frame f (case v of (x, y) \<Rightarrow> m x y)"
  by (simp split: prod.split)

lemma frame_list [frames]: "frame f m \<Longrightarrow> (\<And>x xs. frame f (n x xs)) \<Longrightarrow> frame f (case v of [] \<Rightarrow> m | x # xs \<Rightarrow> n x xs)"
  by (simp split: list.split)

lemma frame_foreach [frames]: "(\<And>x. frame f (m x)) \<Longrightarrow> frame f (foreach_m xs m)"
  by (induction xs) (simp_all add: frames)

lemma frame_until [frames]: "(\<And>x. frame f (m x)) \<Longrightarrow> frame f (until_m xs m)"
  by (induction xs) (auto intro!: frames)

lemma frame_proto [frames]: "frame f m \<Longrightarrow> frame f n \<Longrightarrow> frame f (case p of Tcp_fns \<Rightarrow> m | Udp_fns \<Rightarrow> n)"
  by (simp split: proto_fns.split)

lemma frame_io [frames]: "frame f m1 \<Longrightarrow> frame f m2 \<Longrightarrow> frame f m3 \<Longrightarrow> frame f m4 \<Longrightarrow>
    frame f (case p of Io_null \<Rightarrow> m1 | Tcp_io \<Rightarrow> m2 | Udp_io \<Rightarrow> m3 | Diskfile_io \<Rightarrow> m4)"
  by (simp split: io_fn.split)

section \<open>The control state\<close>

text \<open>
  The part of the state that drives a test: the timer lists, the role and the state of the test,
  whether it is done or omitting, its control connection and the timers it holds.
\<close>

record test_control =
  c_role :: char
  c_state :: int
  c_done :: int
  c_omitting :: int
  c_ctrl_sck :: int
  c_timer :: "nat option"
  c_stats_timer :: "nat option"
  c_reporter_timer :: "nat option"
  c_omit_timer :: "nat option"

definition control_t :: "iperf_test \<Rightarrow> test_control" where
  "control_t t = \<lparr>c_role = t_role t, c_state = t_state t, c_done = t_done t, c_omitting = t_omitting t,
     c_ctrl_sck = t_ctrl_sck t, c_timer = t_timer t, c_stats_timer = t_stats_timer t,
     c_reporter_timer = t_reporter_timer t, c_omit_timer = t_omit_timer t\<rparr>"

definition control :: "iperf_state \<Rightarrow> timer list \<times> nat list \<times> nat \<times> test_control" where
  "control s = (timers s, free_timers s, tm_brk s, control_t (tst s))"

abbreviation calm :: "'a iperf_m \<Rightarrow> bool" where
  "calm \<equiv> frame control"

lemma control_more:
  assumes "world.more s' = world.more s"
  shows "control s' = control s"
  unfolding control_def more_iperf [OF assms] ..

lemma calm_os: "os_only m \<Longrightarrow> calm m"
  unfolding frame_def os_only_def by (blast intro: control_more)

lemmas calm_calls [frames] = os_only_syscall [THEN calm_os] os_only_calls [THEN calm_os] os_only_strerror [THEN calm_os]
  os_only_set_errno [THEN calm_os] os_only_net [THEN calm_os] os_only_sockets [THEN calm_os] os_only_JSON [THEN calm_os]

lemma calm_hstrerror [frames]: "calm (hstrerror e)"
  unfolding hstrerror_def by (intro frames)

lemma calm_access [frames]:
  "calm (get_t f)" "calm (get_st g)" "calm (get_sp sp h)" "calm (mod_sp sp k)"
  by (simp_all add: frame_def control_def)

lemma calm_mod_t: "(\<And>t. control_t (f t) = control_t t) \<Longrightarrow> calm (mod_t f)"
  by (simp add: frame_def control_def)

lemma control_t_st [simp]: "control_t (set_st f t) = control_t t"
  by (simp add: control_t_def set_st_def)

lemma calm_put [frames]: "calm (mod_t (set_st f))"
  by (simp add: calm_mod_t)

text \<open>Assignments to other fields of the test.\<close>

lemma calm_fields [frames]:
  "calm (mod_t (count_block r))"
  "calm (mod_t (\<lambda>t. t\<lparr>t_server_output_list := f t\<rparr>))"
  "calm (mod_t (\<lambda>t. t\<lparr>t_json_top := f1 t\<rparr>))"
  "calm (mod_t (\<lambda>t. t\<lparr>t_read_set := g t, t_max_fd := h t, t_prot_listener := s\<rparr>))"
  "calm (mod_t (\<lambda>t. t\<lparr>t_write_set := g t\<rparr>))"
  "calm (mod_t (\<lambda>t. t\<lparr>t_read_set := g t\<rparr>))"
  by (simp_all add: calm_mod_t control_t_def count_block_def)

section \<open>Output\<close>

lemma calm_output [frames]:
  "calm (fprintf_out x)" "calm iflush" "calm (warning w)" "calm usage" "calm (mod_json p u)" "calm (json_add p nm i)"
  unfolding fprintf_out_def iflush_def warning_def usage_def mod_json_def json_add_def
  by (intro frames)+

lemma calm_iprintf [frames]: "calm (iprintf fmt args)"
  unfolding iprintf_def Let_def by (intro frames)

lemma calm_jni_call [frames]: "calm (jni_call m ss ns ds)"
  unfolding jni_call_def by (intro frames)

lemma calm_err [frames]: "calm (iperf_err b fmt args)"
  unfolding iperf_err_def err_text_def Let_def by (intro frames)

lemma calm_unit_text [frames]: "calm (unit_text x u)"
  unfolding unit_text_def by (intro frames)

section \<open>Statistics and reports\<close>

lemma calm_save_tcpinfo [frames]: "calm (save_tcpinfo sp irp)"
  unfolding save_tcpinfo_def Let_def by (intro frames)

lemma calm_stats_stream [frames]: "calm (stats_stream sp temp)"
  unfolding stats_stream_def Let_def by (intro frames)

lemma calm_stats_streams [frames]: "calm (stats_streams sps temp)"
  by (induction sps arbitrary: temp) (auto intro!: frames)

lemma calm_stats [frames]: "calm iperf_stats_callback"
  unfolding iperf_stats_callback_def by (intro frames)

lemma calm_reset_stats [frames]: "calm iperf_reset_stats"
  unfolding iperf_reset_stats_def reset_stream_stats_def
  by (intro frames; simp add: calm_mod_t control_t_def)

lemma calm_on_report [frames]: "calm (on_interval st et u n)" "calm (on_result st et u n)"
  unfolding on_interval_def on_result_def on_report_bandwidth_def by (intro frames)+

lemma calm_print_interval [frames]: "calm (print_interval_results sp)"
  unfolding print_interval_results_def interval_header_def interval_line_def Let_def by (intro frames)

lemma calm_sum_intervals [frames]: "calm (sum_intervals sps x)"
  by (induction sps arbitrary: x) (simp_all only: sum_intervals.simps, (intro frames | assumption)+)

lemma calm_interval_sum [frames]: "calm (print_interval_sum x)"
  unfolding print_interval_sum_def interval_sum_line_def Let_def by (intro frames)

lemma calm_intermediate [frames]: "calm iperf_print_intermediate"
  unfolding iperf_print_intermediate_def by (intro frames)

lemma calm_stream_summary [frames]: "calm (stream_summary et sp)"
  unfolding stream_summary_def sent_line_def diskfile_summary_def summary_add_def Let_def by (intro frames)

lemma calm_stream_summaries [frames]: "calm (stream_summaries et sps x)"
  by (induction sps arbitrary: x) (simp_all only: stream_summaries.simps, (intro frames | assumption)+)

lemma calm_server_output: "calm print_server_output"
  unfolding print_server_output_def by (intro frames; simp add: calm_mod_t control_t_def)

lemma calm_print_results [frames]: "calm iperf_print_results"
  unfolding iperf_print_results_def results_header_def results_end_time_def sum_tcp_def sum_udp_def cpu_report_def
    summary_add_def Let_def
  by (intro frames calm_server_output)

lemma calm_reporter [frames]: "calm iperf_reporter_callback"
  unfolding iperf_reporter_callback_def by (intro frames)

section \<open>Pacing and sockets\<close>

lemma calm_check_throttle [frames]: "calm (iperf_check_throttle sp now)"
  unfolding iperf_check_throttle_def Let_def by (intro frames)

section \<open>The exchange of parameters and results\<close>

lemma calm_debug_json [frames]: "calm (debug_json w j)"
  unfolding debug_json_def by (intro frames)

lemma calm_send [frames]: "calm send_parameters" "calm send_results"
  unfolding send_parameters_def send_results_def Let_def by (intro frames)+

lemma control_check_retransmits [simp]: "control_t (check_sender_has_retransmits t) = control_t t"
  by (simp add: check_sender_has_retransmits_def control_t_def)

lemma calm_set_protocol [frames]: "calm (set_protocol p)"
  unfolding set_protocol_def by (intro frames calm_mod_t; simp) (simp add: control_t_def)

lemma calm_on_item [frames]: "(\<And>p. calm (f p)) \<Longrightarrow> calm (on_item j nm f)"
  unfolding on_item_def by (intro frames)

lemma calm_item_t: "(\<And>n t. control_t (f n t) = control_t t) \<Longrightarrow> calm (item_t j nm f)"
  unfolding item_t_def by (intro frames calm_mod_t)

lemma calm_item_str: "(\<And>n t. control_t (f n t) = control_t t) \<Longrightarrow> calm (item_str j nm f)"
  unfolding item_str_def by (intro frames calm_mod_t)

lemma calm_apply_parameters [frames]: "calm (apply_parameters j)"
  unfolding apply_parameters_def
  by (intro frames calm_item_t calm_item_str calm_mod_t; simp add: control_t_def set_st_def Let_def iperf_set_test_reverse_def
     iperf_set_test_get_server_output_def iperf_set_test_udp_counters_64bit_def iperf_set_no_fq_socket_pacing_def
      check_sender_has_retransmits_def)

lemma calm_get_parameters [frames]: "calm get_parameters"
  unfolding get_parameters_def by (intro frames)

lemma calm_apply_stream [frames]: "calm (apply_stream_result j)"
  unfolding apply_stream_result_def Let_def by (intro frames)

lemma calm_apply_streams [frames]: "calm (apply_stream_results js r)"
  by (induction js r rule: apply_stream_results.induct) (auto intro!: frames)

lemma calm_take_output: "calm (take_server_output j)"
  unfolding take_server_output_def
  by (intro frames calm_item_str calm_mod_t; simp add: control_t_def)

lemma calm_apply_results [frames]: "calm (apply_results j)"
  unfolding apply_results_def Let_def
  by (intro frames calm_take_output calm_mod_t; simp add: control_t_def)

lemma calm_exchange_results [frames]: "calm iperf_exchange_results"
  unfolding iperf_exchange_results_def get_results_def by (intro frames)

section \<open>Protocols\<close>

lemma calm_set_options [frames]: "calm (set_options s opts)"
  by (induction s opts rule: set_options.induct) (auto intro!: frames)

lemma calm_give_up [frames]: "calm (give_up s a e)"
  unfolding give_up_def by (intro frames)

lemma calm_debug_sndbuf [frames]: "calm (debug_sndbuf s)"
  unfolding debug_sndbuf_def by (intro frames)

lemma calm_null [frames]: "calm null_call"
  unfolding null_call_def by (intro frames)

lemma calm_tcp [frames]: "calm iperf_tcp_accept" "calm iperf_tcp_connect" "calm (iperf_tcp_recv sp)" "calm (iperf_tcp_send sp)"
  unfolding iperf_tcp_accept_def iperf_tcp_connect_def tcp_connect_to_def tcp_connect_bound_def iperf_tcp_recv_def iperf_tcp_send_def
  by (intro frames)+

lemma calm_tcp_listen [frames]: "calm iperf_tcp_listen"
  unfolding iperf_tcp_listen_def Let_def by (intro frames calm_mod_t; simp add: control_t_def)

lemma calm_udp [frames]: "calm iperf_udp_accept" "calm iperf_udp_connect" "calm iperf_udp_listen" "calm (iperf_udp_recv sp)"
  "calm (iperf_udp_send sp)" "calm iperf_udp_init"
  unfolding iperf_udp_accept_def iperf_udp_connect_def iperf_udp_listen_def iperf_udp_recv_def iperf_udp_send_def
    iperf_udp_init_def Let_def
  by (intro frames calm_mod_t; simp add: control_t_def)+

lemma calm_protocol [frames]: "calm protocol_accept" "calm protocol_connect" "calm protocol_listen" "calm protocol_init"
  unfolding protocol_accept_def protocol_connect_def protocol_listen_def protocol_init_def protocol_call_def
  by (intro frames)+

section \<open>Streams\<close>

lemma calm_random [frames]: "calm (random_bytes n)"
  by (induction n) (auto intro!: frames)

lemma calm_modify: "(\<And>s. control (f s) = control s) \<Longrightarrow> calm (modify f)"
  by (simp add: frame_def)

lemma calm_init_stream [frames]: "calm (iperf_init_stream sp)"
  unfolding iperf_init_stream_def by (intro frames)

lemma calm_add_stream [frames]: "calm (iperf_add_stream sp)"
  unfolding iperf_add_stream_def by (intro frames calm_mod_t; simp add: control_t_def)

lemma calm_new_stream [frames]: "calm (iperf_new_stream s)"
  unfolding iperf_new_stream_def new_stream_open_def stream_failed_def Let_def
  by (intro frames calm_modify; simp add: control_def)

lemma calm_report_mss [frames]: "calm (report_mss s)"
  unfolding report_mss_def Let_def by (intro frames)

lemma calm_callbacks [frames]: "calm iperf_on_connect" "calm iperf_on_test_finish" "calm iperf_on_test_start"
  "calm (iperf_on_new_stream sp)"
  unfolding iperf_on_connect_def iperf_on_test_finish_def iperf_on_test_start_def iperf_on_new_stream_def connect_msg_def Let_def
  by (intro frames)+

lemma calm_init_test [frames]: "calm iperf_init_test"
  unfolding iperf_init_test_def by (intro frames)

section \<open>Sending and receiving\<close>

lemma calm_snd2 [frames]: "calm (stream_snd2 sp f)" "calm (stream_rcv2 sp f)"
  unfolding stream_snd2_def stream_rcv2_def by (intro frames)+

lemma calm_stream_rcv [frames]: "calm (stream_rcv sp)"
  unfolding stream_rcv_def diskfile_recv_def by (intro frames)

lemma calm_recv_streams: "calm (recv_streams rs sps)"
  by (induction rs sps rule: recv_streams.induct) (simp_all only: recv_streams.simps, (intro frames | assumption)+)

lemma calm_recv [frames]: "calm (iperf_recv rs)"
  unfolding iperf_recv_def by (intro frames calm_recv_streams)

section \<open>The mode of a test\<close>

text \<open>
  The role, the state and the control connection: what is left of the control state where timers are
  created and where the end of the file of \<open>-F\<close> makes the test done.
\<close>

definition mode_t :: "iperf_test \<Rightarrow> char \<times> int \<times> int" where
  "mode_t t = (t_role t, t_state t, t_ctrl_sck t)"

definition mode :: "iperf_state \<Rightarrow> char \<times> int \<times> int" where
  "mode s = mode_t (tst s)"

abbreviation steady :: "'a iperf_m \<Rightarrow> bool" where
  "steady \<equiv> frame mode"

lemma calm_steady: "calm m \<Longrightarrow> steady m"
  by (simp add: frame_def control_def control_t_def mode_def mode_t_def)

lemma steady_mod_t: "(\<And>t. mode_t (f t) = mode_t t) \<Longrightarrow> steady (mod_t f)"
  by (simp add: frame_def mode_def)

lemma steady_modify: "(\<And>s. mode (f s) = mode s) \<Longrightarrow> steady (modify f)"
  by (simp add: frame_def)

lemmas steady_leaves [frames] = calm_calls [THEN calm_steady] calm_access [THEN calm_steady] calm_put [THEN calm_steady]
  calm_fields [THEN calm_steady] calm_output [THEN calm_steady] calm_iprintf [THEN calm_steady] calm_err [THEN calm_steady]
  calm_stats [THEN calm_steady] calm_reporter [THEN calm_steady] calm_exchange_results [THEN calm_steady]
  calm_send [THEN calm_steady] calm_get_parameters [THEN calm_steady] calm_protocol [THEN calm_steady]
  calm_new_stream [THEN calm_steady] calm_callbacks [THEN calm_steady] calm_init_test [THEN calm_steady]
  calm_snd2 [THEN calm_steady] calm_check_throttle [THEN calm_steady] calm_recv [THEN calm_steady]
  calm_jni_call [THEN calm_steady]

lemma steady_getnow [frames]: "steady (getnow nowP)"
  by (cases nowP) (auto intro!: frames)

lemma steady_tmr [frames]: "steady (tmr_create nowP p d u per)" "steady (tmr_cancel a)" "steady (tmr_timeout nowP)" "steady (tmr_reset nowP a)"
  unfolding tmr_create_def tmr_alloc_def tmr_cancel_def tmr_timeout_def tmr_reset_def Let_def
  by (intro frames steady_modify; simp add: mode_def tmr_cancel_st_def)+

lemma steady_send_timers [frames]: "steady iperf_create_send_timers"
  unfolding iperf_create_send_timers_def by (intro frames)

lemma steady_cpu_util [frames]: "steady cpu_util" "steady cpu_util_start"
  unfolding cpu_util_def cpu_util_start_def getrusage_def Let_def by (intro frames steady_modify; simp add: mode_def)+

lemma steady_stream_snd [frames]: "steady (stream_snd sp)"
  unfolding stream_snd_def diskfile_send_def by (intro frames steady_mod_t; simp add: mode_t_def)

lemma steady_send_streams [frames]: "steady (send_streams m now ws sps a)"
  by (induction m now ws sps a rule: send_streams.induct) (simp_all only: send_streams.simps, (intro frames | assumption)+)

lemma steady_send_rounds [frames]: "steady (send_rounds m now ws)"
  by (induction m arbitrary: now) (simp_all only: send_rounds.simps, (intro frames | assumption)+)

lemma steady_send [frames]: "steady (iperf_send ws)"
  unfolding iperf_send_def by (intro frames)

text \<open>Setting the state and sending it: whether or not the byte gets through, the state is set.\<close>

lemma wp_set_send_state:
  assumes "\<And>r s'. r = 0 \<or> r = -1 \<Longrightarrow> control s' = control (s\<lparr>tst := (tst s)\<lparr>t_state := st\<rparr>\<rparr>) \<Longrightarrow> Q r s'"
  shows "wp (iperf_set_send_state st) Q s"
proof -
  have c: "calm (do { fd \<leftarrow> get_t t_ctrl_sck; r \<leftarrow> Nwrite fd [byte_of st];
      if r < 0 then do { set_i_errno IESENDMESSAGE; ret (-1) } else ret (0 :: int) })"
    by (intro frames)
  have r: "wp (do { fd \<leftarrow> get_t t_ctrl_sck; r \<leftarrow> Nwrite fd [byte_of st];
      if r < 0 then do { set_i_errno IESENDMESSAGE; ret (-1) } else ret (0 :: int) }) (\<lambda>r _. r = 0 \<or> r = -1) u" for u
    by (auto simp: wp_simps wp_iff split_beta)
  show ?thesis
    unfolding iperf_set_send_state_def wp_bind [of "mod_t _"] wp_mod_t
    by (rule wp_mono [OF wp_conj [OF frame_wp [OF c] r]]) (rule assms; simp)
qed

end
