(* ===== verification/Timer_Facts.thy ===== *)
theory Timer_Facts
  imports Callbacks Frame
begin

text \<open>
  The timers of a test run by \<open>tmr_run\<close>: the procedures meet what \<open>Timer\<close> asks of callbacks, so every
  run of them ends, and a test with a time limit is done once its time is over.
\<close>

section \<open>What the procedures leave alone\<close>

definition omit_proc :: "timer_proc \<Rightarrow> bool" where
  "omit_proc p \<longleftrightarrow> p = Client_omit_timer_proc \<or> p = Server_omit_timer_proc"

lemma control_timers: "control s' = control s \<Longrightarrow> timers s' = timers s \<and> free_timers s' = free_timers s \<and> tm_brk s' = tm_brk s"
  by (simp add: control_def)

lemma control_test: "control s' = control s \<Longrightarrow> control_t (tst s') = control_t (tst s)"
  by (simp add: control_def)

lemma calm_interval_procs [frames]: "calm stats_timer_proc" "calm reporter_timer_proc" "calm (send_timer_proc sp now)"
  unfolding stats_timer_proc_def reporter_timer_proc_def send_timer_proc_def by (intro frames)+

lemma calm_timer_body: "\<not> omit_proc p \<Longrightarrow> p \<noteq> Test_timer_proc \<Longrightarrow> calm (timer_body p cd now)"
  by (cases p; cases cd) (auto simp: omit_proc_def intro!: frames)

lemma run_test_timer_proc: "run_timer_proc Test_timer_proc cd now s = s\<lparr>tst := (tst s)\<lparr>t_timer := None, t_done := 1\<rparr>\<rparr>"
  by (simp add: run_timer_proc_def test_timer_proc_def)

lemma run_timer_control:
  assumes "\<not> omit_proc p" "p \<noteq> Test_timer_proc"
  shows "control (run_timer_proc p cd now s) = control s"
  using calm_timer_body [OF assms, of cd now] by (simp add: run_timer_proc_def frame_def)

lemma run_timer_timers:
  assumes "\<not> omit_proc p"
  shows "timers (run_timer_proc p cd now s) = timers s \<and> free_timers (run_timer_proc p cd now s) = free_timers s \<and>
    tm_brk (run_timer_proc p cd now s) = tm_brk s"
proof (cases "p = Test_timer_proc")
  case False
  then show ?thesis by (rule control_timers [OF run_timer_control [OF assms]])
qed (simp add: run_test_timer_proc)

lemma set_timers_rearm: "t \<in> set (timers u) \<Longrightarrow> tmr_inv u \<Longrightarrow>
    set (timers (tmr_rearm t u)) \<subseteq> insert (t\<lparr>tm_time := add_usecs (tm_time t) (tm_usecs t)\<rparr>) (set (timers u))"
  using set_list_remove_subset [of "tm_addr t" "timers u"]
  by (auto simp: tmr_rearm_def list_resort_def tmr_cancel_st_def)

lemma rearm_more [simp]: "tst (tmr_rearm t u) = tst u"
  by (simp add: tmr_rearm_def tmr_cancel_st_def)

section \<open>The end of the test\<close>

definition no_omit :: "iperf_state \<Rightarrow> bool" where
  "no_omit s \<longleftrightarrow> (\<forall>t \<in> set (timers s). \<not> omit_proc (tm_proc t))"

definition ended :: "timer \<Rightarrow> iperf_state \<Rightarrow> bool" where
  "ended t s \<longleftrightarrow> (tm_proc t = Test_timer_proc \<longrightarrow> t_done (tst s) = 1 \<and> t_timer (tst s) = None)"

lemma ended_run:
  assumes "\<not> omit_proc p"
  shows "(p = Test_timer_proc \<longrightarrow> ended t (run_timer_proc p cd now u)) \<and> (ended t u \<longrightarrow> ended t (run_timer_proc p cd now u))"
proof (cases "p = Test_timer_proc")
  case False
  then show ?thesis
    using control_test [OF run_timer_control [OF assms False], of cd now u] by (auto simp: ended_def control_t_def)
qed (simp add: run_test_timer_proc ended_def)

interpretation quiet_ps: firing_procs run_timer_proc "\<lambda>_. no_omit" ended
proof
  fix t now and u :: iperf_state
  assume u: "timers_fit u" "no_omit u" "t \<in> set (timers u)"
  let ?u1 = "run_timer_proc (tm_proc t) (tm_data t) now u"
  have p: "\<not> omit_proc (tm_proc t)" using u by (simp add: no_omit_def)
  show same: "timers ?u1 = timers u \<and> free_timers ?u1 = free_timers u \<and> tm_brk ?u1 = tm_brk u"
    using run_timer_timers [OF p] .
  have "tmr_inv ?u1" using u same by (simp add: timers_fit_def tmr_inv_def)
  then show "no_omit (tmr_rearm t ?u1)"
    using set_timers_rearm [of t ?u1] u same by (auto simp: no_omit_def)
  show "ended t (tmr_rearm t ?u1)"
    using ended_run [OF p, of t "tm_data t" now u] by (auto simp: ended_def)
next
  fix t t' now and u :: iperf_state
  assume u: "timers_fit u" "no_omit u" "t' \<in> set (timers u)" "ended t u"
  then show "ended t (tmr_rearm t' (run_timer_proc (tm_proc t') (tm_data t') now u))"
    using ended_run [of "tm_proc t'" t "tm_data t'" now u] by (auto simp: ended_def no_omit_def)
qed

text \<open>When the timer for the duration is due, \<open>tmr_run\<close> returns with the test marked done.\<close>

lemma duration_ends_test:
  assumes "timers_fit s" "tv_normal now" "no_omit s" "t \<in> set (timers s)" "tm_proc t = Test_timer_proc" "due now t"
  shows "\<exists>s'. tmr_run run_timer_proc (Some now) s = Some s' \<and> timers_fit s' \<and> t_done (tst s') = 1 \<and> t_timer (tst s') = None"
  using quiet_ps.fires [OF assms(1-3)] assms(4-6) by (auto simp: ended_def)

section \<open>From the creation of the timers to the end of the test\<close>

lemma tmr_alloc_tst: "wp tmr_alloc (\<lambda>_ s'. tst s' = tst s) s"
  by (simp add: tmr_alloc_def wp_simps split: list.split)

text \<open>A timer of the test: its field is set, and the list holds it, expiring after its period.\<close>

definition timer_at :: "nat \<Rightarrow> timer_proc \<Rightarrow> int \<Rightarrow> bool \<Rightarrow> timeval \<Rightarrow> timer" where
  "timer_at a p usecs periodic now = \<lparr>tm_addr = a, tm_proc = p, tm_data = Test_ptr, tm_usecs = usecs,
     tm_periodic = periodic, tm_time = add_usecs now usecs\<rparr>"

lemma wp_new_timer:
  assumes s: "timers_fit s" "tv_normal now" "0 \<le> usecs" "periodic \<longrightarrow> 1 \<le> usecs"
    and fail: "\<And>s'. Q (-1) s'"
    and ok: "\<And>a s'. timers_fit s' \<Longrightarrow> tst s' = put (Some a) (tst s) \<Longrightarrow>
      timers s' = list_add (timer_at a p usecs periodic now) (timers s) \<Longrightarrow> Q 0 s'"
  shows "wp (new_timer now p usecs periodic put) Q s"
proof -
  have inv: "tmr_inv s" using s(1) by (simp add: timers_fit_def)
  have Q: "(r = None \<longrightarrow> Q (-1) (s1\<lparr>tst := put None (tst s1), i_errno := IEINITTEST\<rparr>)) \<and>
      (\<forall>a. r = Some a \<longrightarrow> Q 0 (s1\<lparr>timers := list_add (timer_at a p usecs periodic now) (timers s1), tst := put (Some a) (tst s1)\<rparr>))"
    if a: "tmr_inv s1 \<and> timers s1 = timers s \<and> (\<forall>a. r = Some a \<longrightarrow> a \<notin> tm_addr ` set (timers s) \<and>
      a \<notin> set (free_timers s1) \<and> a < tm_brk s1) \<and> (r = None \<longrightarrow> free_timers s = [])" "tst s1 = tst s" for r and s1 :: iperf_state
  proof (cases r)
    case (Some b)
    let ?t = "timer_at b p usecs periodic now"
    have "tmr_inv (s1\<lparr>timers := list_add ?t (timers s1)\<rparr>)"
      using tmr_inv_add [of s1 ?t] a(1) Some by (simp add: timer_at_def)
    then have "timers_fit (s1\<lparr>timers := list_add ?t (timers s1), tst := put (Some b) (tst s1)\<rparr>)"
      using s a by (auto simp: timers_fit_def tmr_inv_def timer_at_def add_usecs_normal)
    then show ?thesis using ok a Some by simp
  qed (use fail in simp)
  have "wp tmr_alloc (\<lambda>r s1. (r = None \<longrightarrow> Q (-1) (s1\<lparr>tst := put None (tst s1), i_errno := IEINITTEST\<rparr>)) \<and>
      (\<forall>a. r = Some a \<longrightarrow> Q 0 (s1\<lparr>timers := list_add (timer_at a p usecs periodic now) (timers s1), tst := put (Some a) (tst s1)\<rparr>))) s"
    by (rule wp_mono [OF wp_conj [OF tmr_alloc_wp [OF inv] tmr_alloc_tst]]) (rule Q; blast)
  then show ?thesis
    unfolding new_timer_def tmr_create_def
    by (simp add: wp_simps) (erule wp_mono, auto simp: wp_simps timer_at_def split: option.split)
qed

definition interval_ok :: "double \<Rightarrow> bool" where
  "interval_ok d \<longleftrightarrow> d_eq d (Fin 0) \<or> 1 \<le> interval_usecs d"

text \<open>Creating timers that do not end the test: the lists grow by timers that are not omit timers.\<close>

definition grown :: "iperf_state \<Rightarrow> iperf_state \<Rightarrow> bool" where
  "grown s s' \<longleftrightarrow> timers_fit s' \<and> set (timers s) \<subseteq> set (timers s') \<and> (no_omit s \<longrightarrow> no_omit s')"

lemma wp_interval_timers:
  assumes "timers_fit s" "tv_normal now" "interval_ok (t_stats_interval (tst s))" "interval_ok (t_reporter_interval (tst s))"
    "\<not> omit_proc p" "\<not> omit_proc q"
  shows "wp (create_interval_timers now p q) (\<lambda>r s'. r = 0 \<longrightarrow> grown s s') s"
proof -
  have second: "wp (new_timer now q (interval_usecs (t_reporter_interval (tst s))) True (\<lambda>a t. t\<lparr>t_reporter_timer := a\<rparr>))
      (\<lambda>r s'. r = 0 \<longrightarrow> grown s s') s1" if "grown s s1" "\<not> d_eq (t_reporter_interval (tst s)) (Fin 0)" for s1
    by (rule wp_new_timer) (use that assms in \<open>auto simp: grown_def interval_ok_def no_omit_def timer_at_def\<close>)
  have refl: "grown s s" using assms(1) by (simp add: grown_def)
  show ?thesis
  proof (cases "d_eq (t_stats_interval (tst s)) (Fin 0)")
    case True
    then show ?thesis using second [OF refl] refl by (simp add: create_interval_timers_def wp_simps)
  next
    case False
    have "wp (new_timer now p (interval_usecs (t_stats_interval (tst s))) True (\<lambda>a t. t\<lparr>t_stats_timer := a\<rparr>))
      (\<lambda>r s1. r \<ge> 0 \<longrightarrow> grown s s1) s"
      by (rule wp_new_timer) (use False assms in \<open>auto simp: grown_def interval_ok_def no_omit_def timer_at_def\<close>)
    then show ?thesis
      using False by (simp add: create_interval_timers_def wp_simps) (intro conjI impI; erule wp_mono; auto simp: wp_simps intro: second)
  qed
qed

text \<open>The time an operation that starts with \<open>gettimeofday\<close> takes for the current one.\<close>

definition clock :: "iperf_state \<Rightarrow> timeval" where
  "clock s = Timeval (nth_int (sr_ints (answer s SGettimeofday)) 0) (nth_int (sr_ints (answer s SGettimeofday)) 1)"

lemma wp_clock: "wp gettimeofday Q = (\<lambda>s. Q (sr_val (answer s SGettimeofday), clock s) (after s SGettimeofday))"
  by (rule ext) (simp add: wp_gettimeofday clock_def)

lemma wp_client_timers:
  assumes "timers_fit s" "tv_normal (clock s)" "interval_ok (t_stats_interval (tst s))" "interval_ok (t_reporter_interval (tst s))"
    and d: "0 \<le> i32 (t_duration (tst s) + t_omit (tst s))"
  shows "wp create_client_timers (\<lambda>r s'. r = 0 \<longrightarrow> timers_fit s' \<and> (no_omit s \<longrightarrow> no_omit s') \<and>
    (t_duration (tst s) \<noteq> 0 \<longrightarrow> (\<exists>a. timer_at a Test_timer_proc (i32 (t_duration (tst s) + t_omit (tst s)) * SEC_TO_US) False (clock s)
       \<in> set (timers s')))) s"
proof -
  define n where "n = i32 (t_duration (tst s) + t_omit (tst s)) * SEC_TO_US"
  define s1 where "s1 = (after s SGettimeofday)\<lparr>tst := (tst s)\<lparr>t_timer := None, t_stats_timer := None, t_reporter_timer := None\<rparr>\<rparr>"
  have fit: "timers_fit s1" "no_omit s \<Longrightarrow> no_omit s1"
    using assms(1) by (simp_all add: s1_def timers_fit_def tmr_inv_def no_omit_def)
  have n: "i32 (t_duration (tst s1) + t_omit (tst s1)) * SEC_TO_US = n" by (simp add: n_def s1_def)
  have rest: "wp (create_interval_timers (clock s) Client_stats_timer_proc Client_reporter_timer_proc) (\<lambda>r s'. r = 0 \<longrightarrow> grown s2 s') s2"
    if "timers_fit s2" "t_stats_interval (tst s2) = t_stats_interval (tst s)" "t_reporter_interval (tst s2) = t_reporter_interval (tst s)" for s2
    by (rule wp_interval_timers) (use that assms in \<open>auto simp: omit_proc_def\<close>)
  show ?thesis
  proof (cases "t_duration (tst s) = 0")
    case True
    then show ?thesis
      unfolding create_client_timers_def using fit
      by (simp add: wp_clock wp_simps flip: s1_def del: wp_gettimeofday)
        (auto intro!: wp_mono [OF rest] simp: s1_def grown_def)
  next
    case False
    let ?t = "\<lambda>a. timer_at a Test_timer_proc n False (clock s)"
    have "wp (new_timer (clock s) Test_timer_proc n False (\<lambda>a t. t\<lparr>t_timer := a\<rparr>))
        (\<lambda>r s2. r < 0 \<or> wp (create_interval_timers (clock s) Client_stats_timer_proc Client_reporter_timer_proc)
          (\<lambda>r s'. r = 0 \<longrightarrow> timers_fit s' \<and> (no_omit s \<longrightarrow> no_omit s') \<and> (\<exists>a. ?t a \<in> set (timers s'))) s2)
        (s1\<lparr>tst := (tst s1)\<lparr>t_done := 0\<rparr>\<rparr>)"
    proof (rule wp_new_timer)
      fix a and s2 :: iperf_state
      assume s2: "timers_fit s2" "timers s2 = list_add (?t a) (timers (s1\<lparr>tst := (tst s1)\<lparr>t_done := 0\<rparr>\<rparr>))"
        "tst s2 = (tst (s1\<lparr>tst := (tst s1)\<lparr>t_done := 0\<rparr>\<rparr>))\<lparr>t_timer := Some a\<rparr>"
      then have "no_omit s \<Longrightarrow> no_omit s2" "?t a \<in> set (timers s2)"
        using fit by (auto simp: no_omit_def s1_def timer_at_def omit_proc_def)
      then show "0 < 0 \<or> wp (create_interval_timers (clock s) Client_stats_timer_proc Client_reporter_timer_proc)
          (\<lambda>r s'. r = 0 \<longrightarrow> timers_fit s' \<and> (no_omit s \<longrightarrow> no_omit s') \<and> (\<exists>a. ?t a \<in> set (timers s'))) s2"
        using s2 by (intro disjI2 wp_mono [OF rest]) (auto simp: s1_def grown_def)
    qed (use fit assms(2) d in \<open>auto simp: timers_fit_def tmr_inv_def n_def SEC_TO_US_def\<close>)
    then show ?thesis
      using False unfolding create_client_timers_def
      by (simp add: wp_clock wp_simps n flip: s1_def n_def del: wp_gettimeofday) (intro impI, erule wp_mono, auto simp: wp_simps)
  qed
qed


section \<open>With an omitted period\<close>

text \<open>
  At a time \<open>now\<close> no timer lies further ahead than its period, and the timers the omit timer resets are
  not omit timers themselves.
\<close>

definition timely :: "timeval \<Rightarrow> iperf_state \<Rightarrow> bool" where
  "timely now s \<longleftrightarrow> (\<forall>t \<in> set (timers s). 0 \<le> tm_usecs t \<and> tm_time t \<le> add_usecs now (tm_usecs t))"

definition hooked :: "iperf_state \<Rightarrow> bool" where
  "hooked s \<longleftrightarrow> (\<forall>t \<in> set (timers s). omit_proc (tm_proc t) \<longrightarrow>
     t_stats_timer (tst s) \<noteq> Some (tm_addr t) \<and> t_reporter_timer (tst s) \<noteq> Some (tm_addr t))"

lemma filter_key: "distinct (map f xs) \<Longrightarrow> t \<in> set xs \<Longrightarrow> filter (\<lambda>x. f x = f t) xs = [t]"
  by (induction xs) (auto simp: filter_empty_conv image_iff)

lemma timely_reset:
  assumes "timers_fit u" "timely now u" "tv_normal now"
  shows "postponed u (u\<lparr>timers := reschedule a (\<lambda>tm. add_usecs now (tm_usecs tm)) (timers u)\<rparr>)"
proof (cases "find_timer a (timers u)")
  case None
  then show ?thesis
    using assms(1) by (simp add: reschedule_def postponed_refl timers_fit_def)
next
  case (Some t)
  then have t: "t \<in> set (timers u)" "tm_addr t = a" using find_timer_Some by blast+
  have ok: "timers_ok (timers u)" and inv: "tmr_inv u" using assms(1) by (auto simp: timers_fit_def tmr_inv_def)
  let ?f = "\<lambda>x. if tm_addr x = a then add_usecs now (tm_usecs x) else tm_time x"
  let ?u1 = "u\<lparr>timers := reschedule a (\<lambda>tm. add_usecs now (tm_usecs tm)) (timers u)\<rparr>"
  let ?t1 = "t\<lparr>tm_time := add_usecs now (tm_usecs t)\<rparr>"
  have ms: "mset (timers ?u1) = add_mset ?t1 (filter_mset (\<lambda>x. tm_addr x \<noteq> a) (mset (timers u)))"
    using tq.resort_items [OF ok, of ?t1] t Some by (auto simp: reschedule_def)
  have dist: "distinct (map tm_addr (timers u))" using ok by (simp add: timers_ok_def)
  have only: "filter_mset (\<lambda>x. tm_addr x = a) (mset (timers u)) = {#t#}"
    using filter_key [OF dist t(1)] t(2) by (metis mset_filter mset_single_iff)
  have "image_mset (\<lambda>x. x\<lparr>tm_time := ?f x\<rparr>) (mset (timers u)) =
      image_mset (\<lambda>x. x\<lparr>tm_time := ?f x\<rparr>) (filter_mset (\<lambda>x. tm_addr x = a) (mset (timers u))) +
      image_mset (\<lambda>x. x\<lparr>tm_time := ?f x\<rparr>) (filter_mset (\<lambda>x. tm_addr x \<noteq> a) (mset (timers u)))"
    by (subst multiset_partition [of "mset (timers u)" "\<lambda>x. tm_addr x = a"], rule image_mset_union)
  also have "\<dots> = add_mset ?t1 (image_mset (\<lambda>x. x\<lparr>tm_time := ?f x\<rparr>) (filter_mset (\<lambda>x. tm_addr x \<noteq> a) (mset (timers u))))"
    using t(2) unfolding only by simp
  also have "image_mset (\<lambda>x. x\<lparr>tm_time := ?f x\<rparr>) (filter_mset (\<lambda>x. tm_addr x \<noteq> a) (mset (timers u))) =
      filter_mset (\<lambda>x. tm_addr x \<noteq> a) (mset (timers u))"
    by (rule multiset.map_ident_strong) auto
  finally have im: "mset (timers ?u1) = image_mset (\<lambda>x. x\<lparr>tm_time := ?f x\<rparr>) (mset (timers u))" using ms by simp
  have "tmr_inv ?u1" using tmr_inv_reschedule [OF inv] by simp
  moreover have "tm_time x \<le> ?f x \<and> tv_normal (?f x)" if "x \<in> set (timers u)" for x
    using that assms by (auto simp: timely_def timers_fit_def add_usecs_normal)
  ultimately show ?thesis unfolding postponed_def using im by (intro conjI exI [of _ ?f]) auto
qed

lemma postponed_trans: "postponed s u \<Longrightarrow> postponed u v \<Longrightarrow> postponed s v"
  unfolding postponed_def
proof (elim conjE exE, intro conjI)
  fix f g
  assume f: "\<forall>t \<in> set (timers s). tm_time t \<le> f t \<and> tv_normal (f t)"
      "mset (timers u) = image_mset (\<lambda>t. t\<lparr>tm_time := f t\<rparr>) (mset (timers s))"
    and g: "\<forall>t \<in> set (timers u). tm_time t \<le> g t \<and> tv_normal (g t)"
      "mset (timers v) = image_mset (\<lambda>t. t\<lparr>tm_time := g t\<rparr>) (mset (timers u))"
  have "set (timers u) = (\<lambda>t. t\<lparr>tm_time := f t\<rparr>) ` set (timers s)"
    using arg_cong [OF f(2), of set_mset] by simp
  then show "\<exists>f. (\<forall>t \<in> set (timers s). tm_time t \<le> f t \<and> tv_normal (f t)) \<and>
      mset (timers v) = image_mset (\<lambda>t. t\<lparr>tm_time := f t\<rparr>) (mset (timers s))"
    using f g
    by (intro exI [of _ "\<lambda>t. g (t\<lparr>tm_time := f t\<rparr>)"]) (auto simp: multiset.map_comp o_def intro: order_trans)
qed

text \<open>What the omit timer's procedure does to the timers: the two timers it knows are reset.\<close>

definition reset_at :: "timeval \<Rightarrow> nat option \<Rightarrow> timer list \<Rightarrow> timer list" where
  "reset_at now a ts = (case a of None \<Rightarrow> ts | Some x \<Rightarrow> reschedule x (\<lambda>tm. add_usecs now (tm_usecs tm)) ts)"

lemma set_reset_at: "t \<in> set (reset_at now a ts) \<Longrightarrow>
    t \<in> set ts \<or> (\<exists>u \<in> set ts. a = Some (tm_addr u) \<and> t = u\<lparr>tm_time := add_usecs now (tm_usecs u)\<rparr>)"
  using set_list_remove_subset find_timer_Some
  by (fastforce simp: reset_at_def reschedule_def list_resort_def split: option.splits)

lemma set_reschedule_other:
  assumes "t \<in> set ts" "tm_addr t \<noteq> a" "distinct (map tm_addr ts)"
  shows "t \<in> set (reschedule a f ts)"
proof (cases "find_timer a ts")
  case (Some u)
  then have "tm_addr u = a" using find_timer_Some by blast
  then show ?thesis
    using assms Some by (simp add: reschedule_def list_resort_def list_remove_filter)
qed (use assms in \<open>simp add: reschedule_def\<close>)

lemma in_reset_at: "t \<in> set ts \<Longrightarrow> distinct (map tm_addr ts) \<Longrightarrow> a \<noteq> Some (tm_addr t) \<Longrightarrow> t \<in> set (reset_at now a ts)"
  using set_reschedule_other [of t ts] by (cases a) (auto simp: reset_at_def)

lemma timely_reset_at:
  assumes "timers_fit u" "timely now u" "tv_normal now"
  shows "postponed u (u\<lparr>timers := reset_at now a (timers u)\<rparr>)" "timely now (u\<lparr>timers := reset_at now a (timers u)\<rparr>)"
proof -
  show "postponed u (u\<lparr>timers := reset_at now a (timers u)\<rparr>)"
    using timely_reset [OF assms] postponed_refl [OF assms(1)] assms(1)
    by (auto simp: reset_at_def timers_fit_def split: option.split)
  show "timely now (u\<lparr>timers := reset_at now a (timers u)\<rparr>)"
    using set_reset_at [of _ now a "timers u"] assms(2) by (fastforce simp: timely_def)
qed

lemma wp_tmr_reset: "wp (tmr_reset (Some now) a) Q s =
    Q () (s\<lparr>timers := reschedule a (\<lambda>tm. add_usecs now (tm_usecs tm)) (timers s)\<rparr>)"
  by (simp add: wp_def tmr_reset_def st_now_def)

lemma omit_proc_timers:
  "wp (omit_timer_proc now) (\<lambda>_ s'. timers s' = reset_at now (t_reporter_timer (tst s)) (reset_at now (t_stats_timer (tst s)) (timers s)) \<and>
     free_timers s' = free_timers s \<and> tm_brk s' = tm_brk s \<and> t_stats_timer (tst s') = t_stats_timer (tst s) \<and>
     t_reporter_timer (tst s') = t_reporter_timer (tst s) \<and> t_omitting (tst s') = 0 \<and> t_omit_timer (tst s') = None) s"
  unfolding omit_timer_proc_def
  apply (simp only: wp_bind wp_mod_t)
  apply (rule wp_mono [OF frame_wp [OF calm_reset_stats]])
  apply (simp only: wp_get_t wp_bind)
  apply (rule wp_mono [OF frame_wp [where f = control]])
   apply (intro frames)
  apply (auto simp: wp_simps wp_tmr_reset reset_at_def control_def control_t_def split: option.split)
  done

text \<open>What a run of any procedure keeps, for a timer that is due.\<close>

definition ticking :: "timeval \<Rightarrow> iperf_state \<Rightarrow> bool" where
  "ticking now s \<longleftrightarrow> timely now s \<and> hooked s"

lemma timely_timers: "timers u' = timers u \<Longrightarrow> timely now u' = timely now u"
  by (simp add: timely_def)

lemma hooked_cong:
  assumes "(\<lambda>t. (tm_proc t, tm_addr t)) ` set (timers u') \<subseteq> (\<lambda>t. (tm_proc t, tm_addr t)) ` set (timers u)"
    "t_stats_timer (tst u') = t_stats_timer (tst u)" "t_reporter_timer (tst u') = t_reporter_timer (tst u)" "hooked u"
  shows "hooked u'"
  unfolding hooked_def
proof (intro ballI impI)
  fix t assume t: "t \<in> set (timers u')" "omit_proc (tm_proc t)"
  then obtain v where "v \<in> set (timers u)" "tm_proc v = tm_proc t" "tm_addr v = tm_addr t" using assms(1) by fastforce
  then show "t_stats_timer (tst u') \<noteq> Some (tm_addr t) \<and> t_reporter_timer (tst u') \<noteq> Some (tm_addr t)"
    using assms(2-4) t(2) by (metis hooked_def)
qed

lemma run_proc_ticks:
  assumes u: "timers_fit u" "ticking now u" "t \<in> set (timers u)" and now: "tv_normal now"
  defines "u1 \<equiv> run_timer_proc (tm_proc t) (tm_data t) now u"
  shows "postponed u u1" "ticking now u1" "t \<in> set (timers u1)"
proof -
  have k: "timely now u" "hooked u" using u by (simp_all add: ticking_def)
  have "postponed u u1 \<and> ticking now u1 \<and> t \<in> set (timers u1)"
  proof (cases "omit_proc (tm_proc t)")
    case False
    have same: "timers u1 = timers u \<and> free_timers u1 = free_timers u \<and> tm_brk u1 = tm_brk u"
      unfolding u1_def by (rule run_timer_timers [OF False])
    have hooks: "t_stats_timer (tst u1) = t_stats_timer (tst u) \<and> t_reporter_timer (tst u1) = t_reporter_timer (tst u)"
    proof (cases "tm_proc t = Test_timer_proc")
      case False
      then show ?thesis
        using control_test [OF run_timer_control [OF \<open>\<not> omit_proc _\<close> False, of "tm_data t" now u]]
        by (simp add: control_t_def u1_def)
    qed (simp add: u1_def run_test_timer_proc)
    have "tmr_inv u1" using u same by (simp add: timers_fit_def tmr_inv_def)
    then show ?thesis
      using same hooks u k postponed_refl [OF u(1), of u1] timely_timers [of u1 u] hooked_cong [of u1 u]
      by (simp add: ticking_def)
  next
    case True
    then have body: "u1 = snd (run_state (omit_timer_proc now) u)"
      by (cases "tm_proc t") (auto simp: u1_def run_timer_proc_def omit_proc_def)
    let ?a = "t_stats_timer (tst u)" and ?b = "t_reporter_timer (tst u)"
    have r: "timers u1 = reset_at now ?b (reset_at now ?a (timers u))" "free_timers u1 = free_timers u" "tm_brk u1 = tm_brk u"
      "t_stats_timer (tst u1) = ?a" "t_reporter_timer (tst u1) = ?b"
      using omit_proc_timers [of now u] by (simp_all add: wp_iff body)
    define v where "v = u\<lparr>timers := reset_at now ?a (timers u)\<rparr>"
    define w where "w = v\<lparr>timers := reset_at now ?b (timers v)\<rparr>"
    have v: "postponed u v" "timely now v" using timely_reset_at [OF u(1) k(1) now] by (simp_all add: v_def)
    have w: "postponed v w" "timely now w"
      using timely_reset_at [OF postponed_fit [OF u(1) v(1)] v(2) now] by (simp_all add: w_def)
    have wu1: "timers w = timers u1" "free_timers w = free_timers u1" "tm_brk w = tm_brk u1"
      using r by (simp_all add: w_def v_def)
    have post: "postponed u w" using postponed_trans [OF v(1) w(1)] .
    then have "postponed u u1" using wu1 by (simp add: postponed_def tmr_inv_def)
    moreover have "timely now u1" using w(2) wu1 timely_timers [of u1 w] by simp
    moreover have "hooked u1"
      by (rule hooked_cong [OF _ r(4,5) k(2)])
        (use postponed_set [OF \<open>postponed u u1\<close>] in \<open>metis (no_types, lifting) image_image order_refl timer.select_convs timer.surjective timer.update_convs image_cong\<close>)
    moreover have "t \<in> set (timers u1)"
    proof -
      have "?a \<noteq> Some (tm_addr t)" "?b \<noteq> Some (tm_addr t)" using k(2) True u(3) by (auto simp: hooked_def)
      moreover have "distinct (map tm_addr (timers u))" "distinct (map tm_addr (timers v))"
        using u(1) postponed_fit [OF u(1) v(1)] by (simp_all add: timers_fit_def tmr_inv_def timers_ok_def)
      ultimately show ?thesis using u(3) r(1) by (simp add: in_reset_at v_def)
    qed
    ultimately show ?thesis by (simp add: ticking_def)
  qed
  then show "postponed u u1" "ticking now u1" "t \<in> set (timers u1)" by blast+
qed

lemma rearm_ticks:
  assumes "timers_fit u" "ticking now u" "t \<in> set (timers u)" "due now t" "tv_normal now"
  shows "ticking now (tmr_rearm t u)"
proof -
  have n: "tv_normal (tm_time t)" "0 \<le> tm_usecs t" using assms by (auto simp: timers_fit_def ticking_def timely_def)
  have "tm_time t \<le> now" using assms(4) by (simp add: due_def)
  then have "add_usecs (tm_time t) (tm_usecs t) \<le> add_usecs now (tm_usecs t)"
    using n assms(5) by (simp add: tv_le_us add_usecs_normal)
  moreover have s: "set (timers (tmr_rearm t u)) \<subseteq> insert (t\<lparr>tm_time := add_usecs (tm_time t) (tm_usecs t)\<rparr>) (set (timers u))"
    using set_timers_rearm [of t u] assms by (simp add: timers_fit_def)
  ultimately have "timely now (tmr_rearm t u)"
    using assms(2) n by (auto simp: timely_def ticking_def)
  moreover have "hooked (tmr_rearm t u)"
  proof (rule hooked_cong [of _ u])
    show "(\<lambda>t. (tm_proc t, tm_addr t)) ` set (timers (tmr_rearm t u)) \<subseteq> (\<lambda>t. (tm_proc t, tm_addr t)) ` set (timers u)"
      using s assms(3) by (force simp: image_iff)
  qed (use assms(2) in \<open>simp_all add: ticking_def\<close>)
  ultimately show ?thesis by (simp add: ticking_def)
qed

interpretation ticks: timer_procs run_timer_proc ticking
proof
  fix t now and u :: iperf_state
  assume u: "timers_fit u" "tv_normal now" "ticking now u" "t \<in> set (timers u)"
  let ?u1 = "run_timer_proc (tm_proc t) (tm_data t) now u"
  show post: "postponed u ?u1" using run_proc_ticks(1) [OF u(1,3,4,2)] .
  fix t1 assume "due now t" "find_timer (tm_addr t) (timers ?u1) = Some t1"
  moreover have fit1: "timers_fit ?u1" using postponed_fit [OF u(1) post] .
  ultimately have "t1 = t"
    using run_proc_ticks(3) [OF u(1,3,4,2)] find_timer_in [of "timers ?u1" t] by (simp add: timers_fit_def tmr_inv_def)
  with rearm_ticks [OF fit1 run_proc_ticks(2,3) [OF u(1,3,4,2)] \<open>due now t\<close> u(2)]
  show "ticking now (tmr_rearm t1 ?u1)" by simp
qed

text \<open>
  C22: the program's own procedures let \<open>tmr_run\<close> return, the omit timers included, which reset other
  timers in the middle of the run: with a clock that has not gone back behind a timer's start, every
  run ends, however many periods were missed, with the timers in shape for the next one.
\<close>

theorem test_timers_return:
  assumes "timers_fit s" "tv_normal now" "ticking now s"
  shows "\<exists>s'. tmr_run run_timer_proc (Some now) s = Some s' \<and> timers_fit s' \<and> ticking now s' \<and>
    tm_addr ` set (timers s') \<subseteq> tm_addr ` set (timers s)"
  using assms by (rule ticks.returns)

section \<open>The mode of the test\<close>

text \<open>No run of the timers changes the role, the state or the control connection.\<close>

lemma steady_timer_body: "steady (timer_body p cd now)"
proof (cases "omit_proc p \<or> p = Test_timer_proc")
  case True
  have "steady (omit_timer_proc now)"
    unfolding omit_timer_proc_def by (intro frames steady_mod_t calm_reset_stats [THEN calm_steady]; simp add: mode_t_def)
  moreover have "steady test_timer_proc"
    unfolding test_timer_proc_def by (intro frames steady_mod_t; simp add: mode_t_def)
  ultimately show ?thesis using True by (cases p) (auto simp: omit_proc_def)
next
  case False
  then show ?thesis by (intro calm_steady calm_timer_body) simp_all
qed

interpretation mode_ps: blind_procs run_timer_proc mode
proof
  fix p cd now and u :: iperf_state
  show "mode (run_timer_proc p cd now u) = mode u"
    using steady_timer_body [of p cd now] by (simp add: frame_def run_timer_proc_def)
next
  fix t and u :: iperf_state
  show "mode (tmr_rearm t u) = mode u" by (simp add: mode_def)
qed

section \<open>Instances\<close>

definition ex_timed :: iperf_state where
  "ex_timed = ex_state (\<lambda>_. SysRet 0 0 [] [])
     ((default_test test0)\<lparr>t_stats_interval := Fin 0, t_reporter_interval := Fin 0, t_duration := 10\<rparr>)"

lemma ex_timed [simp]: "timers_fit ex_timed" "no_omit ex_timed" "clock ex_timed = Timeval 0 0"
  by (simp_all add: ex_timed_def ex_state_def timers_fit_def tmr_inv_def timers_ok_def no_omit_def clock_def answer_def nth_int_def)


definition ex_omitting :: iperf_state where
  "ex_omitting = (ex_state (\<lambda>_. SysRet 0 0 [] []) ((default_test test0)\<lparr>t_stats_timer := Some 1\<rparr>))
     \<lparr>timers := [ex_timer 0 Client_omit_timer_proc 2000000 False 2, ex_timer 1 Client_stats_timer_proc 1000000 True 2], tm_brk := 2\<rparr>"

theorem test_timers_return_witness:
  "\<exists>s'. tmr_run run_timer_proc (Some (Timeval 2 0)) ex_omitting = Some s' \<and> timers_fit s' \<and>
     tm_addr ` set (timers s') \<subseteq> {0, 1}"
proof -
  have "timers_fit ex_omitting" "ticking (Timeval 2 0) ex_omitting" "tm_addr ` set (timers ex_omitting) = {0, 1}"
    by (auto simp: ex_omitting_def ex_timer_def ex_state_def timers_fit_def tmr_inv_def timers_ok_def tv_normal_def ticking_def
        timely_def hooked_def omit_proc_def default_test_def set_st_def test0_def less_eq_timeval_def add_usecs_def Let_def)
  moreover have "tv_normal (Timeval 2 0)" by (simp add: tv_normal_def)
  ultimately show ?thesis using test_timers_return by metis
qed

end
