(* ===== verification/Client.thy ===== *)
theory Client
  imports Callbacks
begin

text \<open>
  The client (\<open>iperf_client_api.c\<close>): connecting, the state machine driven by the server's messages on
  the control connection, and the loop that moves data and runs the timers.

  The loop ends when the environment lets it, and \<open>tmr_run\<close> need not end either: \<open>iperf_run_client\<close>
  is a partial function, \<open>None\<close> when it does not return. The process may be interrupted by a signal
  at any point; that is \<open>iperf_got_sigend\<close> in \<open>Main_Run\<close>, not part of the loop.
\<close>

section \<open>Connecting\<close>

definition iperf_connect :: "int iperf_m" where
  "iperf_connect = do {
     mod_t (\<lambda>t. t\<lparr>t_read_set := [], t_write_set := []\<rparr>);
     cookie \<leftarrow> make_cookie;
     mod_t (\<lambda>t. t\<lparr>t_cookie := cookie @ [CHR 0x00]\<rparr>);
     t \<leftarrow> get_t id;
     when_m (t_ctrl_sck t < 0) (do {
       s \<leftarrow> netdial (st_domain (t_settings t)) Ptcp (t_bind_address t) 0 (t_server_hostname t) (t_server_port t);
       mod_t (\<lambda>t. t\<lparr>t_ctrl_sck := s\<rparr>) });
     sck \<leftarrow> get_t t_ctrl_sck;
     if sck < 0 then do { set_i_errno IECONNECT; ret (-1) }
     else do {
       w \<leftarrow> Nwrite sck (take COOKIE_SIZE (cookie @ [CHR 0x00]));
       if w < 0 then do { set_i_errno IESENDCOOKIE; ret (-1) }
       else do {
         mod_t (\<lambda>t. t\<lparr>t_read_set := fd_set sck (t_read_set t),
           t_max_fd := (if t_max_fd t < sck then sck else t_max_fd t)\<rparr>);
         ret 0 } } }"

definition watch_stream :: "int \<Rightarrow> iperf_test \<Rightarrow> iperf_test" where
  "watch_stream s t =
     (let t1 = (if t_sender t \<noteq> 0 then t\<lparr>t_write_set := fd_set s (t_write_set t)\<rparr>
                else t\<lparr>t_read_set := fd_set s (t_read_set t)\<rparr>)
      in t1\<lparr>t_max_fd := (if t_max_fd t1 < s then s else t_max_fd t1)\<rparr>)"

text \<open>The streams from number \<open>i\<close> on, \<open>n\<close> of them.\<close>

fun create_streams_from :: "int \<Rightarrow> int \<Rightarrow> nat \<Rightarrow> int iperf_m" where
  "create_streams_from orig_bind_port i 0 = ret 0"
| "create_streams_from orig_bind_port i (Suc n) = do {
     mod_t (\<lambda>t. t\<lparr>t_bind_port := (if orig_bind_port \<noteq> 0 then i32 (orig_bind_port + i) else orig_bind_port)\<rparr>);
     s \<leftarrow> protocol_connect;
     if s < 0 then ret (-1)
     else do {
       mod_t (watch_stream s);
       sp \<leftarrow> iperf_new_stream s;
       case sp of
         None \<Rightarrow> ret (-1)
       | Some p \<Rightarrow> do {
           iperf_on_new_stream p;
           create_streams_from orig_bind_port (i + 1) n } } }"

definition iperf_create_streams :: "int iperf_m" where
  "iperf_create_streams = do {
     t \<leftarrow> get_t id;
     create_streams_from (t_bind_port t) 0 (nat (t_num_streams t)) }"

section \<open>Messages of the server\<close>

definition iperf_client_end :: "int iperf_m" where
  "iperf_client_end = do {
     sps \<leftarrow> get_t t_streams;
     foreach_m sps (\<lambda>sp. do { sck \<leftarrow> get_sp sp sp_socket; close_fd sck });
     iperf_reporter_callback;
     r \<leftarrow> iperf_set_send_state IPERF_DONE;
     ret (if r \<noteq> 0 then -1 else 0) }"

text \<open>The test's own \<open>cpu_util\<close>, and one more report as if the results were to be displayed.\<close>

definition note_cpu_util :: "unit iperf_m" where
  "note_cpu_util = do {
     u \<leftarrow> cpu_util;
     mod_t (\<lambda>t. t\<lparr>t_cpu_util := u\<rparr>) }"

definition final_report :: "unit iperf_m" where
  "final_report = do {
     oldstate \<leftarrow> get_t t_state;
     note_cpu_util;
     mod_t (\<lambda>t. t\<lparr>t_state := DISPLAY_RESULTS\<rparr>);
     iperf_reporter_callback;
     mod_t (\<lambda>t. t\<lparr>t_state := oldstate\<rparr>) }"

text \<open>
  Four bytes into \<open>err\<close>, which holds \<open>old\<close>: bytes that do not arrive keep their value. The result is
  \<open>None\<close> when the read fails.
\<close>

definition read_err :: "string \<Rightarrow> string option iperf_m" where
  "read_err old = do {
     fd \<leftarrow> get_t t_ctrl_sck;
     (r, d) \<leftarrow> Nread fd 4;
     ret (if r < 0 then None else Some (poke 0 d old)) }"

definition handle_server_error :: "int iperf_m" where
  "handle_server_error = do {
     u \<leftarrow> syscall (SUninit 4);
     e1 \<leftarrow> read_err (take 4 (sr_data u @ replicate 4 CHR 0x00));
     case e1 of
       None \<Rightarrow> do { set_i_errno IECTRLREAD; ret (-1) }
     | Some err1 \<Rightarrow> do {
         set_i_errno (i32 (of_be err1));
         e2 \<leftarrow> read_err err1;
         case e2 of
           None \<Rightarrow> do { set_i_errno IECTRLREAD; ret (-1) }
         | Some err2 \<Rightarrow> do {
             set_errno (i32 (of_be err2));
             ret (-1) } } }"

definition start_client_test :: "int iperf_m" where
  "start_client_test = do {
     r1 \<leftarrow> iperf_init_test;
     if r1 < 0 then ret (-1)
     else do {
       r2 \<leftarrow> create_client_timers;
       if r2 < 0 then ret (-1)
       else do {
         r3 \<leftarrow> create_client_omit_timer;
         if r3 < 0 then ret (-1)
         else do {
           reverse \<leftarrow> get_t t_reverse;
           if reverse \<noteq> 0 then ret 0
           else do {
             r4 \<leftarrow> iperf_create_send_timers;
             ret (if r4 < 0 then -1 else 0) } } } } }"

definition client_message :: "int \<Rightarrow> int iperf_m" where
  "client_message st =
     (if st = PARAM_EXCHANGE then do {
        r \<leftarrow> iperf_exchange_parameters;
        if r < 0 then ret (-1) else do { iperf_on_connect; ret 0 } }
      else if st = CREATE_STREAMS then do {
        r \<leftarrow> iperf_create_streams;
        ret (if r < 0 then -1 else 0) }
      else if st = TEST_START then start_client_test
      else if st = TEST_RUNNING then ret 0
      else if st = EXCHANGE_RESULTS then do {
        r \<leftarrow> iperf_exchange_results;
        ret (if r < 0 then -1 else 0) }
      else if st = DISPLAY_RESULTS then do {
        iperf_on_test_finish;
        _ \<leftarrow> iperf_client_end;
        ret 0 }
      else if st = IPERF_DONE then ret 0
      else if st = SERVER_TERMINATE then do {
        set_i_errno IESERVERTERM;
        final_report;
        ret (-1) }
      else if st = ACCESS_DENIED then do { set_i_errno IEACCESSDENIED; ret (-1) }
      else if st = SERVER_ERROR then handle_server_error
      else do { set_i_errno IEMESSAGE; ret (-1) })"

definition iperf_handle_message_client :: "int iperf_m" where
  "iperf_handle_message_client = do {
     fd \<leftarrow> get_t t_ctrl_sck;
     (rval, d) \<leftarrow> sys_read fd 1;
     if rval \<le> 0 then
       (if rval = 0 then do { set_i_errno IECTRLCLOSE; ret (-1) }
        else do { set_i_errno IERECVMESSAGE; ret (-1) })
     else do {
       mod_t (\<lambda>t. t\<lparr>t_state := schar (hd d)\<rparr>);
       client_message (schar (hd d)) } }"

section \<open>The loop\<close>

definition stream_sockets :: "int list iperf_m" where
  "stream_sockets = do {
     sps \<leftarrow> get_t t_streams;
     h \<leftarrow> gets strms;
     ret (map (\<lambda>sp. sp_socket (h sp)) sps) }"

definition set_blocking :: "bool \<Rightarrow> unit iperf_m" where
  "set_blocking nonblocking = do {
     t \<leftarrow> get_t id;
     when_m (\<not> protocol_id_is t Pudp) (do {
       scks \<leftarrow> stream_sockets;
       foreach_m scks (\<lambda>s. do { _ \<leftarrow> setnonblocking s nonblocking; skip_m }) }) }"

definition test_is_done :: "iperf_test \<Rightarrow> bool" where
  "test_is_done t \<longleftrightarrow> t_omitting t = 0 \<and>
     ((t_duration t \<noteq> 0 \<and> t_done t \<noteq> 0) \<or>
      (st_bytes (t_settings t) \<noteq> 0 \<and> st_bytes (t_settings t) \<le> t_bytes_sent t) \<or>
      (st_blocks (t_settings t) \<noteq> 0 \<and> st_blocks (t_settings t) \<le> t_blocks_sent t))"

text \<open>What follows the timers in one round: the end of the test.\<close>

definition client_check_done :: "int iperf_m" where
  "client_check_done = do {
     t \<leftarrow> get_t id;
     if test_is_done t then do {
       set_blocking False;
       mod_t (\<lambda>t. t\<lparr>t_done := 1\<rparr>);
       note_cpu_util;
       iperf_stats_callback;
       r \<leftarrow> iperf_set_send_state TEST_END;
       ret (if r \<noteq> 0 then -1 else 0) }
     else ret 0 }"

text \<open>How the part of a round before the timers ends; the flag is \<open>startup\<close>.\<close>

datatype client_round = Client_return int | Client_next bool | Client_timers bool timeval

definition client_transfer :: "bool \<Rightarrow> selected \<Rightarrow> client_round iperf_m" where
  "client_transfer startup sel = do {
     t \<leftarrow> get_t id;
     if t_state t = TEST_RUNNING then do {
       when_m startup (set_blocking True);
       r \<leftarrow> (if t_reverse t \<noteq> 0 then do { (r, _) \<leftarrow> iperf_recv (sel_read sel); ret r }
            else do { (r, _) \<leftarrow> iperf_send (Some (sel_write sel)); ret r });
       if r < 0 then ret (Client_return (-1))
       else do {
         (_, now) \<leftarrow> gettimeofday;
         ret (Client_timers False now) } }
     else if t_reverse t \<noteq> 0 \<and> t_state t = TEST_END then do {
       (r, _) \<leftarrow> iperf_recv (sel_read sel);
       ret (if r < 0 then Client_return (-1) else Client_next startup) }
     else ret (Client_next startup) }"

definition client_events :: "bool \<Rightarrow> client_round iperf_m" where
  "client_events startup = do {
     sel \<leftarrow> wait_for_events;
     e \<leftarrow> get_errno;
     if sel_result sel < 0 \<and> e \<noteq> EINTR then do { set_i_errno IESELECT; ret (Client_return (-1)) }
     else do {
       sck \<leftarrow> get_t t_ctrl_sck;
       if 0 < sel_result sel \<and> fd_isset sck (sel_read sel) then do {
         r \<leftarrow> iperf_handle_message_client;
         if r < 0 then ret (Client_return (-1))
         else do {
           sck1 \<leftarrow> get_t t_ctrl_sck;
           client_transfer startup (sel\<lparr>sel_read := fd_clr sck1 (sel_read sel)\<rparr>) } }
       else client_transfer startup sel } }"

partial_function (option) client_loop :: "bool \<Rightarrow> iperf_state \<Rightarrow> (int \<times> iperf_state) option" where
  "client_loop startup s =
     (if t_state (tst s) = IPERF_DONE then Some (0, s)
      else case run_state (client_events startup) s of (r, s1) \<Rightarrow>
        (case r of
           Client_return v \<Rightarrow> Some (v, s1)
         | Client_next st1 \<Rightarrow> client_loop st1 s1
         | Client_timers st1 now \<Rightarrow>
             Option.bind (tmr_run run_timer_proc (Some now) s1) (\<lambda>s2.
               case run_state client_check_done s2 of (v, s3) \<Rightarrow>
                 if v < 0 then Some (-1, s3) else client_loop st1 s3)))"

definition client_start :: "int iperf_m" where
  "client_start = do {
     t \<leftarrow> get_t id;
     a \<leftarrow> (if t_affinity t \<noteq> -1 then iperf_setaffinity (t_affinity t) else ret 0);
     if a \<noteq> 0 then ret (-1)
     else do {
       j \<leftarrow> (if t_json_output t \<noteq> 0 then iperf_json_start else ret 0);
       if j < 0 then ret (-1)
       else do {
         announce_version;
         c \<leftarrow> iperf_connect;
         if c < 0 then ret (-1)
         else do { cpu_util_start; ret 0 } } } }"

definition client_finish :: "int iperf_m" where
  "client_finish = do {
     js \<leftarrow> get_t t_json_output;
     r \<leftarrow> (if js \<noteq> 0 then iperf_json_finish
          else do { iprintf nl []; iprintf ''%s'' [PStr report_done]; ret 0 });
     if r < 0 then ret (-1) else do { iflush; ret 0 } }"

definition iperf_run_client :: "iperf_state \<Rightarrow> (int \<times> iperf_state) option" where
  "iperf_run_client s =
     (case run_state client_start s of (r, s1) \<Rightarrow>
        if r < 0 then Some (-1, s1)
        else Option.bind (client_loop True s1) (\<lambda>(v, s2).
          if v < 0 then Some (-1, s2) else Some (run_state client_finish s2)))"

end
