(* ===== verification/Report_Facts.thy ===== *)
theory Report_Facts
  imports Report
begin

text \<open>
  What the reports do and do not do: they leave every measurement alone, and they call Java's
  \<open>onResult\<close> a number of times that depends on the kind of test only.
\<close>

section \<open>What a report leaves alone\<close>

text \<open>The state without the history, \<open>errno\<close> and the outputs of the test.\<close>

definition unreported :: "iperf_test \<Rightarrow> iperf_test" where
  "unreported t = t\<lparr>t_json_top := None, t_server_output_list := [], t_json_server_output := None,
     t_server_output_text := None\<rparr>"

definition measured :: "iperf_state \<Rightarrow> iperf_state" where
  "measured s = s\<lparr>w_trace := [], errno := 0, tst := unreported (tst s)\<rparr>"

text \<open>The number of calls of a Java method.\<close>

definition java_calls :: "string \<Rightarrow> iperf_state \<Rightarrow> nat" where
  "java_calls mth s = length (filter (\<lambda>c. case c of SJni m _ _ _ \<Rightarrow> m = mth | _ \<Rightarrow> False) (w_trace s))"

lemma measured_simps [simp]:
  "measured (after s c) = measured s" "measured (s\<lparr>tst := t\<rparr>) = (measured s)\<lparr>tst := unreported t\<rparr>"
  by (simp_all add: measured_def after_def)

lemma java_calls_simps [simp]:
  "java_calls m (s\<lparr>tst := t\<rparr>) = java_calls m s"
  "java_calls m (after s c) = java_calls m s + (case c of SJni m' _ _ _ \<Rightarrow> (if m' = m then 1 else 0) | _ \<Rightarrow> 0)"
  by (simp_all add: java_calls_def after_def split: syscall.split)

lemma unreported_simps [simp]:
  "unreported (t\<lparr>t_json_top := a\<rparr>) = unreported t" "unreported (t\<lparr>t_server_output_list := b\<rparr>) = unreported t"
  "unreported (t\<lparr>t_json_server_output := a2\<rparr>) = unreported t" "unreported (t\<lparr>t_server_output_text := b2\<rparr>) = unreported t"
  by (simp_all add: unreported_def)

lemma measured_same [simp]: "(measured s)\<lparr>tst := unreported (tst s)\<rparr> = measured s"
  by (simp add: measured_def)

lemma measured_fields [simp]: "strms (measured s) = strms s" "tst (measured s) = unreported (tst s)"
  "t_jniCallback (unreported t) = t_jniCallback t"
  by (simp_all add: measured_def unreported_def)

lemma measured_strms: "measured s = c \<Longrightarrow> strms s = strms c" and measured_tst: "measured s = c \<Longrightarrow> unreported (tst s) = tst c"
  by (auto simp: measured_def)

text \<open>Running \<open>m\<close> where the measurements are \<open>c\<close> keeps them and calls the Java method \<open>k\<close> times.\<close>

definition reports :: "string \<Rightarrow> iperf_state \<Rightarrow> nat \<Rightarrow> 'a iperf_m \<Rightarrow> bool" where
  "reports mth c k m \<longleftrightarrow> (\<forall>s. measured s = c \<longrightarrow>
     measured (snd (run_state m s)) = c \<and> java_calls mth (snd (run_state m s)) = java_calls mth s + k)"

lemma reportsI: "(\<And>s. measured s = c \<Longrightarrow> wp m (\<lambda>_ s'. measured s' = c \<and> java_calls mth s' = java_calls mth s + k) s) \<Longrightarrow>
    reports mth c k m"
  by (simp add: reports_def wp_iff)

lemma reports_bind:
  "reports mth c j m \<Longrightarrow> (\<And>a. reports mth c k (f a)) \<Longrightarrow> reports mth c (j + k) (State_Monad.bind m f)"
  by (simp add: reports_def split: prod.split) (metis add.assoc snd_conv)

lemma reports_silent:
  "reports mth c 0 m \<Longrightarrow> (\<And>a. reports mth c k (f a)) \<Longrightarrow> reports mth c k (State_Monad.bind m f)"
  using reports_bind [of mth c 0 m k f] by simp

lemma reports_get:
  "(\<And>t. unreported t = tst c \<Longrightarrow> reports mth c k (f t)) \<Longrightarrow> reports mth c k (State_Monad.bind (get_t id) f)"
  unfolding reports_def by (intro allI impI) (simp add: measured_tst)

lemma reports_get_field:
  "(\<And>t. unreported t = tst c \<Longrightarrow> reports mth c k (f (g t))) \<Longrightarrow> reports mth c k (State_Monad.bind (get_t g) f)"
  unfolding reports_def by (intro allI impI) (simp add: measured_tst)

lemma reports_get_sp:
  "(reports mth c k (f (strms c sp))) \<Longrightarrow> reports mth c k (State_Monad.bind (get_sp sp id) f)"
  unfolding reports_def
proof (intro allI impI)
  fix s assume a: "\<forall>s. measured s = c \<longrightarrow> measured (snd (run_state (f (strms c sp)) s)) = c \<and>
    java_calls mth (snd (run_state (f (strms c sp)) s)) = java_calls mth s + k" and s: "measured s = c"
  have "run_state (State_Monad.bind (get_sp sp id) f) s = run_state (f (strms c sp)) s"
    using measured_strms [OF s] by simp
  with a s show "measured (snd (run_state (State_Monad.bind (get_sp sp id) f) s)) = c \<and>
    java_calls mth (snd (run_state (State_Monad.bind (get_sp sp id) f) s)) = java_calls mth s + k" by simp
qed

lemma reports_basic:
  "reports mth c 0 (ret a)" "reports mth c 0 skip_m" "reports mth c 0 (get_t g)" "reports mth c 0 (get_sp sp h)"
  by (simp_all add: reports_def)

lemma reports_if: "(b \<Longrightarrow> reports mth c k m) \<Longrightarrow> (\<not> b \<Longrightarrow> reports mth c k n) \<Longrightarrow> reports mth c k (if b then m else n)"
  by simp

lemma reports_when: "(b \<Longrightarrow> reports mth c k m) \<Longrightarrow> (\<not> b \<Longrightarrow> k = 0) \<Longrightarrow> reports mth c k (when_m b m)"
  by (simp add: reports_basic when_m_def)

lemma reports_option:
  "(v = None \<Longrightarrow> reports mth c k m) \<Longrightarrow> (\<And>x. v = Some x \<Longrightarrow> reports mth c k (n x)) \<Longrightarrow>
    reports mth c k (case v of None \<Rightarrow> m | Some x \<Rightarrow> n x)"
  by (simp split: option.split)

lemma reports_quiet:
  "reports mth c 0 (mod_json p f)" "reports mth c 0 (json_add p nm i)" "reports mth c 0 (unit_text x u)"
  "reports mth c 0 (iprintf fmt args)" "reports mth c 0 (iperf_err b fmt args)" "reports mth c 0 iflush"
  "reports mth c 0 (sys_do (SCrash w))" "reports mth c 0 (syscall (SFstat fd))" "reports mth c 0 (syscall (SUninit n))"
  by (rule reportsI; auto simp: mod_json_def json_add_def unit_text_def iprintf_def fprintf_out_def iflush_def
      iperf_err_def err_text_def wp_simps Let_def split: option.split)+

lemma reports_clear:
  "reports mth c 0 (mod_t (\<lambda>t. t\<lparr>t_json_server_output := None\<rparr>))"
  "reports mth c 0 (mod_t (\<lambda>t. t\<lparr>t_server_output_text := None\<rparr>))"
  by (rule reportsI; simp add: wp_simps; (auto simp: measured_def unreported_def)?)+

lemma reports_java:
  "reports mth c (if m = mth \<and> t_jniCallback (tst c) then 1 else 0) (jni_call m ss ns ds)"
  by (rule reportsI) (auto simp: jni_call_def wp_simps)

lemma reports_list:
  "(xs = [] \<Longrightarrow> reports mth c k m) \<Longrightarrow> (\<And>y ys. xs = y # ys \<Longrightarrow> reports mth c k (n y ys)) \<Longrightarrow>
    reports mth c k (case xs of [] \<Rightarrow> m | y # ys \<Rightarrow> n y ys)"
  by (simp split: list.split)

lemmas report_zero = reports_silent reports_basic reports_if reports_when reports_option reports_list reports_quiet reports_clear

lemma reports_java_other: "m \<noteq> mth \<Longrightarrow> reports mth c 0 (jni_call m ss ns ds)"
  using reports_java [of mth c m ss ns ds] by simp

definition heard :: "iperf_state \<Rightarrow> nat" where
  "heard c = (if t_jniCallback (tst c) then 1 else 0)"

lemma reports_on_result: "reports ''onResult'' c (heard c) (on_result st et u n)"
  unfolding on_result_def on_report_bandwidth_def heard_def
  by (intro reports_silent reports_basic) (use reports_java [of "''onResult''" c "''onResult''"] in simp)

lemma reports_on_interval: "reports ''onResult'' c 0 (on_interval st et u n)"
  unfolding on_interval_def on_report_bandwidth_def by (intro report_zero reports_java_other) simp

lemma reports_print_interval: "reports ''onResult'' c 0 (print_interval_results sp)"
  unfolding print_interval_results_def interval_header_def interval_line_def Let_def
  by (intro report_zero reports_on_interval; simp)

lemma reports_sum_intervals: "reports ''onResult'' c 0 (sum_intervals sps x)"
  by (induction sps arbitrary: x) (simp_all only: sum_intervals.simps, (intro report_zero reports_print_interval | assumption)+)

lemma reports_interval_sum: "reports ''onResult'' c 0 (print_interval_sum x)"
  unfolding print_interval_sum_def interval_sum_line_def Let_def
  by (intro report_zero reports_on_interval)

lemma reports_intermediate: "reports ''onResult'' c 0 iperf_print_intermediate"
  unfolding iperf_print_intermediate_def
  by (intro report_zero reports_sum_intervals reports_interval_sum; simp)

lemma same_fields:
  assumes "unreported t = u"
  shows "t_json_output t = t_json_output u" "t_num_streams t = t_num_streams u" "t_reverse t = t_reverse u"
    "t_streams t = t_streams u" "t_sender_has_retransmits t = t_sender_has_retransmits u" "tcp_like t = tcp_like u"
  using assms by (auto simp: unreported_def tcp_like_def protocol_id_is_def)

text \<open>How often a result goes to Java.\<close>

definition sent_reports :: "iperf_test \<Rightarrow> nat" where
  "sent_reports t = (if t_num_streams t = 1 \<and> (tcp_like t \<and> t_sender_has_retransmits t \<noteq> 0 \<or> t_reverse t = 0) then 1 else 0)"

definition received_reports :: "iperf_test \<Rightarrow> nat" where
  "received_reports t = (if t_num_streams t = 1 \<and> tcp_like t \<and> t_reverse t \<noteq> 0 then 1 else 0)"

definition sum_reports :: "iperf_test \<Rightarrow> nat" where
  "sum_reports t = (if 1 < t_num_streams t \<and> (tcp_like t \<or> t_reverse t = 0) then 1 else 0)"

definition result_reports :: "iperf_test \<Rightarrow> nat" where
  "result_reports t = (if t_json_output t = 0 \<and> t_jniCallback t
     then length (t_streams t) * (sent_reports t + received_reports t) + sum_reports t else 0)"

lemma reports_then: "reports mth c k m \<Longrightarrow> (\<And>a. reports mth c 0 (f a)) \<Longrightarrow> reports mth c k (State_Monad.bind m f)"
  using reports_bind [of mth c k m 0 f] by simp

lemma reports_told:
  "k = (if b then heard c else 0) \<Longrightarrow> (\<And>a. reports ''onResult'' c 0 (f a)) \<Longrightarrow>
    reports ''onResult'' c k (State_Monad.bind (when_m b (on_result st et u n)) f)"
  by (intro reports_then reports_when) (use reports_on_result [of c st et u n] in auto)

lemma reports_sent_line: "reports ''onResult'' c (sent_reports t * heard c) (sent_line t st et u n)"
  unfolding sent_line_def Let_def
  by (intro reports_if reports_told; (intro report_zero)?; simp add: sent_reports_def)

lemma reports_diskfile: "reports ''onResult'' c 0 (diskfile_summary t st u)"
  unfolding diskfile_summary_def summary_add_def Let_def by (intro report_zero; simp)

lemma reports_stream_summary:
  "reports ''onResult'' c (if t_json_output (tst c) = 0 then sent_reports (tst c) * heard c + received_reports (tst c) * heard c else 0)
     (stream_summary et sp)"
proof -
  define k1 where "k1 = (if t_json_output (tst c) = 0 then sent_reports (tst c) * heard c else 0)"
  define k2 where "k2 = (if t_json_output (tst c) = 0 then received_reports (tst c) * heard c else 0)"
  have *: "sent_reports t = sent_reports (tst c)" "received_reports t = received_reports (tst c)" if "unreported t = tst c" for t
    using same_fields [OF that] by (simp_all add: sent_reports_def received_reports_def)
  have "reports ''onResult'' c (k1 + k2) (stream_summary et sp)"
    unfolding stream_summary_def Let_def summary_add_def
    apply (intro reports_get)
    apply (rule reports_silent, rule reports_basic)
    apply (rule reports_silent, intro report_zero, simp)
    apply (rule reports_silent, intro report_zero)
    apply (rule reports_silent, intro report_zero)
    apply (rule reports_bind)
    subgoal for t by (intro reports_if) (use same_fields [of t] *[of t] reports_sent_line [of c t] in \<open>auto simp: k1_def reports_quiet\<close>)
    apply (rule reports_silent [OF reports_diskfile], rule reports_silent [OF reports_quiet(3)], rule reports_silent [OF reports_quiet(3)])
    subgoal for t
      by (intro reports_when reports_if reports_told; (intro report_zero)?)
        (use same_fields [of t] *[of t] in \<open>auto simp: k2_def reports_quiet received_reports_def\<close>)
    done
  then show ?thesis by (cases "t_json_output (tst c) = 0") (simp_all add: k1_def k2_def)
qed

lemma reports_summaries:
  "reports ''onResult'' c (length sps * (if t_json_output (tst c) = 0
     then sent_reports (tst c) * heard c + received_reports (tst c) * heard c else 0)) (stream_summaries et sps x)"
proof (induction sps arbitrary: x)
  case Nil
  then show ?case by (simp add: reports_basic)
next
  case (Cons sp sps)
  show ?case
    unfolding stream_summaries.simps length_Cons mult_Suc
    by (intro reports_silent [OF reports_basic(3)] reports_silent [OF reports_basic(4)] reports_bind reports_stream_summary Cons.IH)
qed

lemma reports_sum_tcp:
  assumes "unreported t = tst c"
  shows "reports ''onResult'' c (if t_json_output (tst c) = 0 then heard c else 0) (sum_tcp t x et)"
proof -
  define k1 k2 where "k1 = (if t_json_output (tst c) = 0 \<and> t_reverse (tst c) = 0 then heard c else 0)"
    and "k2 = (if t_json_output (tst c) = 0 \<and> t_reverse (tst c) \<noteq> 0 then heard c else 0)"
  note same = same_fields [OF assms]
  have "reports ''onResult'' c (k1 + k2) (sum_tcp t x et)"
    unfolding sum_tcp_def Let_def
    apply (rule reports_silent [OF reports_quiet(3)], rule reports_silent [OF reports_quiet(3)], rule reports_bind)
    subgoal by (intro reports_if reports_told; (intro report_zero)?) (use same in \<open>auto simp: k1_def reports_quiet\<close>)
    apply (rule reports_silent [OF reports_quiet(3)], rule reports_silent [OF reports_quiet(3)])
    subgoal by (intro reports_if reports_told; (intro report_zero)?) (use same in \<open>auto simp: k2_def reports_quiet\<close>)
    done
  then show ?thesis by (simp add: k1_def k2_def split: if_splits)
qed

lemma reports_sum_udp:
  assumes "unreported t = tst c"
  shows "reports ''onResult'' c (if t_json_output (tst c) = 0 \<and> t_reverse (tst c) = 0 then heard c else 0) (sum_udp t x et)"
  unfolding sum_udp_def Let_def
  by (rule reports_silent [OF reports_quiet(3)], rule reports_silent [OF reports_quiet(3)], intro reports_if reports_told; (intro report_zero)?)
    (use same_fields [OF assms] in \<open>auto simp: reports_quiet\<close>)

lemma reports_rest:
  "reports ''onResult'' c 0 (results_header t)" "reports ''onResult'' c 0 results_end_time"
  "reports ''onResult'' c 0 (cpu_report t)" "reports ''onResult'' c 0 print_server_output"
  unfolding results_header_def results_end_time_def cpu_report_def print_server_output_def Let_def split_beta
  by (intro report_zero; simp)+

lemma reports_print_results: "reports ''onResult'' c (result_reports (tst c)) iperf_print_results"
proof -
  let ?k = "\<lambda>u. if t_json_output u = 0 then sent_reports u * heard c + received_reports u * heard c else 0"
  let ?j = "\<lambda>u. if t_json_output u = 0 then sum_reports u * heard c else 0"
  have "reports ''onResult'' c (length (t_streams t) * ?k (tst c) + ?j (tst c))
      (do { results_header t;
     end_time \<leftarrow> results_end_time;
     x \<leftarrow> stream_summaries end_time (t_streams t) result_sum0;
     when_m (1 < t_num_streams t \<or> t_json_output t \<noteq> 0)
       (if tcp_like t then sum_tcp t x end_time else sum_udp t x end_time);
     cpu_report t;
     print_server_output })" if t: "unreported t = tst c" for t
    apply (rule reports_silent [OF reports_rest(1)], rule reports_silent [OF reports_rest(2)], rule reports_bind, rule reports_summaries)
    apply (rule reports_then)
    subgoal for h et x
      using same_fields [OF t] reports_sum_tcp [OF t, of x et] reports_sum_udp [OF t, of x et]
      by (cases "t_json_output (tst c) = 0"; cases "1 < t_num_streams (tst c)"; cases "tcp_like (tst c)"; cases "t_reverse (tst c) = 0")
        (simp_all add: sum_reports_def when_m_def reports_basic)
    apply (intro reports_silent [OF reports_rest(3)] reports_rest)
    done
  then have "reports ''onResult'' c (length (t_streams (tst c)) * ?k (tst c) + ?j (tst c)) iperf_print_results"
    unfolding iperf_print_results_def
    by (intro reports_get) (use same_fields(4) in \<open>metis (no_types, lifting)\<close>)
  then show ?thesis
    by (cases "t_json_output (tst c) = 0"; cases "t_jniCallback (tst c)")
      (simp_all add: result_reports_def heard_def)
qed

lemma reports_reporter:
  "reports ''onResult'' c (if t_state (tst c) = TEST_END \<or> t_state (tst c) = DISPLAY_RESULTS then result_reports (tst c) else 0)
     iperf_reporter_callback"
proof -
  have seq: "reports ''onResult'' c (0 + result_reports (tst c)) (do { iperf_print_intermediate; iperf_print_results })"
    by (intro reports_bind reports_intermediate reports_print_results)
  show ?thesis
    unfolding iperf_reporter_callback_def
  proof (rule reports_get_field)
    fix t assume "unreported t = tst c"
    from arg_cong [OF this, of t_state] have "t_state t = t_state (tst c)" by (simp add: unreported_def)
    with seq reports_intermediate [of c] reports_basic(2) [of "''onResult''" c]
    show "reports ''onResult'' c (if t_state (tst c) = TEST_END \<or> t_state (tst c) = DISPLAY_RESULTS then result_reports (tst c) else 0)
      (if t_state t = TEST_RUNNING \<or> t_state t = STREAM_RUNNING then iperf_print_intermediate
       else if t_state t = TEST_END \<or> t_state t = DISPLAY_RESULTS then do { iperf_print_intermediate; iperf_print_results }
       else skip_m)"
      by (auto simp: state_defs STREAM_RUNNING_def)
  qed
qed

text \<open>
  A report changes nothing that is measured. Whatever the state, the role and the protocol, the
  reporter leaves streams, timers, counters and settings as they were; it adds to the history of calls,
  to the JSON document and to the output kept for the client, and it consumes the server's output.
\<close>

theorem reporter_measures_nothing:
  "case run_state iperf_reporter_callback s of (_, s') \<Rightarrow> measured s' = measured s"
  using reports_reporter [of "measured s"] by (auto simp: reports_def split: prod.split)

text \<open>
  C20: how often a result reaches Java. At the end of a test the reporter calls \<open>onResult\<close> exactly
  \<open>result_reports\<close> times: not at all in JSON mode or without a callback object; for one stream once for a
  test that sends and once for one that receives, except that a single TCP stream whose retransmissions
  are known is reported twice in reverse mode; for several streams once, for their sum.
\<close>

theorem results_to_java:
  assumes "t_state (tst s) = TEST_END \<or> t_state (tst s) = DISPLAY_RESULTS"
  shows "case run_state iperf_reporter_callback s of (_, s') \<Rightarrow>
    java_calls ''onResult'' s' = java_calls ''onResult'' s + result_reports (tst s)"
proof -
  have "result_reports (unreported (tst s)) = result_reports (tst s)" "t_state (unreported (tst s)) = t_state (tst s)"
    by (simp_all add: result_reports_def unreported_def sent_reports_def received_reports_def sum_reports_def
        tcp_like_def protocol_id_is_def)
  then show ?thesis
    using assms reports_reporter [of "measured s"] by (auto simp: reports_def split: prod.split)
qed

theorem results_to_java_witness:
  "\<exists>s s'. t_reverse (tst s) \<noteq> 0 \<and> t_streams (tst s) = [3] \<and> run_state iperf_reporter_callback s = ((), s') \<and>
     java_calls ''onResult'' s' = 2"
proof -
  define s where "s = (ex_state (\<lambda>_. SysRet 0 0 [] []) (test0\<lparr>t_streams := [3], t_state := DISPLAY_RESULTS,
    t_reverse := 1, t_num_streams := 1, t_protocol := Some tcp_protocol, t_sender_has_retransmits := 1,
    t_jniCallback := True\<rparr>))\<lparr>strms := \<lambda>_. stream0\<rparr>"
  obtain s' where s': "run_state iperf_reporter_callback s = ((), s')"
    by (cases "run_state iperf_reporter_callback s") simp
  have "java_calls ''onResult'' s' = 2"
    using results_to_java [of s] s'
    by (simp add: s_def ex_state_def result_reports_def sent_reports_def received_reports_def sum_reports_def
        tcp_like_def protocol_id_is_def tcp_protocol_def test0_def java_calls_def)
  with s' show ?thesis by (intro exI [of _ s] exI [of _ s']) (simp add: s_def ex_state_def)
qed

end
