(* ===== verification/Client_Facts.thy ===== *)
theory Client_Facts
  imports Client Report_Facts Frame
begin

text \<open>
  The client's side of the control connection: its state after every message of the server, the error
  each refusal is reported as, and the end of its loop.
\<close>

section \<open>What the steps leave alone\<close>

lemma steady_close_all [frames]: "steady (foreach_m sps (\<lambda>sp. do { sck \<leftarrow> get_sp sp sp_socket; close_fd sck }))"
  by (intro frames)

lemma steady_note_cpu [frames]: "steady note_cpu_util"
  unfolding note_cpu_util_def by (intro frames steady_mod_t; simp add: mode_t_def)

lemma steady_watch [frames]: "steady (mod_t (watch_stream s))"
  by (rule steady_mod_t) (simp add: watch_stream_def mode_t_def Let_def)

lemma steady_create_streams [frames]: "steady iperf_create_streams"
proof -
  have "steady (create_streams_from p i n)" for p i n
    by (induction p i n rule: create_streams_from.induct)
      (simp_all only: create_streams_from.simps, (intro frames steady_mod_t | assumption | simp add: mode_t_def)+)
  then show ?thesis unfolding iperf_create_streams_def by (intro frames)
qed

lemma steady_new_timer: "(\<And>a t. mode_t (put a t) = mode_t t) \<Longrightarrow> steady (new_timer now p u per put)"
  unfolding new_timer_def by (intro frames steady_mod_t)

lemma steady_client_timers [frames]: "steady create_client_timers" "steady create_client_omit_timer"
  unfolding create_client_timers_def create_interval_timers_def create_client_omit_timer_def create_omit_timer_def Let_def
  by (intro frames steady_mod_t steady_new_timer; simp add: mode_t_def)+

lemma steady_start_test [frames]: "steady start_client_test"
  unfolding start_client_test_def by (intro frames)

text \<open>The parameters of a client change nothing about its mode; a server sends a state with them.\<close>

lemma client_exchange_steady:
  assumes "t_role (tst s) = CHR ''c''"
  shows "wp iperf_exchange_parameters (\<lambda>r s'. mode s' = mode s) s"
proof -
  have "steady (do { r \<leftarrow> send_parameters; ret (if r < 0 then -1 else (0 :: int)) })" by (intro frames)
  from frame_wp [OF this, of s] show ?thesis
    using assms by (simp add: iperf_exchange_parameters_def wp_simps)
qed

lemma reporter_i_errno: "frame i_errno iperf_reporter_callback"
  unfolding frame_def
proof
  fix s :: iperf_state
  have "measured (snd (run_state iperf_reporter_callback s)) = measured s"
    using reports_reporter [of "measured s"] by (simp add: reports_def)
  then have "i_errno (measured (snd (run_state iperf_reporter_callback s))) = i_errno (measured s)" by simp
  then show "i_errno (snd (run_state iperf_reporter_callback s)) = i_errno s" by (simp add: measured_def)
qed

lemma cpu_i_errno: "frame i_errno note_cpu_util"
  by (simp add: frame_def note_cpu_util_def cpu_util_def getrusage_def Let_def split_beta)

section \<open>The state after a message\<close>

text \<open>
  What the protocol says of the client: the state a message brings it to, for the messages that do not
  end the test with an error.
\<close>

definition client_next :: "int \<Rightarrow> int option" where
  "client_next m =
     (if m = PARAM_EXCHANGE \<or> m = CREATE_STREAMS \<or> m = TEST_START \<or> m = TEST_RUNNING \<or> m = EXCHANGE_RESULTS \<or> m = IPERF_DONE
      then Some m else if m = DISPLAY_RESULTS then Some IPERF_DONE else None)"

definition client_refusal :: "int \<Rightarrow> int" where
  "client_refusal m = (if m = SERVER_TERMINATE then IESERVERTERM else if m = ACCESS_DENIED then IEACCESSDENIED else IEMESSAGE)"

lemmas state_codes = PARAM_EXCHANGE_def CREATE_STREAMS_def TEST_START_def TEST_RUNNING_def EXCHANGE_RESULTS_def
  DISPLAY_RESULTS_def IPERF_DONE_def SERVER_TERMINATE_def ACCESS_DENIED_def SERVER_ERROR_def CLIENT_TERMINATE_def
  TEST_END_def IPERF_START_def

lemma mode_eq: "mode s' = mode s \<longleftrightarrow>
    t_role (tst s') = t_role (tst s) \<and> t_state (tst s') = t_state (tst s) \<and> t_ctrl_sck (tst s') = t_ctrl_sck (tst s)"
  by (simp add: mode_def mode_t_def)

lemma control_mode: "control s' = control s \<Longrightarrow> mode s' = mode s"
  by (simp add: control_def control_t_def mode_def mode_t_def)

definition keeps_place :: "iperf_state \<Rightarrow> iperf_state \<Rightarrow> bool" where
  "keeps_place s s' \<longleftrightarrow> t_role (tst s') = t_role (tst s) \<and> t_ctrl_sck (tst s') = t_ctrl_sck (tst s)"

text \<open>What a message leads to, given the state the test is in when the switch is reached.\<close>

definition message_post :: "int \<Rightarrow> iperf_state \<Rightarrow> int \<Rightarrow> iperf_state \<Rightarrow> bool" where
  "message_post m s r s' \<longleftrightarrow> keeps_place s s' \<and>
     (case client_next m of
        Some st \<Rightarrow> (r = 0 \<or> r = -1) \<and> t_state (tst s') = st
      | None \<Rightarrow> r = -1 \<and> t_state (tst s') = m \<and> (m \<noteq> SERVER_ERROR \<longrightarrow> i_errno s' = client_refusal m))"

lemma wp_steady: "steady m \<Longrightarrow> (\<And>a s'. mode s' = mode s \<Longrightarrow> Q a s') \<Longrightarrow> wp m Q s"
  by (rule wp_mono [OF frame_wp])

lemma wp_ifI: "(b \<Longrightarrow> wp m Q s) \<Longrightarrow> (\<not> b \<Longrightarrow> wp n Q s) \<Longrightarrow> wp (if b then m else n) Q s"
  by simp

lemma client_message_post:
  assumes s: "t_role (tst s) = CHR ''c''" "t_state (tst s) = m"
  shows "wp (client_message m) (message_post m s) s"
proof -
  have stay: "message_post m s r s'" if "client_next m = Some m" "r = 0 \<or> r = -1" "mode s' = mode s" for r s'
    using that s by (simp add: message_post_def keeps_place_def mode_eq)
  have seq: "wp (do { r \<leftarrow> n; ret (if r < 0 then -1 else 0) }) (message_post m s) s"
    if "client_next m = Some m" "steady n" for n :: "int iperf_m"
    using that by (auto simp: wp_simps intro!: wp_steady stay)
  have finish: "wp (do { iperf_on_test_finish; _ \<leftarrow> iperf_client_end; ret 0 }) (message_post m s) s" if "m = DISPLAY_RESULTS"
  proof -
    have "steady iperf_on_test_finish" "steady iperf_reporter_callback" by (intro frames)+
    then have "wp (do { iperf_on_test_finish; _ \<leftarrow> iperf_client_end; ret 0 })
      (\<lambda>r s'. r = (0 :: int) \<and> mode s' = (t_role (tst s), IPERF_DONE, t_ctrl_sck (tst s))) s"
      unfolding iperf_client_end_def
      by (simp only: wp_simps) (intro wp_steady [OF steady_close_all] wp_steady wp_set_send_state; simp add: wp_simps;
        simp add: control_def control_t_def mode_def mode_t_def)
    then show ?thesis
      by (rule wp_mono) (simp add: message_post_def keeps_place_def that client_next_def state_codes mode_def mode_t_def)
  qed
  have last: "wp final_report (\<lambda>_ s'. mode s' = mode u \<and> i_errno s' = i_errno u) u" for u
  proof -
    have "steady iperf_reporter_callback" by (intro frames)
    then show ?thesis
      unfolding final_report_def
      by (simp only: wp_simps) (rule wp_mono [OF wp_conj [OF frame_wp [OF steady_note_cpu] frame_wp [OF cpu_i_errno]]],
        rule wp_mono [OF wp_conj [OF frame_wp frame_wp [OF reporter_i_errno]]], assumption, simp add: mode_def mode_t_def)
  qed
  have hello: "wp (do { r \<leftarrow> iperf_exchange_parameters; if r < 0 then ret (-1) else do { iperf_on_connect; ret 0 } }) (message_post m s) s"
    if "client_next m = Some m"
  proof -
    have "steady iperf_on_connect" by (intro frames)
    then have "wp iperf_on_connect (\<lambda>_. message_post m s 0) u" if "mode u = mode s" for u
      by (rule wp_steady) (use that \<open>client_next m = Some m\<close> in \<open>auto intro!: stay\<close>)
    then show ?thesis
      using that by (auto simp: wp_simps intro!: stay wp_mono [OF client_exchange_steady [OF s(1)]])
  qed
  have refuse: "message_post m s (-1) s'"
    if "client_next m = None" "mode s' = mode s" "m \<noteq> SERVER_ERROR \<Longrightarrow> i_errno s' = client_refusal m" for s'
    using that s by (simp add: message_post_def keeps_place_def mode_eq)
  have steadies: "steady iperf_exchange_results" "steady start_client_test" "steady iperf_create_streams" by (intro frames)+
  have error: "wp handle_server_error (message_post m s) s" if "m = SERVER_ERROR"
  proof -
    have "steady handle_server_error" unfolding handle_server_error_def read_err_def by (intro frames)
    moreover have "wp handle_server_error (\<lambda>r _. r = -1) s"
      unfolding handle_server_error_def by (auto simp: wp_simps wp_iff split_beta split: option.split)
    ultimately have "wp handle_server_error (\<lambda>r s'. mode s' = mode s \<and> r = -1) s" by (intro wp_conj frame_wp)
    moreover have "client_next m = None" using that by (simp add: client_next_def state_codes)
    ultimately show ?thesis by (elim wp_mono) (metis refuse that)
  qed
  have stop: "wp (do { set_i_errno IESERVERTERM; final_report; ret (-1) }) (message_post m s) s" if "m = SERVER_TERMINATE"
    by (simp only: wp_simps)
      (rule wp_mono [OF last], rule refuse; use that in \<open>simp add: client_next_def client_refusal_def state_codes mode_def mode_t_def\<close>)
  have start: "wp start_client_test (message_post m s) s" if "client_next m = Some m"
  proof -
    have "wp start_client_test (\<lambda>r _. r = 0 \<or> r = -1) s"
      unfolding start_client_test_def by (auto simp: wp_simps wp_iff split_beta)
    with steady_start_test have "wp start_client_test (\<lambda>r s'. mode s' = mode s \<and> (r = 0 \<or> r = -1)) s" by (intro wp_conj frame_wp)
    then show ?thesis by (rule wp_mono) (use that in \<open>simp add: stay\<close>)
  qed
  show ?thesis
    unfolding client_message_def
    apply (intro wp_ifI)
    subgoal by (rule hello) (simp add: client_next_def)
    subgoal by (rule seq) (auto simp: client_next_def steadies)
    subgoal by (rule start) (simp add: client_next_def)
    subgoal unfolding wp_return by (rule stay) (auto simp: client_next_def)
    subgoal by (rule seq) (auto simp: client_next_def steadies)
    subgoal by (rule finish)
    subgoal unfolding wp_return by (rule stay) (auto simp: client_next_def)
    subgoal by (rule stop)
    subgoal unfolding wp_bind wp_set_i_errno wp_return
      by (rule refuse) (auto simp: client_next_def client_refusal_def state_codes mode_def)
    subgoal by (rule error)
    subgoal unfolding wp_bind wp_set_i_errno wp_return
      by (rule refuse) (auto simp: client_next_def client_refusal_def state_codes mode_def)
    done
qed


section \<open>The end of the loop\<close>

lemma steady_wait [frames]: "steady wait_for_events"
  unfolding wait_for_events_def select_fds_def Let_def by (intro frames)

text \<open>A round in which the server's message is handled.\<close>

lemma client_events_message:
  assumes "run_state wait_for_events s = (sel, s1)" "0 < sel_result sel" "fd_isset (t_ctrl_sck (tst s)) (sel_read sel)"
    and "run_state iperf_handle_message_client s1 = (r, s2)" "0 \<le> r"
  shows "run_state (client_events startup) s =
    run_state (client_transfer startup (sel\<lparr>sel_read := fd_clr (t_ctrl_sck (tst s2)) (sel_read sel)\<rparr>)) s2"
proof -
  have "t_ctrl_sck (tst s1) = t_ctrl_sck (tst s)" using frameD [OF steady_wait assms(1)] by (simp add: mode_eq)
  then show ?thesis using assms by (simp add: client_events_def)
qed

text \<open>The round in which the server announces its results.\<close>

lemma results_round:
  assumes "t_role (tst s) = CHR ''c''"
    and "run_state wait_for_events s = (sel, s1)" "0 < sel_result sel" "fd_isset (t_ctrl_sck (tst s)) (sel_read sel)"
    and "read_result 1 (answer s1 (SRead (t_ctrl_sck (tst s)) 1)) = (1, [c])" "schar c = DISPLAY_RESULTS"
  shows "\<exists>s2. run_state (client_events startup) s = (Client_next startup, s2) \<and> t_state (tst s2) = IPERF_DONE"
proof -
  let ?cl = "SRead (t_ctrl_sck (tst s)) 1"
  have m1: "t_role (tst s1) = CHR ''c''" "t_ctrl_sck (tst s1) = t_ctrl_sck (tst s)"
    using frameD [OF steady_wait assms(2)] assms(1) by (simp_all add: mode_eq)
  note rd = assms(5) [unfolded One_nat_def]
  define u where "u = (after s1 ?cl)\<lparr>tst := (tst s1)\<lparr>t_state := DISPLAY_RESULTS\<rparr>\<rparr>"
  obtain r s2 where h: "run_state iperf_handle_message_client s1 = (r, s2)" by fastforce
  have hm: "run_state iperf_handle_message_client s1 = run_state (client_message DISPLAY_RESULTS) u"
    using rd m1(2) assms(6) by (simp add: iperf_handle_message_client_def u_def)
  have r: "r = 0"
    using h unfolding hm by (simp add: client_message_def state_codes split_beta)
  have "message_post DISPLAY_RESULTS u r s2"
    using wpD [OF client_message_post [of u DISPLAY_RESULTS]] h m1 unfolding hm by (simp add: u_def)
  then have st: "t_state (tst s2) = IPERF_DONE" by (simp add: message_post_def client_next_def state_codes)
  then show ?thesis
    using client_events_message [OF assms(2-4) h] r by (simp add: client_transfer_def state_codes)
qed

text \<open>
  C23: the loop of the client ends. When the results of the server are announced in a round, that round
  is the last: the client reports, sends \<open>IPERF_DONE\<close> and leaves the loop with 0, whatever becomes of
  the report and of that message.
\<close>

theorem results_end_client:
  assumes "t_role (tst s) = CHR ''c''" "t_state (tst s) \<noteq> IPERF_DONE"
    and "run_state wait_for_events s = (sel, s1)" "0 < sel_result sel" "fd_isset (t_ctrl_sck (tst s)) (sel_read sel)"
    and "read_result 1 (answer s1 (SRead (t_ctrl_sck (tst s)) 1)) = (1, [c])" "schar c = DISPLAY_RESULTS"
  shows "\<exists>s2. client_loop startup s = Some (0, s2) \<and> t_state (tst s2) = IPERF_DONE"
proof -
  obtain s2 where s2: "run_state (client_events startup) s = (Client_next startup, s2)" "t_state (tst s2) = IPERF_DONE"
    using results_round [OF assms(1,3-7)] by blast
  then have "client_loop startup s = client_loop startup s2"
    using assms(2) by (subst client_loop.simps) simp
  also have "\<dots> = Some (0, s2)" using s2(2) by (subst client_loop.simps) simp
  finally show ?thesis using s2(2) by blast
qed

section \<open>Errors of the server\<close>

text \<open>A peer that takes every byte, and one that delivers given bytes in order.\<close>

definition accepting :: "iperf_state \<Rightarrow> bool" where
  "accepting s \<longleftrightarrow> (\<forall>fd b tr. w_oracle s (SWrite fd b # tr) = SysRet (int (length b)) 0 [] [])"

fun asked_for :: "int \<Rightarrow> syscall list \<Rightarrow> nat" where
  "asked_for fd [] = 0"
| "asked_for fd (c # tr) = (case c of SRead f n \<Rightarrow> (if f = fd then n else 0) | _ \<Rightarrow> 0) + asked_for fd tr"

definition delivers :: "int \<Rightarrow> string \<Rightarrow> iperf_state \<Rightarrow> bool" where
  "delivers fd bytes s \<longleftrightarrow> asked_for fd (w_trace s) = 0 \<and>
     (\<forall>n tr. w_oracle s (SRead fd n # tr) = SysRet (int n) 0 (take n (drop (asked_for fd tr) bytes)) [])"

lemma accepting_after [simp]: "accepting (after s c) = accepting s" "accepting (s\<lparr>tst := t\<rparr>) = accepting s"
  by (simp_all add: accepting_def)

lemma Nwrite_whole:
  assumes "accepting s" "b \<noteq> []" "length b < 2 ^ 31"
  shows "run_state (Nwrite fd b) s = (int (length b), after s (SWrite fd b))"
  using assms by (simp add: Nwrite_def Nwrite_loop.simps accepting_def answer_def write_result_def cint_simps)

lemma accepting_answer: "accepting s \<Longrightarrow> answer s (SWrite fd b) = SysRet (int (length b)) 0 [] []"
  by (simp add: accepting_def answer_def)

lemma be32_nonempty [simp]: "be32 x \<noteq> []" "length (be32 x) = 4"
  by (simp_all add: be32_def)

lemma i32_of_be32: "in_i32 x \<Longrightarrow> i32 (of_be (be32 x)) = x"
  by (simp add: of_be_be32_u32 i32_unsigned i32_in)

text \<open>What the server sends: the state and the two numbers.\<close>

lemma send_server_error_run:
  assumes "accepting s"
  defines "fd \<equiv> t_ctrl_sck (tst s)"
  shows "run_state send_server_error s =
    (-1, after (after (after (s\<lparr>tst := (tst s)\<lparr>t_state := SERVER_ERROR\<rparr>\<rparr>) (SWrite fd [byte_of SERVER_ERROR])) (SWrite fd (be32 (i_errno s))))
       (SWrite fd (be32 (errno s))))"
  using assms
  by (simp add: send_server_error_def iperf_set_send_state_def Nwrite_whole accepting_answer)

lemma Nread_delivered:
  assumes "w_oracle s (SRead fd 4 # w_trace s) = SysRet 4 0 d []" "length d = 4"
  shows "run_state (Nread fd 4) s = ((4, d), after s (SRead fd 4))"
  using Nread_whole [of 4 s fd d] assms by (simp add: answer_def read_result_def)

text \<open>
  C17: the reason for which a server turns a client away arrives whole: what the server writes on the
  control connection, read by the client, gives the client the server's \<open>i_errno\<close> and its \<open>errno\<close>, in
  network byte order and with their signs.
\<close>

theorem server_error_round_trip:
  assumes "accepting sv" "in_i32 (i_errno sv)" "in_i32 (errno sv)"
    and "run_state send_server_error sv = (r, sv')"
    and "delivers (t_ctrl_sck (tst cl))
      (drop (length (sent_of (t_ctrl_sck (tst sv)) sv)) (sent_of (t_ctrl_sck (tst sv)) sv')) cl"
  shows "\<exists>cl'. run_state iperf_handle_message_client cl = (-1, cl') \<and> i_errno cl' = i_errno sv \<and> errno cl' = errno sv"
proof -
  let ?fd = "t_ctrl_sck (tst cl)" and ?b = "byte_of SERVER_ERROR" and ?i = "be32 (i_errno sv)" and ?e = "be32 (errno sv)"
  have s0: "sent_of fd (sv\<lparr>tst := t\<rparr>) = sent_of fd sv" for fd t by (simp add: sent_of_def)
  have bytes: "drop (length (sent_of (t_ctrl_sck (tst sv)) sv)) (sent_of (t_ctrl_sck (tst sv)) sv') = ?b # ?i @ ?e"
    using assms(1,4) by (simp add: send_server_error_run sent_of_after s0 answer_def accepting_def write_result_def)
      (auto simp: sent_of_after s0 answer_def accepting_def write_result_def)
  have orc: "w_oracle cl (SRead ?fd n # tr) = SysRet (int n) 0 (take n (drop (asked_for ?fd tr) (?b # ?i @ ?e))) []" for n tr
    using assms(5) unfolding bytes by (simp add: delivers_def)
  have tr: "asked_for ?fd (w_trace cl) = 0" using assms(5) by (simp add: delivers_def)
  define c1 where "c1 = (after cl (SRead ?fd 1))\<lparr>tst := (tst cl)\<lparr>t_state := SERVER_ERROR\<rparr>\<rparr>"
  have "schar ?b = SERVER_ERROR" by (simp add: schar_def of_char_byte SERVER_ERROR_def)
  then have h: "run_state iperf_handle_message_client cl = run_state handle_server_error c1"
    using orc [of 1 "w_trace cl"] tr
    by (simp add: iperf_handle_message_client_def answer_def read_result_def c1_def client_message_def state_codes)
  define c2 where "c2 = after c1 (SUninit 4)"
  have r2: "run_state (Nread ?fd 4) c2 = ((4, ?i), after c2 (SRead ?fd 4))"
    by (rule Nread_delivered) (simp_all add: c2_def c1_def orc tr)
  define c3 where "c3 = (after c2 (SRead ?fd 4))\<lparr>i_errno := i_errno sv\<rparr>"
  have r3: "run_state (Nread ?fd 4) c3 = ((4, ?e), after c3 (SRead ?fd 4))"
    by (rule Nread_delivered) (simp_all add: c3_def c2_def c1_def orc tr)
  have fd: "t_ctrl_sck (tst c2) = ?fd" "t_ctrl_sck (tst c3) = ?fd" by (simp_all add: c3_def c2_def c1_def)
  have poke: "poke 0 d old = d" if "length d = 4" "length old = 4" for d old :: string
    using that by (simp add: poke_def)
  have "run_state handle_server_error c1 = (-1, (after c3 (SRead ?fd 4))\<lparr>errno := errno sv\<rparr>)"
    by (simp add: handle_server_error_def read_err_def flip: c2_def)
      (simp add: fd r2 r3 poke i32_of_be32 assms(2,3) flip: c3_def)
  then show ?thesis by (simp add: h c3_def c2_def c1_def)
qed

section \<open>Instances\<close>

text \<open>A server that makes the control connection readable and sends the same byte whenever it is read.\<close>

definition ex_says :: "int \<Rightarrow> syscall list \<Rightarrow> sysret" where
  "ex_says m tr = (case tr of
     SRead fd n # _ \<Rightarrow> SysRet 1 0 [byte_of m] []
   | SSelect n rs ws t # _ \<Rightarrow> SysRet 1 0 [] [0, 0, 10]
   | _ \<Rightarrow> SysRet 0 0 [] [])"

definition ex_connected :: "int \<Rightarrow> iperf_state" where
  "ex_connected m = ex_state (ex_says m)
     ((default_test test0)\<lparr>t_role := CHR ''c'', t_ctrl_sck := 5, t_read_set := [5], t_state := EXCHANGE_RESULTS\<rparr>)"

lemma ex_connected_simps [simp]: "t_role (tst (ex_connected m)) = CHR ''c''" "t_ctrl_sck (tst (ex_connected m)) = 5"
  "t_state (tst (ex_connected m)) = EXCHANGE_RESULTS" "w_oracle (ex_connected m) = ex_says m" "w_trace (ex_connected m) = []"
  "timers (ex_connected m) = []" "t_read_set (tst (ex_connected m)) = [5]"
  by (simp_all add: ex_connected_def ex_state_def)


lemma ex_wait:
  "\<exists>sel s1. run_state wait_for_events (ex_connected m) = (sel, s1) \<and> 0 < sel_result sel \<and> fd_isset 5 (sel_read sel) \<and>
     w_oracle s1 = ex_says m"
  by (cases "run_state wait_for_events (ex_connected m)")
    (auto simp: wait_for_events_def select_fds_def tmr_timeout_def Let_def answer_def ex_says_def fd_isset_def)

lemma schar_results: "schar (Wire.byte_of DISPLAY_RESULTS) = DISPLAY_RESULTS"
  by (simp add: schar_def of_char_byte DISPLAY_RESULTS_def)

theorem results_end_client_witness:
  "\<exists>s'. client_loop False (ex_connected DISPLAY_RESULTS) = Some (0, s') \<and> t_state (tst s') = IPERF_DONE"
proof -
  obtain sel s1 where w: "run_state wait_for_events (ex_connected DISPLAY_RESULTS) = (sel, s1)"
    "0 < sel_result sel" "fd_isset 5 (sel_read sel)" "w_oracle s1 = ex_says DISPLAY_RESULTS"
    using ex_wait by blast
  with schar_results show ?thesis
    by (intro results_end_client [OF _ _ w(1)]) (simp_all add: state_codes answer_def ex_says_def read_result_def)
qed

definition ex_refusing :: iperf_state where
  "ex_refusing = (ex_state (\<lambda>tr. case tr of SWrite fd b # _ \<Rightarrow> SysRet (int (length b)) 0 [] [] | _ \<Rightarrow> SysRet 0 0 [] []) ex_server)
     \<lparr>i_errno := IESTREAMLISTEN, errno := 98\<rparr>"

definition ex_refused :: iperf_state where
  "ex_refused = ex_state (\<lambda>tr. case tr of
       SRead fd n # tr1 \<Rightarrow> SysRet (int n) 0 (take n (drop (asked_for 5 tr1) (byte_of SERVER_ERROR # be32 IESTREAMLISTEN @ be32 98))) []
     | _ \<Rightarrow> SysRet 0 0 [] []) ((default_test test0)\<lparr>t_role := CHR ''c'', t_ctrl_sck := 5\<rparr>)"

theorem server_error_round_trip_witness:
  "\<exists>s'. run_state iperf_handle_message_client ex_refused = (-1, s') \<and> i_errno s' = IESTREAMLISTEN \<and> errno s' = 98"
proof -
  have acc: "accepting ex_refusing" by (simp add: accepting_def ex_refusing_def ex_state_def)
  obtain r s' where run: "run_state send_server_error ex_refusing = (r, s')" by fastforce
  have f: "t_ctrl_sck (tst ex_refusing) = 5" "i_errno ex_refusing = IESTREAMLISTEN" "errno ex_refusing = 98"
    "t_ctrl_sck (tst ex_refused) = 5" "w_trace ex_refusing = []"
    by (simp_all add: ex_refusing_def ex_refused_def ex_state_def ex_server_def)
  have "sent_of 5 s' = byte_of SERVER_ERROR # be32 IESTREAMLISTEN @ be32 98" "sent_of 5 ex_refusing = []"
    using run acc f by (auto simp: send_server_error_run sent_of_def accepting_def write_result_def)
  then have "delivers 5 (drop (length (sent_of 5 ex_refusing)) (sent_of 5 s')) ex_refused"
    by (simp add: delivers_def ex_refused_def ex_state_def)
  then show ?thesis
    using server_error_round_trip [OF acc _ _ run, of ex_refused] f by (simp add: in_i32_def IESTREAMLISTEN_def)
qed

end
