(* ===== verification/Server.thy ===== *)
theory Server
  imports Client
begin

text \<open>
  The server (\<open>iperf_server_api.c\<close>): listening, accepting the control connection and the streams, the
  messages of the client, and the loop. Like the client's loop it is a partial function.
\<close>

section \<open>Listening and accepting\<close>

text \<open>
  The jump back to \<open>retry\<close> is taken at most once for each of the two families that allow it, since the
  domain is then \<open>AF_INET\<close>; two attempts are all there can be.
\<close>

fun announce_retry :: "nat \<Rightarrow> int iperf_m" where
  "announce_retry 0 = ret (-1)"
| "announce_retry (Suc n) = do {
     t \<leftarrow> get_t id;
     l \<leftarrow> netannounce (st_domain (t_settings t)) Ptcp (t_bind_address t) (t_server_port t);
     mod_t (\<lambda>t. t\<lparr>t_listener := l\<rparr>);
     if 0 \<le> l then ret 0
     else do {
       e \<leftarrow> get_errno;
       if e = EAFNOSUPPORT \<and> (st_domain (t_settings t) = AF_INET6 \<or> st_domain (t_settings t) = AF_UNSPEC) then do {
         warning ''this system does not seem to support IPv6 - trying IPv4'';
         mod_t (set_st (\<lambda>s. s\<lparr>st_domain := AF_INET\<rparr>));
         announce_retry n }
       else do { set_i_errno IELISTEN; ret (-1) } } }"

definition server_rule :: string where
  "server_rule = ''-----------------------------------------------------------'' @ nl"

definition iperf_server_listen :: "int iperf_m" where
  "iperf_server_listen = do {
     r \<leftarrow> announce_retry 2;
     if r < 0 then ret (-1)
     else do {
       t \<leftarrow> get_t id;
       when_m (t_json_output t = 0) (do {
         iprintf server_rule [];
         iprintf (''Server listening on %d'' @ nl) [PInt (t_server_port t)];
         iprintf server_rule [] });
       mod_t (\<lambda>t. t\<lparr>t_read_set := fd_set (t_listener t) [], t_write_set := [],
         t_max_fd := (if t_max_fd t < t_listener t then t_listener t else t_max_fd t)\<rparr>);
       ret 0 } }"

text \<open>What \<open>Nread\<close> leaves of the old cookie when it delivers fewer bytes stays.\<close>

definition accept_client :: "int \<Rightarrow> int iperf_m" where
  "accept_client s = do {
     mod_t (\<lambda>t. t\<lparr>t_ctrl_sck := s\<rparr>);
     (r, d) \<leftarrow> Nread s COOKIE_SIZE;
     if r < 0 then do { set_i_errno IERECVCOOKIE; ret (-1) }
     else do {
       mod_t (\<lambda>t. t\<lparr>t_cookie := poke 0 d (t_cookie t), t_read_set := fd_set s (t_read_set t),
         t_max_fd := (if t_max_fd t < s then s else t_max_fd t)\<rparr>);
       w \<leftarrow> iperf_set_send_state PARAM_EXCHANGE;
       if w \<noteq> 0 then ret (-1)
       else do {
         x \<leftarrow> iperf_exchange_parameters;
         if x < 0 then ret (-1)
         else do {
           aff \<leftarrow> get_t t_server_affinity;
           a \<leftarrow> (if aff \<noteq> -1 then iperf_setaffinity aff else ret 0);
           if a \<noteq> 0 then ret (-1)
           else do { iperf_on_connect; ret 0 } } } } }"

definition iperf_accept :: "int iperf_m" where
  "iperf_accept = do {
     t \<leftarrow> get_t id;
     s \<leftarrow> sys_val (SAccept (t_listener t));
     if s < 0 then do { set_i_errno IEACCEPT; ret (-1) }
     else if t_ctrl_sck t = -1 then accept_client s
     else do {
       w \<leftarrow> Nwrite s [byte_of ACCESS_DENIED];
       if w < 0 then do { set_i_errno IESENDMESSAGE; ret (-1) }
       else do { close_fd s; ret 0 } } }"

section \<open>Messages of the client\<close>

definition close_streams :: "unit iperf_m" where
  "close_streams = do {
     sps \<leftarrow> get_t t_streams;
     foreach_m sps (\<lambda>sp. do {
       sck \<leftarrow> get_sp sp sp_socket;
       mod_t (\<lambda>t. t\<lparr>t_read_set := fd_clr sck (t_read_set t), t_write_set := fd_clr sck (t_write_set t)\<rparr>);
       close_fd sck }) }"

definition server_test_end :: "int iperf_m" where
  "server_test_end = do {
     mod_t (\<lambda>t. t\<lparr>t_done := 1\<rparr>);
     note_cpu_util;
     iperf_stats_callback;
     close_streams;
     iperf_reporter_callback;
     r1 \<leftarrow> iperf_set_send_state EXCHANGE_RESULTS;
     if r1 \<noteq> 0 then ret (-1)
     else do {
       r2 \<leftarrow> iperf_exchange_results;
       if r2 < 0 then ret (-1)
       else do {
         r3 \<leftarrow> iperf_set_send_state DISPLAY_RESULTS;
         if r3 \<noteq> 0 then ret (-1)
         else do { iperf_on_test_finish; ret 0 } } } }"

definition server_message :: "int \<Rightarrow> int iperf_m" where
  "server_message st =
     (if st = TEST_START then ret 0
      else if st = TEST_END then server_test_end
      else if st = IPERF_DONE then ret 0
      else if st = CLIENT_TERMINATE then do {
        set_i_errno IECLIENTTERM;
        final_report;
        iperf_err True ''the client has terminated'' [];
        close_streams;
        mod_t (\<lambda>t. t\<lparr>t_state := IPERF_DONE\<rparr>);
        ret 0 }
      else do { set_i_errno IEMESSAGE; ret (-1) })"

definition iperf_handle_message_server :: "int iperf_m" where
  "iperf_handle_message_server = do {
     fd \<leftarrow> get_t t_ctrl_sck;
     (rval, d) \<leftarrow> Nread fd 1;
     if rval \<le> 0 then
       (if rval = 0 then do {
          iperf_err True ''the client has unexpectedly closed the connection'' [];
          set_i_errno IECTRLCLOSE;
          mod_t (\<lambda>t. t\<lparr>t_state := IPERF_DONE\<rparr>);
          ret 0 }
        else do { set_i_errno IERECVMESSAGE; ret (-1) })
     else do {
       mod_t (\<lambda>t. t\<lparr>t_state := schar (hd d)\<rparr>);
       server_message (schar (hd d)) } }"

section \<open>Resetting and cleaning up\<close>

text \<open>Not called any more. \<open>affinity\<close>, \<open>server_hostname\<close> and \<open>diskfile_name\<close> are cleared here only.\<close>

definition iperf_test_reset :: "unit iperf_m" where
  "iperf_test_reset = do {
     sck \<leftarrow> get_t t_ctrl_sck;
     close_fd sck;
     free_streams;
     reset_timer t_timer (\<lambda>t. t\<lparr>t_timer := None\<rparr>);
     reset_timer t_stats_timer (\<lambda>t. t\<lparr>t_stats_timer := None\<rparr>);
     reset_timer t_reporter_timer (\<lambda>t. t\<lparr>t_reporter_timer := None\<rparr>);
     mod_t (\<lambda>t. t\<lparr>t_done := 0, t_streams := [], t_role := CHR ''s''\<rparr>);
     _ \<leftarrow> set_protocol Ptcp;
     mod_t (\<lambda>t. t\<lparr>t_omit := OMIT, t_duration := DURATION, t_diskfile_name := None, t_affinity := -1,
       t_server_affinity := -1, t_title := None, t_congestion := None, t_state := 0, t_server_hostname := None,
       t_ctrl_sck := -1, t_prot_listener := -1, t_bytes_sent := 0, t_reverse := 0, t_sender := 0,
       t_sender_has_retransmits := 0, t_no_delay := 0, t_read_set := fd_set (t_listener t) [], t_write_set := [],
       t_max_fd := t_listener t, t_num_streams := 1, t_cookie := zero_cookie\<rparr>);
     mod_t (set_st (\<lambda>s. s\<lparr>st_socket_bufsize := 0, st_blksize := DEFAULT_TCP_BLKSIZE, st_rate := 0, st_mss := 0\<rparr>)) }"

definition cleanup_server :: "unit iperf_m" where
  "cleanup_server = do {
     t \<leftarrow> get_t id;
     close_fd (t_ctrl_sck t);
     close_fd (t_listener t);
     reset_timer t_stats_timer (\<lambda>t. t\<lparr>t_stats_timer := None\<rparr>);
     reset_timer t_reporter_timer (\<lambda>t. t\<lparr>t_reporter_timer := None\<rparr>);
     reset_timer t_omit_timer (\<lambda>t. t\<lparr>t_omit_timer := None\<rparr>) }"

section \<open>The loop\<close>

text \<open>
  The steps of a round either go on with a value or make the function clean up and return: the local
  variables a round changes are the number of streams accepted and the two copies of the sets.
\<close>

text \<open>A stream of the client on the protocol's listener; \<open>None\<close> ends the loop.\<close>

definition accept_stream :: "nat \<Rightarrow> nat option iperf_m" where
  "accept_stream streams_accepted = do {
     s \<leftarrow> protocol_accept;
     if s < 0 then ret None
     else do {
       c \<leftarrow> is_closed s;
       if c \<noteq> 0 then ret (Some streams_accepted)
       else do {
         sp \<leftarrow> iperf_new_stream s;
         case sp of
           None \<Rightarrow> ret None
         | Some p \<Rightarrow> do {
             mod_t (watch_stream s);
             t \<leftarrow> get_t id;
             when_m (\<not> protocol_id_is t Pudp \<or> t_sender t = 0) (do { _ \<leftarrow> setnonblocking s True; skip_m });
             iperf_on_new_stream p;
             ret (Some (Suc streams_accepted)) } } } }"

text \<open>All streams are there: the listener of the streams goes, or the control listener comes back.\<close>

definition restore_listener :: "bool iperf_m" where
  "restore_listener = do {
     t \<leftarrow> get_t id;
     if \<not> protocol_id_is t Ptcp then do {
       mod_t (\<lambda>t. t\<lparr>t_read_set := fd_clr (t_prot_listener t) (t_read_set t)\<rparr>);
       close_fd (t_prot_listener t);
       ret True }
     else if t_no_delay t \<noteq> 0 \<or> st_mss (t_settings t) \<noteq> 0 \<or> st_socket_bufsize (t_settings t) \<noteq> 0 then do {
       mod_t (\<lambda>t. t\<lparr>t_read_set := fd_clr (t_listener t) (t_read_set t)\<rparr>);
       close_fd (t_listener t);
       s \<leftarrow> netannounce (st_domain (t_settings t)) Ptcp (t_bind_address t) (t_server_port t);
       if s < 0 then ret False
       else do {
         mod_t (\<lambda>t. t\<lparr>t_listener := s, t_read_set := fd_set s (t_read_set t),
           t_max_fd := (if t_max_fd t < s then s else t_max_fd t)\<rparr>);
         ret True } }
     else ret True }"

definition start_server_test :: "bool iperf_m" where
  "start_server_test = do {
     mod_t (\<lambda>t. t\<lparr>t_prot_listener := -1\<rparr>);
     r1 \<leftarrow> iperf_set_send_state TEST_START;
     if r1 \<noteq> 0 then ret False
     else do {
       r2 \<leftarrow> iperf_init_test;
       if r2 < 0 then ret False
       else do {
         r3 \<leftarrow> create_server_timers;
         if r3 < 0 then ret False
         else do {
           r4 \<leftarrow> create_server_omit_timer;
           if r4 < 0 then ret False
           else do {
             reverse \<leftarrow> get_t t_reverse;
             r5 \<leftarrow> (if reverse \<noteq> 0 then iperf_create_send_timers else ret 0);
             if r5 < 0 then ret False
             else do {
               r6 \<leftarrow> iperf_set_send_state TEST_RUNNING;
               ret (r6 = 0) } } } } } }"

text \<open>The block for the state \<open>CREATE_STREAMS\<close>: \<open>None\<close> when the function returns -1.\<close>

definition server_create_streams :: "nat \<Rightarrow> int list \<Rightarrow> (nat \<times> int list) option iperf_m" where
  "server_create_streams streams_accepted read_set = do {
     t \<leftarrow> get_t id;
     a \<leftarrow> (if fd_isset (t_prot_listener t) read_set then accept_stream streams_accepted
          else ret (Some streams_accepted));
     case a of
       None \<Rightarrow> do { cleanup_server; ret None }
     | Some n \<Rightarrow> do {
         t1 \<leftarrow> get_t id;
         let rs = (if fd_isset (t_prot_listener t) read_set then fd_clr (t_prot_listener t1) read_set else read_set);
         if int n \<noteq> t_num_streams t1 then ret (Some (n, rs))
         else do {
           ok \<leftarrow> restore_listener;
           if \<not> ok then do { cleanup_server; set_i_errno IELISTEN; ret None }
           else do {
             ok1 \<leftarrow> start_server_test;
             if \<not> ok1 then do { cleanup_server; ret None }
             else ret (Some (n, rs)) } } } }"

definition server_transfer :: "int list \<Rightarrow> int list \<Rightarrow> bool iperf_m" where
  "server_transfer read_set write_set = do {
     t \<leftarrow> get_t id;
     if t_state t \<noteq> TEST_RUNNING then ret True
     else do {
       r \<leftarrow> (if t_reverse t \<noteq> 0 then do { (r, _) \<leftarrow> iperf_send (Some write_set); ret r }
            else do { (r, _) \<leftarrow> iperf_recv read_set; ret r });
       if r < 0 then do { cleanup_server; ret False } else ret True } }"

text \<open>
  What a round does with the descriptors that are ready. The control socket may be a new one when the
  client was accepted in the same round.
\<close>

definition server_ready :: "nat \<Rightarrow> selected \<Rightarrow> nat option iperf_m" where
  "server_ready streams_accepted sel = do {
     t \<leftarrow> get_t id;
     let knocking = fd_isset (t_listener t) (sel_read sel) \<and> t_state t \<noteq> CREATE_STREAMS;
     a \<leftarrow> (if knocking then iperf_accept else ret 0);
     if a < 0 then do { cleanup_server; ret None }
     else do {
       t1 \<leftarrow> get_t id;
       let rs = (if knocking then fd_clr (t_listener t1) (sel_read sel) else sel_read sel);
       let called = fd_isset (t_ctrl_sck t1) rs;
       m \<leftarrow> (if called then iperf_handle_message_server else ret 0);
       if m < 0 then do { cleanup_server; ret None }
       else do {
         t2 \<leftarrow> get_t id;
         let rs1 = (if called then fd_clr (t_ctrl_sck t2) rs else rs);
         c \<leftarrow> (if t_state t2 = CREATE_STREAMS then server_create_streams streams_accepted rs1
              else ret (Some (streams_accepted, rs1)));
         case c of
           None \<Rightarrow> ret None
         | Some (n, rs2) \<Rightarrow> do {
             ok \<leftarrow> server_transfer rs2 (sel_write sel);
             ret (if ok then Some n else None) } } } }"

text \<open>A round before the timers: it returns, goes on, or runs the timers at a time.\<close>

datatype server_round = Server_return int | Server_next nat | Server_timers nat timeval

definition server_events :: "nat \<Rightarrow> server_round iperf_m" where
  "server_events streams_accepted = do {
     sel \<leftarrow> wait_for_events;
     e \<leftarrow> get_errno;
     if sel_result sel < 0 \<and> e \<noteq> EINTR then do {
       cleanup_server; set_i_errno IESELECT; ret (Server_return (-1)) }
     else do {
       r \<leftarrow> (if 0 < sel_result sel then server_ready streams_accepted sel else ret (Some streams_accepted));
       case r of
         None \<Rightarrow> ret (Server_return (-1))
       | Some n \<Rightarrow>
           if sel_result sel = 0 \<or> sel_timeout sel = Some (Timeval 0 0) then do {
             (_, now) \<leftarrow> gettimeofday;
             ret (Server_timers n now) }
           else ret (Server_next n) } }"

partial_function (option) server_loop :: "nat \<Rightarrow> iperf_state \<Rightarrow> (int \<times> iperf_state) option" where
  "server_loop n s =
     (if t_state (tst s) = IPERF_DONE then Some (0, s)
      else case run_state (server_events n) s of (r, s1) \<Rightarrow>
        (case r of
           Server_return v \<Rightarrow> Some (v, s1)
         | Server_next m \<Rightarrow> server_loop m s1
         | Server_timers m now \<Rightarrow>
             Option.bind (tmr_run run_timer_proc (Some now) s1) (\<lambda>s2. server_loop m s2)))"

definition server_start :: "int iperf_m" where
  "server_start = do {
     t \<leftarrow> get_t id;
     a \<leftarrow> (if t_affinity t \<noteq> -1 then iperf_setaffinity (t_affinity t) else ret 0);
     if a \<noteq> 0 then ret (-2)
     else do {
       j \<leftarrow> (if t_json_output t \<noteq> 0 then iperf_json_start else ret 0);
       if j < 0 then ret (-2)
       else do {
         announce_version;
         l \<leftarrow> iperf_server_listen;
         if l < 0 then ret (-2)
         else do {
           cpu_util_start;
           mod_t (\<lambda>t. t\<lparr>t_state := IPERF_START\<rparr>);
           ret 0 } } } }"

definition server_finish :: "int iperf_m" where
  "server_finish = do {
     cleanup_server;
     js \<leftarrow> get_t t_json_output;
     r \<leftarrow> (if js \<noteq> 0 then iperf_json_finish else ret 0);
     if r < 0 then ret (-1)
     else do {
       iflush;
       aff \<leftarrow> get_t t_server_affinity;
       c \<leftarrow> (if aff \<noteq> -1 then iperf_clearaffinity else ret 0);
       ret (if c \<noteq> 0 then -1 else 0) } }"

definition iperf_run_server :: "iperf_state \<Rightarrow> (int \<times> iperf_state) option" where
  "iperf_run_server s =
     (case run_state server_start s of (r, s1) \<Rightarrow>
        if r < 0 then Some (r, s1)
        else Option.bind (server_loop 0 s1) (\<lambda>(v, s2).
          if v < 0 then Some (v, s2) else Some (run_state server_finish s2)))"

end
