(* ===== verification/Server_Facts.thy ===== *)
theory Server_Facts
  imports Server Client_Facts
begin

text \<open>
  The server's side of the control connection: what a second client gets, what the messages of the
  client lead to, and what is left of a run of the server when it returns.
\<close>

section \<open>Listening\<close>

text \<open>Two attempts at a listener are all there are: after the first the domain is IPv4.\<close>

lemma announce_retry_inet:
  assumes "st_domain (t_settings (tst s)) = AF_INET"
  shows "run_state (announce_retry (Suc m)) s = run_state (announce_retry (Suc 0)) s"
  using assms by (simp add: AF_INET_def AF_INET6_def AF_UNSPEC_def split: prod.split)

lemma announce_retry_enough: "run_state (announce_retry (Suc (Suc m))) s = run_state (announce_retry 2) s"
proof -
  have "run_state (announce_retry (Suc m)) u = run_state (announce_retry (Suc 0)) u"
    if "st_domain (t_settings (tst u)) = AF_INET" for u
    using that by (rule announce_retry_inet)
  then show ?thesis
    unfolding numeral_2_eq_2 announce_retry.simps(2) [of "Suc m"] announce_retry.simps(2) [of "Suc 0"]
    by (auto simp: set_st_def split: prod.split simp del: announce_retry.simps)
qed

section \<open>A busy server\<close>

lemma Nwrite_byte: "\<exists>w. run_state (Nwrite fd [b]) s = (w, after s (SWrite fd [b]))"
proof -
  let ?r = "write_result [b] (answer s (SWrite fd [b]))"
  have "?r \<le> 1" using write_result_bounds(2) [of "[b]"] by simp
  then consider "?r < 0" | "?r = 0" | "?r = 1" by linarith
  then show ?thesis by cases (simp_all add: Nwrite_def Nwrite_loop.simps)
qed

text \<open>
  C16: a server that has a client turns the next one away without touching the running test: the test,
  its streams and its timers are as before, the newcomer gets a prefix of the one byte
  \<open>ACCESS_DENIED\<close> and nothing is read from it. The descriptor is closed again unless the byte cannot be
  written; then the run of the server ends with an error, the test that was running with it.
\<close>

theorem busy_server_denies:
  assumes "t_ctrl_sck (tst s) \<noteq> -1" "run_state iperf_accept s = (r, s')"
  shows "let fd = sr_val (answer s (SAccept (t_listener (tst s)))) in
    tst s' = tst s \<and> strms s' = strms s \<and> timers s' = timers s \<and>
    (if fd < 0 then r = -1 \<and> i_errno s' = IEACCEPT
     else (\<exists>k. sent_of fd s' = sent_of fd s @ take k [byte_of ACCESS_DENIED]) \<and> received_of fd s' = received_of fd s \<and>
       (r = 0 \<and> fds_of s' = fds_of s \<or> r = -1 \<and> i_errno s' = IESENDMESSAGE \<and> fds_of s' = fd # fds_of s))"
proof -
  let ?a = "SAccept (t_listener (tst s))"
  define fd where "fd = sr_val (answer s ?a)"
  obtain w where w: "run_state (Nwrite fd [byte_of ACCESS_DENIED]) (after s ?a) =
      (w, after (after s ?a) (SWrite fd [byte_of ACCESS_DENIED]))"
    using Nwrite_byte by blast
  have sent: "\<exists>k. sent_of fd (after (after s ?a) (SWrite fd [byte_of ACCESS_DENIED])) = sent_of fd s @ take k [byte_of ACCESS_DENIED]"
    by (auto simp: sent_of_after)
  have run: "(r, s') = (if fd < 0 then (-1, (after s ?a)\<lparr>i_errno := IEACCEPT\<rparr>)
      else let u = after (after s ?a) (SWrite fd [byte_of ACCESS_DENIED])
           in if w < 0 then (-1, u\<lparr>i_errno := IESENDMESSAGE\<rparr>) else (0, after u (SClose fd)))"
    using assms w by (auto simp: iperf_accept_def fd_def Let_def close_fd_def split: if_splits)
  have more: "fds_of (x\<lparr>i_errno := e\<rparr>) = fds_of x" "sent_of f (x\<lparr>i_errno := e\<rparr>) = sent_of f x"
      "received_of f (x\<lparr>i_errno := e\<rparr>) = received_of f x" for x :: iperf_state and e f
    by (simp_all add: fds_of_def sent_of_def received_of_def)
  show ?thesis
  proof (cases "fd < 0")
    case True
    then show ?thesis using run by (simp add: fd_def)
  next
    case False
    then have fds: "fds_of (after s ?a) = fd # fds_of s" by (simp add: fds_of_after fd_def)
    show ?thesis
      using run False sent
      by (cases "w < 0") (simp_all add: more fds fds_of_after [of _ "SWrite _ _"] fds_of_after [of _ "SClose _"] received_of_after
        sent_of_after [of _ _ "SClose _"] flip: fd_def)
  qed
qed

section \<open>The state after a message\<close>

lemma calm_note_cpu [frames]: "calm note_cpu_util"
  unfolding note_cpu_util_def cpu_util_def getrusage_def Let_def nth_int_def sock_defs Ptcp_def
  by (intro frames calm_modify calm_mod_t; simp add: control_def control_t_def)

lemma calm_close_streams [frames]: "calm close_streams"
  unfolding close_streams_def by (intro frames calm_mod_t; simp add: control_t_def)

lemma wp_calm: "calm m \<Longrightarrow> (\<And>a s'. control s' = control s \<Longrightarrow> Q a s') \<Longrightarrow> wp m Q s"
  by (rule wp_mono [OF frame_wp])

lemma control_state: "control s' = control s \<Longrightarrow> t_state (tst s') = t_state (tst s) \<and> t_done (tst s') = t_done (tst s) \<and>
    t_role (tst s') = t_role (tst s) \<and> t_ctrl_sck (tst s') = t_ctrl_sck (tst s)"
  by (simp add: control_def control_t_def)

definition test_end_post :: "int \<Rightarrow> iperf_state \<Rightarrow> bool" where
  "test_end_post r s \<longleftrightarrow> t_done (tst s) = 1 \<and>
     (r = 0 \<and> t_state (tst s) = DISPLAY_RESULTS \<or> r = -1 \<and> t_state (tst s) \<in> {EXCHANGE_RESULTS, DISPLAY_RESULTS})"

lemma control_set: "control s' = control (u\<lparr>tst := (tst u)\<lparr>t_state := st\<rparr>\<rparr>) \<Longrightarrow> t_state (tst s') = st \<and> t_done (tst s') = t_done (tst u)"
  by (simp add: control_def control_t_def)

lemma server_test_end_post:
  "wp server_test_end test_end_post s"
proof -
  have c: "calm iperf_stats_callback" "calm iperf_reporter_callback" "calm iperf_exchange_results" "calm iperf_on_test_finish"
    by (intro frames)+
  have last: "wp (do { r3 \<leftarrow> iperf_set_send_state DISPLAY_RESULTS;
      if r3 \<noteq> 0 then ret (-1) else do { iperf_on_test_finish; ret 0 } }) test_end_post u"
    if "t_done (tst u) = 1" for u
    unfolding wp_bind using that
    by (intro wp_set_send_state) (auto simp: wp_simps test_end_post_def control_def control_t_def intro!: wp_calm [OF c(4)])
  have mid: "wp (do { r1 \<leftarrow> iperf_set_send_state EXCHANGE_RESULTS;
      if r1 \<noteq> 0 then ret (-1)
      else do {
        r2 \<leftarrow> iperf_exchange_results;
        if r2 < 0 then ret (-1)
        else do { r3 \<leftarrow> iperf_set_send_state DISPLAY_RESULTS;
          if r3 \<noteq> 0 then ret (-1) else do { iperf_on_test_finish; ret 0 } } } }) test_end_post u"
    if "t_done (tst u) = 1" for u
    unfolding wp_bind [of "iperf_set_send_state EXCHANGE_RESULTS"]
  proof (rule wp_set_send_state)
    fix r and v :: iperf_state
    assume "control v = control (u\<lparr>tst := (tst u)\<lparr>t_state := EXCHANGE_RESULTS\<rparr>\<rparr>)"
    from control_set [OF this] that have v: "t_state (tst v) = EXCHANGE_RESULTS" "t_done (tst v) = 1" by simp_all
    have "wp iperf_exchange_results (\<lambda>r2. wp (if r2 < 0 then ret (-1)
        else do { r3 \<leftarrow> iperf_set_send_state DISPLAY_RESULTS;
          if r3 \<noteq> 0 then ret (-1) else do { iperf_on_test_finish; ret 0 } }) test_end_post) v"
    proof (rule wp_calm [OF c(3)])
      fix r2 and w :: iperf_state
      assume "control w = control v"
      from control_state [OF this] v have w: "t_state (tst w) = EXCHANGE_RESULTS" "t_done (tst w) = 1" by simp_all
      show "wp (if r2 < 0 then ret (-1)
        else do { r3 \<leftarrow> iperf_set_send_state DISPLAY_RESULTS;
          if r3 \<noteq> 0 then ret (-1) else do { iperf_on_test_finish; ret 0 } }) test_end_post w"
        using w last [OF w(2)] by (simp add: wp_if wp_return test_end_post_def)
    qed
    then show "wp (if r \<noteq> 0 then ret (-1)
      else do {
        r2 \<leftarrow> iperf_exchange_results;
        if r2 < 0 then ret (-1)
        else do { r3 \<leftarrow> iperf_set_send_state DISPLAY_RESULTS;
          if r3 \<noteq> 0 then ret (-1) else do { iperf_on_test_finish; ret 0 } } }) test_end_post v"
      using v by (simp add: wp_if wp_return wp_bind [of iperf_exchange_results] test_end_post_def)
  qed
  have pre: "calm (do { note_cpu_util; iperf_stats_callback; close_streams; iperf_reporter_callback })" by (intro frames)
  have eq: "server_test_end = do { mod_t (\<lambda>t. t\<lparr>t_done := 1\<rparr>);
      do { note_cpu_util; iperf_stats_callback; close_streams; iperf_reporter_callback };
      r1 \<leftarrow> iperf_set_send_state EXCHANGE_RESULTS;
      if r1 \<noteq> 0 then ret (-1)
      else do {
        r2 \<leftarrow> iperf_exchange_results;
        if r2 < 0 then ret (-1)
        else do { r3 \<leftarrow> iperf_set_send_state DISPLAY_RESULTS;
          if r3 \<noteq> 0 then ret (-1) else do { iperf_on_test_finish; ret 0 } } } }"
    by (simp add: server_test_end_def)
  show ?thesis
    unfolding eq wp_bind [of "mod_t _"] wp_mod_t
    by (subst wp_bind, rule wp_calm [OF pre], rule mid, drule control_state) simp
qed

lemma frame_err_i_errno: "frame i_errno (iperf_err b fmt args)"
  by (simp add: frame_def iperf_err_def err_text_def json_add_def mod_json_def fprintf_out_def split_beta)

lemma frame_close_i_errno: "frame i_errno close_streams"
  unfolding close_streams_def by (intro frames) (simp_all add: frame_def close_fd_def)

text \<open>When the client terminates, the server reports, closes the streams and is through.\<close>

lemma client_terminate_post:
  "wp (do { set_i_errno IECLIENTTERM; final_report; iperf_err True ''the client has terminated'' []; close_streams;
      mod_t (\<lambda>t. t\<lparr>t_state := IPERF_DONE\<rparr>); ret (0 :: int) })
    (\<lambda>r s'. r = 0 \<and> t_state (tst s') = IPERF_DONE \<and> i_errno s' = IECLIENTTERM) s"
proof -
  have f: "frame i_errno final_report"
    unfolding final_report_def
    by (intro frame_bind cpu_i_errno reporter_i_errno) (simp_all add: frame_def)
  have "frame i_errno (do { final_report; iperf_err True ''the client has terminated'' []; close_streams })"
    by (intro frame_bind f frame_err_i_errno frame_close_i_errno)
  from frame_wp [OF this, of "s\<lparr>i_errno := IECLIENTTERM\<rparr>"] show ?thesis
    by (simp add: wp_iff split_beta)
qed

lemma server_answers:
  assumes "run_state (Nread (t_ctrl_sck (tst s)) 1) s = ((n, d), s1)" "run_state iperf_handle_message_server s = (r, s')"
  shows "if n < 0 then r = -1 \<and> i_errno s' = IERECVMESSAGE \<and> t_state (tst s') = t_state (tst s)
    else if n = 0 then r = 0 \<and> i_errno s' = IECTRLCLOSE \<and> t_state (tst s') = IPERF_DONE
    else let m = schar (hd d) in
      if m = TEST_END then t_done (tst s') = 1 \<and>
        (r = 0 \<and> t_state (tst s') = DISPLAY_RESULTS \<or> r = -1 \<and> t_state (tst s') \<in> {EXCHANGE_RESULTS, DISPLAY_RESULTS})
      else if m = CLIENT_TERMINATE then r = 0 \<and> t_state (tst s') = IPERF_DONE \<and> i_errno s' = IECLIENTTERM
      else if m = TEST_START \<or> m = IPERF_DONE then r = 0 \<and> t_state (tst s') = m
      else r = -1 \<and> t_state (tst s') = m \<and> i_errno s' = IEMESSAGE"
proof -
  have t1: "tst s1 = tst s" using os_only_iperf [OF os_only_net(1) assms(1)] by simp
  let ?m = "schar (hd d)"
  define u where "u = s1\<lparr>tst := (tst s1)\<lparr>t_state := ?m\<rparr>\<rparr>"
  consider "n < 0" | "n = 0" | "0 < n" by linarith
  then show ?thesis
  proof cases
    case 1
    then show ?thesis using assms t1 by (auto simp: iperf_handle_message_server_def)
  next
    case 2
    have "run_state (do { iperf_err True ''the client has unexpectedly closed the connection'' []; set_i_errno IECTRLCLOSE;
        mod_t (\<lambda>t. t\<lparr>t_state := IPERF_DONE\<rparr>); ret (0 :: int) }) s1 = (r, s')"
      using assms 2 by (simp add: iperf_handle_message_server_def)
    then show ?thesis using 2 by (auto simp: split_beta)
  next
    case 3
    have m: "run_state (server_message ?m) u = (r, s')"
      using assms 3 by (simp add: iperf_handle_message_server_def u_def)
    consider "?m = TEST_END" | "?m = CLIENT_TERMINATE" | "?m = TEST_START \<or> ?m = IPERF_DONE"
      | "?m \<noteq> TEST_END" "?m \<noteq> CLIENT_TERMINATE" "?m \<noteq> TEST_START" "?m \<noteq> IPERF_DONE" by blast
    then show ?thesis
    proof cases
      case 1
      then have "run_state server_test_end u = (r, s')" using m by (simp add: server_message_def state_codes)
      from wpD [OF server_test_end_post this] show ?thesis using 1 3 by (simp add: test_end_post_def)
    next
      case 2
      then have "run_state (do { set_i_errno IECLIENTTERM; final_report; iperf_err True ''the client has terminated'' []; close_streams;
          mod_t (\<lambda>t. t\<lparr>t_state := IPERF_DONE\<rparr>); ret (0 :: int) }) u = (r, s')"
        using m by (simp add: server_message_def state_codes)
      from wpD [OF client_terminate_post this] show ?thesis using 2 \<open>0 < n\<close> by (simp add: state_codes)
    next
      case c: 3
      then show ?thesis using m 3 by (auto simp: server_message_def u_def state_codes)
    next
      case 4
      then show ?thesis using m 3 by (auto simp: server_message_def u_def)
    qed
  qed
qed

text \<open>
  C4: the server's state after every message of the client. A finished test leads to the results being
  displayed, or to the error return while they are exchanged, and the test is done either way; the
  client's termination, its last message and the end of the connection end the run; anything else is
  an error.
\<close>

theorem server_answers_client:
  assumes "run_state (Nread (t_ctrl_sck (tst s)) 1) s = ((n, d), s1)" "run_state iperf_handle_message_server s = (r, s')"
  shows "if n < 0 then r = -1 \<and> i_errno s' = IERECVMESSAGE \<and> t_state (tst s') = t_state (tst s)
    else if n = 0 then r = 0 \<and> i_errno s' = IECTRLCLOSE \<and> t_state (tst s') = IPERF_DONE
    else let m = schar (hd d) in
      if m = TEST_END then t_done (tst s') = 1 \<and>
        (r = 0 \<and> t_state (tst s') = DISPLAY_RESULTS \<or> r = -1 \<and> t_state (tst s') \<in> {EXCHANGE_RESULTS, DISPLAY_RESULTS})
      else if m = CLIENT_TERMINATE then r = 0 \<and> t_state (tst s') = IPERF_DONE \<and> i_errno s' = IECLIENTTERM
      else if m = TEST_START \<or> m = IPERF_DONE then r = 0 \<and> t_state (tst s') = m
      else r = -1 \<and> t_state (tst s') = m \<and> i_errno s' = IEMESSAGE"
  by (rule server_answers [OF assms])

section \<open>What a run leaves\<close>

text \<open>No timer of the test is left.\<close>

definition cleaned :: "iperf_state \<Rightarrow> bool" where
  "cleaned s \<longleftrightarrow> t_stats_timer (tst s) = None \<and> t_reporter_timer (tst s) = None \<and> t_omit_timer (tst s) = None"

lemma cleanup_cleans: "wp cleanup_server (\<lambda>_ s'. cleaned s') s"
  unfolding cleanup_server_def reset_timer_def close_fd_def tmr_cancel_def
  by (auto simp: wp_simps cleaned_def tmr_cancel_st_def split: option.split)

lemma calm_cleaned: "calm m \<Longrightarrow> frame cleaned m"
  by (auto simp: frame_def control_def control_t_def cleaned_def split_beta)

text \<open>An operation that leaves no timer of the test when its result is a final one.\<close>

definition ends :: "('a \<Rightarrow> bool) \<Rightarrow> 'a iperf_m \<Rightarrow> bool" where
  "ends b m \<longleftrightarrow> (\<forall>s. wp m (\<lambda>a s'. b a \<longrightarrow> cleaned s') s)"

lemma ends_cleanup: "(\<And>a. frame cleaned (m a)) \<Longrightarrow> ends b (State_Monad.bind cleanup_server m)"
  unfolding ends_def wp_bind
  by (intro allI wp_mono [OF cleanup_cleans] wp_mono [OF frame_wp]) auto

lemma ends_bind: "(\<And>a. ends b (n a)) \<Longrightarrow> ends b (State_Monad.bind m n)"
  by (simp add: ends_def wp_bind wp_def split_beta)

lemma ends_return: "\<not> b a \<Longrightarrow> ends b (ret a)"
  by (simp add: ends_def wp_return)

lemma ends_if: "(c \<Longrightarrow> ends b m) \<Longrightarrow> (\<not> c \<Longrightarrow> ends b n) \<Longrightarrow> ends b (if c then m else n)"
  by simp

lemma ends_option: "(v = None \<Longrightarrow> ends b m) \<Longrightarrow> (\<And>x. v = Some x \<Longrightarrow> ends b (n x)) \<Longrightarrow> ends b (case v of None \<Rightarrow> m | Some x \<Rightarrow> n x)"
  by (cases v) simp_all

lemma ends_pair: "(\<And>x y. ends b (m x y)) \<Longrightarrow> ends b (case v of (x, y) \<Rightarrow> m x y)"
  by (cases v) simp

lemma ends_then:
  assumes "ends b m" "\<And>a. b a \<Longrightarrow> frame cleaned (n a)" "\<And>a. \<not> b a \<Longrightarrow> ends c (n a)"
  shows "ends c (State_Monad.bind m n)"
  unfolding ends_def wp_bind
proof (intro allI wp_mono [OF assms(1) [unfolded ends_def, rule_format]])
  fix a and s :: iperf_state
  assume "b a \<longrightarrow> cleaned s"
  then show "wp (n a) (\<lambda>a s. c a \<longrightarrow> cleaned s) s"
    using assms(3) [of a] frame_wp [OF assms(2) [of a], of s]
    by (cases "b a") (auto simp: ends_def elim!: wp_mono)
qed

lemma frame_cleaned_set_i_errno: "frame cleaned (set_i_errno e)"
  by (simp add: frame_def cleaned_def)

lemmas ends_intros = ends_cleanup ends_bind ends_if ends_option ends_pair frame_return frame_bind frame_cleaned_set_i_errno

lemma ends_create_streams: "ends (\<lambda>a. a = None) (server_create_streams n rs)"
  unfolding server_create_streams_def Let_def
  by (intro ends_intros; simp add: ends_return)

lemma ends_transfer: "ends Not (server_transfer rs ws)"
  unfolding server_transfer_def Let_def
  by (intro ends_intros; simp add: ends_return)

lemma ends_create_if: "ends (\<lambda>a. a = None) (if b then server_create_streams n rs else ret (Some x))"
  by (simp add: ends_create_streams ends_return)

lemma ends_ready: "ends (\<lambda>a. a = None) (server_ready n sel)"
  unfolding server_ready_def Let_def
  by (rule ends_then [OF ends_create_if] ends_then [OF ends_transfer] ends_cleanup ends_if ends_option ends_pair ends_bind
      frame_return | simp add: ends_return frame_return)+

lemma ends_ready_if: "ends (\<lambda>a. a = None) (if b then server_ready n sel else ret (Some x))"
  by (simp add: ends_ready ends_return)

definition returns_of :: "server_round \<Rightarrow> bool" where
  "returns_of r \<longleftrightarrow> (\<exists>v. r = Server_return v)"

lemma ends_events: "ends returns_of (server_events n)"
  unfolding server_events_def Let_def
  by (rule ends_then [OF ends_ready_if] ends_cleanup ends_if ends_option ends_pair ends_bind
      frame_return frame_bind frame_cleaned_set_i_errno | simp add: ends_return frame_return returns_of_def)+

lemma server_returns: "wp (server_events n) (\<lambda>r _. \<forall>v. r = Server_return v \<longrightarrow> v = -1) s"
  by (simp add: server_events_def wp_def split_beta split: option.split)

text \<open>How the loop can end: through a clean-up with -1, or with the test over.\<close>

definition loop_end :: "int \<Rightarrow> iperf_state \<Rightarrow> bool" where
  "loop_end v s \<longleftrightarrow> v = -1 \<and> cleaned s \<or> v = 0 \<and> t_state (tst s) = IPERF_DONE"

lemma server_loop_ends: "server_loop n s = Some y \<Longrightarrow> loop_end (fst y) (snd y)"
proof (induction n s y rule: server_loop.raw_induct [rotated 1, consumes 1, case_names step])
  case (step loop n s y)
  show ?case
  proof (cases "t_state (tst s) = IPERF_DONE")
    case True
    then show ?thesis using step.hyps by (auto simp: loop_end_def)
  next
    case False
    obtain r s1 where e: "run_state (server_events n) s = (r, s1)" by fastforce
    have post: "returns_of r \<longrightarrow> cleaned s1" "\<forall>v. r = Server_return v \<longrightarrow> v = -1"
      using wpD [OF ends_events [unfolded ends_def, rule_format] e] wpD [OF server_returns e] by auto
    show ?thesis
      using step.hyps post False
      by (cases r) (auto simp: e loop_end_def returns_of_def bind_eq_Some_conv dest!: step.IH [unfolded loop_end_def])
  qed
qed

lemma calm_json_finish [frames]: "calm iperf_json_finish" "calm iperf_clearaffinity"
  unfolding iperf_json_finish_def iperf_clearaffinity_def Let_def
  by (intro frames calm_mod_t; simp add: control_t_def)+

lemma steady_finish: "steady server_finish"
  unfolding server_finish_def cleanup_server_def reset_timer_def
  by (intro frames steady_mod_t calm_json_finish [THEN calm_steady] ; simp add: mode_t_def)

lemma ends_finish: "ends (\<lambda>_. True) server_finish"
  unfolding server_finish_def 
  by (intro ends_cleanup frames calm_cleaned)

lemma server_starts: "wp server_start (\<lambda>r _. r = 0 \<or> r = -2) s"
  by (simp add: server_start_def wp_def split_beta)

lemma server_finishes: "wp server_finish (\<lambda>r _. r = 0 \<or> r = -1) s"
  by (simp add: server_finish_def wp_def split_beta)

section \<open>Instances\<close>

text \<open>A world in which nothing fails but the wait for events, in which 9 is the next socket.\<close>

definition ex_calls :: "syscall list \<Rightarrow> sysret" where
  "ex_calls tr = (case tr of
     SRead fd n # _ \<Rightarrow> SysRet 1 0 [byte_of CLIENT_TERMINATE] []
   | SAccept fd # _ \<Rightarrow> SysRet 9 0 [] []
   | SWrite fd b # _ \<Rightarrow> SysRet 1 0 [] []
   | SSelect n rs ws t # _ \<Rightarrow> SysRet (-1) 5 [] []
   | _ \<Rightarrow> SysRet 0 0 [] [])"

definition ex_serving :: iperf_state where
  "ex_serving = ex_state ex_calls (ex_server\<lparr>t_state := TEST_RUNNING\<rparr>)"

lemma ex_serving_simps [simp]: "t_ctrl_sck (tst ex_serving) = 5" "w_oracle ex_serving = ex_calls" "w_trace ex_serving = []"
    "t_state (tst ex_serving) = TEST_RUNNING" "t_json_output (tst ex_serving) = 0"
    "t_affinity (tst ex_serving) = -1" "t_verbose (tst ex_serving) = 0" "t_title (tst ex_serving) = None"
    "t_role (tst ex_serving) = CHR ''s''" "t_get_server_output (tst ex_serving) = 0"
  by (simp_all add: ex_serving_def ex_state_def ex_server_def default_test_def test0_def set_st_def)

theorem busy_server_denies_witness:
  "\<exists>s'. run_state iperf_accept ex_serving = (0, s') \<and> tst s' = tst ex_serving \<and> sent_of 9 s' = take 1 (sent_of 9 s')"
proof -
  obtain r s' where run: "run_state iperf_accept ex_serving = (r, s')" by fastforce
  from busy_server_denies [OF _ this] have "tst s' = tst ex_serving" "\<exists>k. sent_of 9 s' = take k [byte_of ACCESS_DENIED]"
    by (auto simp: Let_def answer_def ex_calls_def sent_of_def)
  moreover have "r = 0" using run
    by (simp add: iperf_accept_def answer_def ex_calls_def Nwrite_def Nwrite_loop.simps write_result_def cint_simps close_fd_def)
  ultimately show ?thesis using run by (auto simp: take_Cons')
qed

theorem server_answers_client_witness:
  "\<exists>s'. run_state iperf_handle_message_server ex_serving = (0, s') \<and> i_errno s' = IECLIENTTERM"
proof -
  obtain r s' where run: "run_state iperf_handle_message_server ex_serving = (r, s')" by fastforce
  have "run_state (Nread 5 1) ex_serving = ((1, [byte_of CLIENT_TERMINATE]), after ex_serving (SRead 5 1))"
    using Nread_whole [of 1 ex_serving 5 "[byte_of CLIENT_TERMINATE]"] by (simp add: answer_def ex_calls_def read_result_def)
  moreover have "schar (byte_of CLIENT_TERMINATE) = CLIENT_TERMINATE" by (simp add: schar_def of_char_byte CLIENT_TERMINATE_def)
  ultimately show ?thesis
    using server_answers_client [OF _ run] run by (simp add: state_codes)
qed

lemma run_iprintf_server: "t_role (tst s) = CHR ''s'' \<Longrightarrow> t_get_server_output (tst s) = 0 \<Longrightarrow>
    run_state (iprintf f a) s = ((), after s (SPrint (take 1023 (c_printf f a))))"
  by (simp add: iprintf_def fprintf_out_def Let_def iperf_get_test_get_server_output_def)

lemma frame_oracle: "frame w_oracle iperf_server_listen"
  unfolding iperf_server_listen_def numeral_2_eq_2 announce_retry.simps netannounce_def getaddrinfo_def freeaddrinfo_def
    iprintf_def fprintf_out_def warning_def iflush_def close_fd_def Let_def
  by (intro frames; simp add: frame_def)

lemma wait_fails:
  assumes "w_oracle s = ex_calls"
  shows "wp wait_for_events (\<lambda>sel u. sel_result sel = -1 \<and> errno u = 5) s"
proof -
  have sel: "wp (select_fds n rs ws t) (\<lambda>sel u. sel_result sel = -1 \<and> errno u = 5) u" if "w_oracle u = ex_calls" for u n rs ws t
    using that by (simp add: wp_def select_fds_def answer_def ex_calls_def)
  have f1: "frame w_oracle gettimeofday" by (simp add: frame_def)
  have f2: "frame w_oracle (tmr_timeout (Some now))" for now
    unfolding tmr_timeout_def getnow.simps Let_def by (intro frames)
  have "wp gettimeofday (\<lambda>(x, now). wp (tmr_timeout (Some now)) (\<lambda>a. wp (select_fds n rs ws a)
      (\<lambda>sel u. sel_result sel = -1 \<and> errno u = 5))) s" for n rs ws
    by (rule wp_mono [OF frame_wp [OF f1]])
      (auto intro!: wp_mono [OF frame_wp [OF f2]] sel simp: assms)
  then show ?thesis
    by (simp add: wait_for_events_def wp_def split_beta)
qed


end
