(* ===== verification/Rounds.thy ===== *)
theory Rounds
  imports Prelude
begin

text \<open>
  Loops that handle one round of events after the other. \<open>event_loop\<close> relates a loop to its rounds: a
  step relation between configurations for the rounds that go on, and the configurations in which the
  loop ends. The client's and the server's loop are instances.
\<close>

text \<open>The rounds from one configuration to another, with what each round heard.\<close>

inductive run_of :: "('c \<Rightarrow> 'c \<Rightarrow> bool) \<Rightarrow> ('c \<Rightarrow> 'e list) \<Rightarrow> 'c \<Rightarrow> 'e list \<Rightarrow> 'c \<Rightarrow> bool"
  for step heard c where
  start: "run_of step heard c [] c"
| round: "run_of step heard c es c1 \<Longrightarrow> step c1 c2 \<Longrightarrow> run_of step heard c (es @ heard c1) c2"

lemma run_of_steps: "run_of step heard c es c' \<Longrightarrow> step\<^sup>*\<^sup>* c c'"
  by (induction rule: run_of.induct) simp_all

lemma steps_run_of: "step\<^sup>*\<^sup>* c c' \<Longrightarrow> \<exists>es. run_of step heard c es c'"
  by (induction rule: rtranclp_induct) (blast intro: run_of.intros)+

locale event_loop =
  fixes loop :: "'c \<Rightarrow> ('v \<times> 's) option"
    and step :: "'c \<Rightarrow> 'c \<Rightarrow> bool"
    and ends :: "'c \<Rightarrow> 'v \<Rightarrow> 's \<Rightarrow> bool"
  assumes goes_on: "step c c' \<Longrightarrow> loop c = loop c'"
    and stops: "ends c v s \<Longrightarrow> loop c = Some (v, s)"
    and unrolls: "loop c = Some (v, s) \<Longrightarrow> \<exists>c'. step\<^sup>*\<^sup>* c c' \<and> ends c' v s"
begin

lemma steps_same: "step\<^sup>*\<^sup>* c c' \<Longrightarrow> loop c = loop c'"
  by (induction rule: rtranclp_induct) (auto dest: goes_on)

lemma is_rounds: "loop c = Some (v, s) \<longleftrightarrow> (\<exists>c'. step\<^sup>*\<^sup>* c c' \<and> ends c' v s)"
  using unrolls stops steps_same by metis

text \<open>What holds at the start and is kept by every round, given what was heard so far, holds at the end.\<close>

lemma course:
  assumes "loop c = Some (v, s)" "P [] c" "\<And>es c1 c2. P es c1 \<Longrightarrow> step c1 c2 \<Longrightarrow> P (es @ heard c1) c2"
  shows "\<exists>es c'. run_of step heard c es c' \<and> P es c' \<and> ends c' v s"
proof -
  obtain c' es where c: "run_of step heard c es c'" "ends c' v s"
    using unrolls [OF assms(1)] steps_run_of [of step c _ heard] by blast
  from c(1) have "P es c'" by (induction rule: run_of.induct) (use assms(2,3) in auto)
  with c show ?thesis by blast
qed

end

end
