(* ===== verification/Client_Course.thy ===== *)
theory Client_Course
  imports Client_Facts Timer_Facts Rounds
begin

text \<open>
  The course of the client (\<open>iperf_run_client\<close>): its loop as a relation between the states of
  successive rounds, labelled with the messages the server sent, and what the rounds keep.
\<close>

section \<open>The rounds of the loop\<close>

text \<open>A configuration is the flag \<open>startup\<close> with the state. A round that goes on:\<close>

inductive client_step :: "bool \<times> iperf_state \<Rightarrow> bool \<times> iperf_state \<Rightarrow> bool" where
  to_next: "t_state (tst s) \<noteq> IPERF_DONE \<Longrightarrow> run_state (client_events b) s = (Client_next b', s') \<Longrightarrow>
    client_step (b, s) (b', s')"
| to_timers: "t_state (tst s) \<noteq> IPERF_DONE \<Longrightarrow> run_state (client_events b) s = (Client_timers b' now, s1) \<Longrightarrow>
    tmr_run run_timer_proc (Some now) s1 = Some s2 \<Longrightarrow> run_state client_check_done s2 = (v, s') \<Longrightarrow> 0 \<le> v \<Longrightarrow>
    client_step (b, s) (b', s')"

text \<open>A configuration in which the loop ends with a value:\<close>

inductive client_ends :: "bool \<times> iperf_state \<Rightarrow> int \<Rightarrow> iperf_state \<Rightarrow> bool" where
  over: "t_state (tst s) = IPERF_DONE \<Longrightarrow> client_ends (b, s) 0 s"
| returned: "t_state (tst s) \<noteq> IPERF_DONE \<Longrightarrow> run_state (client_events b) s = (Client_return v, s') \<Longrightarrow>
    client_ends (b, s) v s'"
| failed: "t_state (tst s) \<noteq> IPERF_DONE \<Longrightarrow> run_state (client_events b) s = (Client_timers b' now, s1) \<Longrightarrow>
    tmr_run run_timer_proc (Some now) s1 = Some s2 \<Longrightarrow> run_state client_check_done s2 = (v, s') \<Longrightarrow> v < 0 \<Longrightarrow>
    client_ends (b, s) (-1) s'"

inductive_cases client_step_cases: "client_step (b, s) c"
inductive_cases client_ends_cases: "client_ends (b, s) v s'"

lemma loop_of_step: "client_step (b, s) (b', s') \<Longrightarrow> client_loop b s = client_loop b' s'"
  by (erule client_step_cases) (simp_all add: client_loop.simps [of b s])

lemma loop_of_end: "client_ends (b, s) v s' \<Longrightarrow> client_loop b s = Some (v, s')"
  by (erule client_ends_cases) (simp_all add: client_loop.simps [of b s])

lemma loop_steps:
  assumes "client_loop b s = Some y"
  shows "\<exists>c. client_step\<^sup>*\<^sup>* (b, s) c \<and> client_ends c (fst y) (snd y)"
  using assms
proof (induction b s y rule: client_loop.raw_induct [rotated 1, consumes 1, case_names step])
  case (step loop b s y)
  show ?case
  proof (cases "t_state (tst s) = IPERF_DONE")
    case True
    then have "client_ends (b, s) (fst y) (snd y)" using step.hyps by (auto intro: client_ends.intros)
    then show ?thesis by blast
  next
    case False
    have on: "\<exists>c. client_step\<^sup>*\<^sup>* (b, s) c \<and> client_ends c (fst y) (snd y)"
      if "client_step (b, s) (b', s')" "loop b' s' = Some y" for b' s'
      using step.IH [OF that(2)] that(1) by (blast intro: converse_rtranclp_into_rtranclp)
    obtain r s1 where r: "run_state (client_events b) s = (r, s1)" by (cases "run_state (client_events b) s")
    show ?thesis
    proof (cases r)
      case (Client_return v)
      then have "client_ends (b, s) (fst y) (snd y)" using False r step.hyps by (auto intro: client_ends.intros)
      then show ?thesis by blast
    next
      case (Client_next b')
      then show ?thesis using False r step.hyps by (intro on [of b' s1] to_next) simp_all
    next
      case (Client_timers b' now)
      then obtain s2 where t2: "tmr_run run_timer_proc (Some now) s1 = Some s2"
        using False r step.hyps by (auto simp: Option.bind_eq_Some_conv)
      obtain v s3 where "run_state client_check_done s2 = (v, s3)" by fastforce
      note t = t2 this
      show ?thesis
      proof (cases "v < 0")
        case True
        then have "client_ends (b, s) (fst y) (snd y)"
          using False r step.hyps Client_timers t by (auto intro: client_ends.intros)
        then show ?thesis by blast
      next
        case False
        then have "0 \<le> v" by linarith
        then show ?thesis
          using \<open>t_state (tst s) \<noteq> IPERF_DONE\<close> r step.hyps Client_timers t by (intro on [of b' s3] to_timers) simp_all
      qed
    qed
  qed
qed

interpretation client: event_loop "\<lambda>(b, s). client_loop b s" client_step client_ends
  by unfold_locales (auto simp: loop_of_step loop_of_end simp del: split_paired_Ex dest!: loop_steps)

section \<open>The course of the client\<close>

text \<open>The message of the server that a round handles, if it handles one.\<close>

definition client_heard :: "iperf_state \<Rightarrow> int option" where
  "client_heard s =
     (case run_state wait_for_events s of (sel, s1) \<Rightarrow>
        if 0 < sel_result sel \<and> fd_isset (t_ctrl_sck (tst s1)) (sel_read sel) then
          (case read_result 1 (answer s1 (SRead (t_ctrl_sck (tst s1)) 1)) of (n, d) \<Rightarrow>
             if 0 < n then Some (schar (hd d)) else None)
        else None)"

definition client_said :: "bool \<times> iperf_state \<Rightarrow> int list" where
  "client_said c = (case client_heard (snd c) of None \<Rightarrow> [] | Some m \<Rightarrow> [m])"

abbreviation client_run :: "bool \<times> iperf_state \<Rightarrow> int list \<Rightarrow> bool \<times> iperf_state \<Rightarrow> bool" where
  "client_run \<equiv> run_of client_step client_said"

lemma steady_set_blocking [frames]: "steady (set_blocking b)"
  unfolding set_blocking_def stream_sockets_def Let_def by (intro frames)

lemma steady_transfer: "steady (client_transfer b sel)"
  unfolding client_transfer_def Let_def by (intro frames)

lemma transfer_result: "wp (client_transfer b sel) (\<lambda>r _. (\<forall>v. r = Client_return v \<longrightarrow> v = -1) \<and>
    (\<forall>b' now. r = Client_timers b' now \<longrightarrow> t_state (tst s) = TEST_RUNNING)) s"
  unfolding client_transfer_def wp_def by (simp add: split_beta)

lemma check_done_post:
  "wp client_check_done (\<lambda>_ s'. keeps_place s s' \<and> (t_state (tst s') = t_state (tst s) \<or> t_state (tst s') = TEST_END)) s"
proof -
  let ?Q = "\<lambda>_ s'. keeps_place s s' \<and> (t_state (tst s') = t_state (tst s) \<or> t_state (tst s') = TEST_END)"
  have pre: "steady (do { set_blocking False; mod_t (\<lambda>t. t\<lparr>t_done := 1\<rparr>); note_cpu_util; iperf_stats_callback })"
    by (intro frames steady_mod_t; simp add: mode_t_def)
  have fin: "wp (do { r \<leftarrow> iperf_set_send_state TEST_END; ret (if r \<noteq> 0 then -1 else 0) }) ?Q u" if "mode u = mode s" for u
    unfolding wp_bind
    by (rule wp_set_send_state)
      (use that in \<open>auto simp: wp_return keeps_place_def mode_eq control_def control_t_def\<close>)
  have "wp (do { set_blocking False; mod_t (\<lambda>t. t\<lparr>t_done := 1\<rparr>); note_cpu_util; iperf_stats_callback;
      r \<leftarrow> iperf_set_send_state TEST_END; ret (if r \<noteq> 0 then -1 else 0) }) ?Q s"
    using wp_mono [OF frame_wp [OF pre, of s] fin] by (simp only: wp_bind)
  then show ?thesis
    unfolding client_check_done_def by (simp add: wp_simps keeps_place_def)
qed

section \<open>One round\<close>

text \<open>What a round does that goes on, up to the timers.\<close>

definition went_on :: "iperf_state \<Rightarrow> client_round \<Rightarrow> iperf_state \<Rightarrow> bool" where
  "went_on s r s' \<longleftrightarrow>
     (case r of
        Client_return v \<Rightarrow> v = -1
      | _ \<Rightarrow> keeps_place s s' \<and>
          (case client_heard s of None \<Rightarrow> t_state (tst s') = t_state (tst s) | Some m \<Rightarrow> client_next m = Some (t_state (tst s')))) \<and>
     (\<forall>b now. r = Client_timers b now \<longrightarrow> t_state (tst s') = TEST_RUNNING)"

lemma message_handled:
  assumes "t_role (tst s) = CHR ''c''" "run_state iperf_handle_message_client s = (r, s')" "0 \<le> r"
  shows "keeps_place s s' \<and> (\<exists>n d. read_result 1 (answer s (SRead (t_ctrl_sck (tst s)) 1)) = (n, d) \<and> 0 < n \<and>
    client_next (schar (hd d)) = Some (t_state (tst s')))"
proof -
  let ?c = "SRead (t_ctrl_sck (tst s)) 1"
  obtain n d where rd: "read_result 1 (answer s ?c) = (n, d)" by (cases "read_result 1 (answer s ?c)")
  note rd1 = rd [unfolded One_nat_def]
  define u where "u = (after s ?c)\<lparr>tst := (tst s)\<lparr>t_state := schar (hd d)\<rparr>\<rparr>"
  have n: "0 < n" using assms(2,3) by (auto simp: iperf_handle_message_client_def rd1 split: if_splits)
  then have "run_state (client_message (schar (hd d))) u = (r, s')"
    using assms(2) by (simp add: iperf_handle_message_client_def rd1 u_def)
  then have "message_post (schar (hd d)) u r s'"
    using wpD [OF client_message_post [of u "schar (hd d)"]] assms(1) by (simp add: u_def)
  then show ?thesis using rd n assms(3) by (auto simp: message_post_def keeps_place_def u_def split: option.splits)
qed

lemma transfer_went_on:
  assumes "run_state (client_transfer b sel) s1 = (r, s')"
  shows "mode s' = mode s1 \<and> (\<forall>v. r = Client_return v \<longrightarrow> v = -1) \<and>
    (\<forall>b' now. r = Client_timers b' now \<longrightarrow> t_state (tst s') = TEST_RUNNING)"
  using frameD [OF steady_transfer assms] wpD [OF transfer_result assms] by (auto simp: mode_eq)

lemma client_round_post:
  assumes role: "t_role (tst s) = CHR ''c''" and run: "run_state (client_events b) s = (r, s')"
  shows "went_on s r s'"
proof -
  obtain sel s1 where w: "run_state wait_for_events s = (sel, s1)" by fastforce
  note m1 = frameD [OF steady_wait w]
  show ?thesis
  proof (cases "sel_result sel < 0 \<and> errno s1 \<noteq> EINTR")
    case True
    then show ?thesis using w run m1 by (auto simp: client_events_def went_on_def keeps_place_def mode_eq)
  next
    case sel: False
    show ?thesis
    proof (cases "0 < sel_result sel \<and> fd_isset (t_ctrl_sck (tst s1)) (sel_read sel)")
      case False
      then have "run_state (client_transfer b sel) s1 = (r, s')" "client_heard s = None"
        using w run sel by (auto simp: client_events_def client_heard_def)
      with transfer_went_on [OF this(1)] m1 show ?thesis
        by (auto simp: went_on_def keeps_place_def mode_eq split: client_round.split)
    next
      case True
      obtain v s2 where h: "run_state iperf_handle_message_client s1 = (v, s2)" by fastforce
      show ?thesis
      proof (cases "v < 0")
        case True
        then show ?thesis using \<open>0 < sel_result sel \<and> _\<close> w run h sel m1
          by (auto simp: client_events_def went_on_def)
      next
        case False
        have fd: "t_ctrl_sck (tst s1) = t_ctrl_sck (tst s)" "t_role (tst s1) = CHR ''c''" using m1 role by (simp_all add: mode_eq)
        have hd: "keeps_place s1 s2" "\<exists>n d. read_result 1 (answer s1 (SRead (t_ctrl_sck (tst s1)) 1)) = (n, d) \<and> 0 < n \<and>
            client_next (schar (hd d)) = Some (t_state (tst s2))"
          using message_handled [OF fd(2) h] False by auto
        then have heard: "\<exists>m. client_heard s = Some m \<and> client_next m = Some (t_state (tst s2))"
          using w True by (auto simp: client_heard_def)
        obtain sel' where "run_state (client_transfer b sel') s2 = (r, s')"
          using w run h sel True False by (auto simp: client_events_def)
        from transfer_went_on [OF this] heard hd(1) m1 show ?thesis
          by (auto simp: went_on_def keeps_place_def mode_eq split: client_round.split)
      qed
    qed
  qed
qed

lemma step_post:
  assumes "t_role (tst s) = CHR ''c''" "client_step (b, s) (b', s')"
  shows "keeps_place s s' \<and>
    (let q = (case client_heard s of None \<Rightarrow> t_state (tst s) | Some m \<Rightarrow> the (client_next m)) in
     (\<forall>m. client_heard s = Some m \<longrightarrow> client_next m \<noteq> None) \<and>
     (t_state (tst s') = q \<or> q = TEST_RUNNING \<and> t_state (tst s') = TEST_END))"
proof -
  consider (on) r where "run_state (client_events b) s = (Client_next r, s')"
    | (timed) r now s1 s2 v where "run_state (client_events b) s = (Client_timers r now, s1)"
        "tmr_run run_timer_proc (Some now) s1 = Some s2" "run_state client_check_done s2 = (v, s')"
    using assms(2) by (auto elim: client_step_cases)
  then show ?thesis
  proof cases
    case on
    from client_round_post [OF assms(1) this] show ?thesis by (auto simp: went_on_def split: option.splits)
  next
    case timed
    then show ?thesis
      using client_round_post [OF assms(1) timed(1)] wpD [OF check_done_post timed(3)] mode_ps.run_blind [OF timed(2)]
      by (auto simp: went_on_def keeps_place_def mode_eq split: option.splits)
  qed
qed

section \<open>All rounds\<close>

text \<open>
  The state a client is in that started in \<open>q0\<close> and has heard \<open>ms\<close>: the one the last message names, or
  \<open>TEST_END\<close> when that is a running test, which the client ends itself.
\<close>

definition follows :: "int \<Rightarrow> int list \<Rightarrow> int \<Rightarrow> bool" where
  "follows q0 ms q \<longleftrightarrow> (\<forall>m \<in> set ms. client_next m \<noteq> None) \<and>
     (let st = (if ms = [] then q0 else the (client_next (last ms))) in q = st \<or> st = TEST_RUNNING \<and> q = TEST_END)"

lemma step_follows:
  assumes "keeps_place s0 (snd c1) \<and> follows q0 ms (t_state (tst (snd c1)))" "t_role (tst s0) = CHR ''c''" "client_step c1 c2"
  shows "keeps_place s0 (snd c2) \<and> follows q0 (ms @ client_said c1) (t_state (tst (snd c2)))"
proof -
  obtain b1 s1 b2 s2 where c: "c1 = (b1, s1)" "c2 = (b2, s2)" by (cases c1; cases c2)
  have "t_role (tst s1) = CHR ''c''" using assms(1,2) c by (simp add: keeps_place_def)
  from step_post [OF this, of b1 b2 s2] assms c show ?thesis
    by (cases "client_heard s1") (auto simp: keeps_place_def follows_def Let_def client_said_def)
qed

lemma end_value:
  assumes "client_ends (b, s) v s'" "t_role (tst s) = CHR ''c''"
  shows "v = 0 \<and> s' = s \<and> t_state (tst s) = IPERF_DONE \<or> v = -1"
proof -
  consider "v = 0 \<and> s' = s \<and> t_state (tst s) = IPERF_DONE" | "v = -1"
    | "run_state (client_events b) s = (Client_return v, s')"
    using assms(1) by (auto elim: client_ends_cases)
  then show ?thesis using client_round_post [OF assms(2), of b "Client_return v" s'] by cases (auto simp: went_on_def)
qed

text \<open>
  C5: the client returns 0 only when the server told it that the test is over. Whenever its loop
  returns, the rounds before the last heard only messages of the protocol's course and took the test to
  the state the last of them names - or to \<open>TEST_END\<close>, and that from a running test only; the result is
  -1, or 0 with the last message \<open>DISPLAY_RESULTS\<close> or \<open>IPERF_DONE\<close>.
\<close>

theorem client_course:
  assumes "t_role (tst s) = CHR ''c''" "t_state (tst s) \<noteq> IPERF_DONE" "client_loop b s = Some (v, s')"
  shows "\<exists>ms b1 s1. client_run (b, s) ms (b1, s1) \<and> keeps_place s s1 \<and> follows (t_state (tst s)) ms (t_state (tst s1)) \<and>
    (v = -1 \<or> v = 0 \<and> s' = s1 \<and> t_state (tst s') = IPERF_DONE \<and> ms \<noteq> [] \<and> last ms \<in> {DISPLAY_RESULTS, IPERF_DONE})"
proof -
  let ?P = "\<lambda>ms c. keeps_place s (snd c) \<and> follows (t_state (tst s)) ms (t_state (tst (snd c)))"
  have "\<exists>ms c. client_run (b, s) ms c \<and> ?P ms c \<and> client_ends c v s'"
  proof (rule client.course [where heard = client_said])
    show "?P (ms @ client_said c1) c2" if "?P ms c1" "client_step c1 c2" for ms c1 c2
      using step_follows [OF that(1) assms(1) that(2)] .
  qed (use assms in \<open>simp_all add: keeps_place_def follows_def\<close>)
  then obtain ms b1 s1 where ms: "client_run (b, s) ms (b1, s1)" and f: "keeps_place s s1" "follows (t_state (tst s)) ms (t_state (tst s1))"
    and c: "client_ends (b1, s1) v s'" by (auto simp del: split_paired_Ex)
  have role: "t_role (tst s1) = CHR ''c''" using f(1) assms(1) by (simp add: keeps_place_def)
  have "ms \<noteq> [] \<and> last ms \<in> {DISPLAY_RESULTS, IPERF_DONE}" if "t_state (tst s1) = IPERF_DONE"
  proof -
    have "ms \<noteq> []" using f(2) that assms(2) by (auto simp: follows_def Let_def state_codes split: if_splits)
    then have "client_next (last ms) \<noteq> None" "the (client_next (last ms)) = IPERF_DONE"
      using f(2) that by (auto simp: follows_def Let_def state_codes)
    with \<open>ms \<noteq> []\<close> show ?thesis by (auto simp: client_next_def state_codes split: if_splits)
  qed
  with ms f end_value [OF c role] show ?thesis by blast
qed

lemma ex_results_round:
  "\<exists>s2. client_loop False (ex_connected DISPLAY_RESULTS) = Some (0, s2)"
proof -
  obtain sel s1 where w: "run_state wait_for_events (ex_connected DISPLAY_RESULTS) = (sel, s1)"
    "0 < sel_result sel" "fd_isset 5 (sel_read sel)" "w_oracle s1 = ex_says DISPLAY_RESULTS"
    using ex_wait by blast
  have "\<exists>s2. run_state (client_events False) (ex_connected DISPLAY_RESULTS) = (Client_next False, s2) \<and>
      t_state (tst s2) = IPERF_DONE"
    using w schar_results by (intro results_round [OF _ w(1)]) (simp_all add: answer_def ex_says_def read_result_def)
  then obtain s2 where "run_state (client_events False) (ex_connected DISPLAY_RESULTS) = (Client_next False, s2)"
    "t_state (tst s2) = IPERF_DONE" by blast
  then have "client_step (False, ex_connected DISPLAY_RESULTS) (False, s2)" "client_ends (False, s2) 0 s2"
    by (auto intro!: client_step.intros client_ends.intros simp: state_codes)
  then show ?thesis using loop_of_step loop_of_end by metis
qed

theorem client_course_witness:
  "\<exists>s' ms b1. client_loop False (ex_connected DISPLAY_RESULTS) = Some (0, s') \<and>
     client_run (False, ex_connected DISPLAY_RESULTS) ms (b1, s') \<and> t_state (tst s') = IPERF_DONE \<and>
     last ms \<in> {DISPLAY_RESULTS, IPERF_DONE}"
proof -
  obtain s' where l: "client_loop False (ex_connected DISPLAY_RESULTS) = Some (0, s')" using ex_results_round by blast
  have "t_state (tst (ex_connected DISPLAY_RESULTS)) \<noteq> IPERF_DONE" by (simp add: state_codes)
  from client_course [OF _ this l] l show ?thesis by auto
qed

end
