(* ===== verification/Server_Course.thy ===== *)
theory Server_Course
  imports Server_Facts Client_Course
begin

text \<open>
  The course of the server (\<open>iperf_run_server\<close>): its loop as a relation between the states of successive
  rounds, and the protocol its rounds implement.
\<close>

section \<open>The rounds of the loop\<close>

text \<open>A configuration is the number of streams accepted with the state.\<close>

inductive server_step :: "nat \<times> iperf_state \<Rightarrow> nat \<times> iperf_state \<Rightarrow> bool" where
  to_next: "t_state (tst s) \<noteq> IPERF_DONE \<Longrightarrow> run_state (server_events n) s = (Server_next n', s') \<Longrightarrow>
    server_step (n, s) (n', s')"
| to_timers: "t_state (tst s) \<noteq> IPERF_DONE \<Longrightarrow> run_state (server_events n) s = (Server_timers n' now, s1) \<Longrightarrow>
    tmr_run run_timer_proc (Some now) s1 = Some s' \<Longrightarrow> server_step (n, s) (n', s')"

inductive server_ends :: "nat \<times> iperf_state \<Rightarrow> int \<Rightarrow> iperf_state \<Rightarrow> bool" where
  over: "t_state (tst s) = IPERF_DONE \<Longrightarrow> server_ends (n, s) 0 s"
| returned: "t_state (tst s) \<noteq> IPERF_DONE \<Longrightarrow> run_state (server_events n) s = (Server_return v, s') \<Longrightarrow>
    server_ends (n, s) v s'"

inductive_cases server_step_cases: "server_step (n, s) c"
inductive_cases server_ends_cases: "server_ends (n, s) v s'"

lemma server_loop_of_step: "server_step (n, s) (n', s') \<Longrightarrow> server_loop n s = server_loop n' s'"
  by (erule server_step_cases) (simp_all add: server_loop.simps [of n s])

lemma server_loop_of_end: "server_ends (n, s) v s' \<Longrightarrow> server_loop n s = Some (v, s')"
  by (erule server_ends_cases) (simp_all add: server_loop.simps [of n s])

lemma server_loop_steps:
  assumes "server_loop n s = Some y"
  shows "\<exists>c. server_step\<^sup>*\<^sup>* (n, s) c \<and> server_ends c (fst y) (snd y)"
  using assms
proof (induction n s y rule: server_loop.raw_induct [rotated 1, consumes 1, case_names step])
  case (step loop n s y)
  show ?case
  proof (cases "t_state (tst s) = IPERF_DONE")
    case True
    then have "server_ends (n, s) (fst y) (snd y)" using step.hyps by (auto intro: server_ends.intros)
    then show ?thesis by blast
  next
    case False
    have on: "\<exists>c. server_step\<^sup>*\<^sup>* (n, s) c \<and> server_ends c (fst y) (snd y)"
      if "server_step (n, s) (n', s')" "loop n' s' = Some y" for n' s'
      using step.IH [OF that(2)] that(1) by (blast intro: converse_rtranclp_into_rtranclp)
    obtain r s1 where r: "run_state (server_events n) s = (r, s1)" by fastforce
    show ?thesis
    proof (cases r)
      case (Server_return v)
      then have "server_ends (n, s) (fst y) (snd y)" using False r step.hyps by (auto intro: server_ends.intros)
      then show ?thesis by blast
    next
      case (Server_next n')
      then show ?thesis using False r step.hyps by (intro on [of n' s1] to_next) simp_all
    next
      case (Server_timers n' now)
      then obtain s2 where "tmr_run run_timer_proc (Some now) s1 = Some s2"
        using False r step.hyps by (auto simp: Option.bind_eq_Some_conv)
      then show ?thesis using False r step.hyps Server_timers by (intro on [of n' s2] to_timers) simp_all
    qed
  qed
qed

interpretation server: event_loop "\<lambda>(n, s). server_loop n s" server_step server_ends
  by unfold_locales (auto simp: server_loop_of_step server_loop_of_end simp del: split_paired_Ex dest!: server_loop_steps)

section \<open>The protocol\<close>

text \<open>What a server learns of its client in a round, and the state it is in after that.\<close>

datatype server_event = Connected | Message int | Hung_up

definition server_next :: "server_event \<Rightarrow> int option" where
  "server_next e =
     (case e of
        Connected \<Rightarrow> Some CREATE_STREAMS
      | Message m \<Rightarrow> if m = TEST_START then Some TEST_START else if m = TEST_END then Some DISPLAY_RESULTS
          else if m = IPERF_DONE \<or> m = CLIENT_TERMINATE then Some IPERF_DONE else None
      | Hung_up \<Rightarrow> Some IPERF_DONE)"

text \<open>The test starts by itself when the last stream has been accepted.\<close>

inductive server_path :: "int \<Rightarrow> server_event list \<Rightarrow> int \<Rightarrow> bool" where
  here: "server_path q [] q"
| event: "server_path q es q1 \<Longrightarrow> server_next e = Some q2 \<Longrightarrow> server_path q (es @ [e]) q2"
| started: "server_path q es CREATE_STREAMS \<Longrightarrow> server_path q es TEST_RUNNING"

lemma path_append: "server_path q1 es' q2 \<Longrightarrow> server_path q es q1 \<Longrightarrow> server_path q (es @ es') q2"
  by (induction rule: server_path.induct) (simp_all add: server_path.intros flip: append_assoc)

lemma path_running: "server_path q es q' \<Longrightarrow> q \<noteq> CREATE_STREAMS \<Longrightarrow> q \<noteq> TEST_RUNNING \<Longrightarrow>
    q' = CREATE_STREAMS \<or> q' = TEST_RUNNING \<Longrightarrow> Connected \<in> set es"
  by (induction rule: server_path.induct)
    (auto simp: server_next_def state_codes split: server_event.splits if_splits)

lemma path_done: "server_path q es q' \<Longrightarrow> q \<noteq> IPERF_DONE \<Longrightarrow> q' = IPERF_DONE \<Longrightarrow>
    es \<noteq> [] \<and> last es \<in> {Hung_up, Message IPERF_DONE, Message CLIENT_TERMINATE}"
  by (induction rule: server_path.induct)
    (auto simp: server_next_def state_codes split: server_event.splits if_splits)

section \<open>What the steps leave alone\<close>

definition place :: "iperf_state \<Rightarrow> char \<times> int" where
  "place s = (t_role (tst s), t_ctrl_sck (tst s))"

lemma mode_place: "mode s' = mode s \<longleftrightarrow> place s' = place s \<and> t_state (tst s') = t_state (tst s)"
  by (auto simp: mode_eq place_def)

lemma steady_place: "steady m \<Longrightarrow> frame place m"
  by (simp add: frame_def mode_place)

lemma place_mod_t: "(\<And>t. t_role (f t) = t_role t \<and> t_ctrl_sck (f t) = t_ctrl_sck t) \<Longrightarrow> frame place (mod_t f)"
  by (simp add: frame_def place_def)

lemma place_set_send_state [frames]: "frame place (iperf_set_send_state st)"
proof -
  have "wp (iperf_set_send_state st) (\<lambda>_ s'. place s' = place s) s" for s
    by (rule wp_set_send_state) (simp add: place_def control_def control_t_def)
  then show ?thesis by (simp add: frame_def wp_iff)
qed

lemma state_set_send_state [simp]: "t_state (tst (snd (run_state (iperf_set_send_state st) s))) = st"
proof -
  have "wp (iperf_set_send_state st) (\<lambda>_ s'. t_state (tst s') = st) s"
    by (rule wp_set_send_state) (simp add: control_def control_t_def)
  then show ?thesis by (simp add: wp_iff)
qed

lemma steady_accept_stream [frames]: "steady (accept_stream n)"
  unfolding accept_stream_def is_closed_def Let_def by (intro frames)

lemma steady_restore_listener [frames]: "steady restore_listener"
  unfolding restore_listener_def by (intro frames steady_mod_t; simp add: mode_t_def)

lemma steady_cleanup [frames]: "steady cleanup_server"
  unfolding cleanup_server_def reset_timer_def by (intro frames steady_mod_t; simp add: mode_t_def)

lemmas steady_close_streams [frames] = calm_close_streams [THEN calm_steady]

lemma steady_server_transfer [frames]: "steady (server_transfer rs ws)"
  unfolding server_transfer_def by (intro frames)

lemma steady_server_timers [frames]: "steady create_server_timers" "steady create_server_omit_timer"
  unfolding create_server_timers_def create_interval_timers_def create_server_omit_timer_def create_omit_timer_def Let_def
  by (intro frames steady_mod_t steady_new_timer; simp add: mode_t_def)+

section \<open>The parts of a round\<close>

lemma send_error_value [simp]: "fst (run_state send_server_error s) = -1"
  by (simp add: send_server_error_def split_beta)

lemma place_exchange [frames]: "frame place iperf_exchange_parameters"
  unfolding iperf_exchange_parameters_def send_server_error_def
  by (intro frames; (rule place_mod_t, simp | rule steady_place, intro frames))

lemma exchange_state:
  "t_role (tst s) \<noteq> CHR ''c'' \<Longrightarrow> wp iperf_exchange_parameters (\<lambda>r s'. 0 \<le> r \<longrightarrow> t_state (tst s') = CREATE_STREAMS) s"
  by (simp add: iperf_exchange_parameters_def wp_iff split_beta)

lemma server_message_place [frames]: "frame place iperf_handle_message_server"
  unfolding iperf_handle_message_server_def server_message_def server_test_end_def final_report_def
  by (intro frames; (rule place_mod_t, simp | rule steady_place, intro frames))

lemma start_test_place [frames]: "frame place start_server_test"
  unfolding start_server_test_def
  by (intro frames; (rule place_mod_t, simp | rule steady_place, intro frames))

lemma start_test_state: "wp start_server_test (\<lambda>ok s'. ok \<longrightarrow> t_state (tst s') = TEST_RUNNING) s"
  by (simp add: start_server_test_def wp_iff split_beta)


lemma create_streams_place [frames]: "frame place (server_create_streams n rs)"
  unfolding server_create_streams_def Let_def
  by (intro frames; (rule place_mod_t, simp | rule steady_place, intro frames))

lemma accept_client_place: "wp (accept_client fd) (\<lambda>_ s'. place s' = (t_role (tst s), fd)) s"
proof -
  have "\<exists>m. accept_client fd = State_Monad.bind (mod_t (\<lambda>t. t\<lparr>t_ctrl_sck := fd\<rparr>)) (\<lambda>_. m) \<and> frame place m"
    unfolding accept_client_def iperf_setaffinity_def
    by (intro exI conjI, rule refl, (intro frames; (rule place_mod_t, simp | rule steady_place, intro frames)))
  then obtain m where m: "accept_client fd = State_Monad.bind (mod_t (\<lambda>t. t\<lparr>t_ctrl_sck := fd\<rparr>)) (\<lambda>_. m)" "frame place m"
    by blast
  show ?thesis
    unfolding m(1) wp_bind wp_mod_t by (rule wp_mono [OF frame_wp [OF m(2)]]) (simp add: place_def)
qed

lemma steady_state: "steady m \<Longrightarrow> t_state (tst (snd (run_state m s))) = t_state (tst s) \<and> t_role (tst (snd (run_state m s))) = t_role (tst s)"
  by (simp add: frame_def mode_eq)

lemma steady_accept_parts: "steady iperf_on_connect" "steady (iperf_setaffinity a)" "steady (Nread fd n)"
  unfolding iperf_setaffinity_def by (intro frames)+

lemma role_set_send_state [simp]: "t_role (tst (snd (run_state (iperf_set_send_state st) s))) = t_role (tst s)"
  using place_set_send_state [of st] by (simp add: frame_def place_def)

lemma accept_client_state:
  "t_role (tst s) \<noteq> CHR ''c'' \<Longrightarrow> wp (accept_client fd) (\<lambda>r s'. 0 \<le> r \<longrightarrow> t_state (tst s') = CREATE_STREAMS) s"
  using exchange_state
  by (simp add: accept_client_def wp_iff split_beta steady_accept_parts [THEN steady_state])

lemma accept_post:
  assumes "t_role (tst s) \<noteq> CHR ''c''" "run_state iperf_accept s = (r, s')" "0 \<le> r"
  shows "if t_ctrl_sck (tst s) = -1 then t_role (tst s') = t_role (tst s) \<and> t_ctrl_sck (tst s') \<noteq> -1 \<and> t_state (tst s') = CREATE_STREAMS
    else mode s' = mode s"
proof -
  define fd where "fd = sr_val (answer s (SAccept (t_listener (tst s))))"
  let ?u = "after s (SAccept (t_listener (tst s)))"
  have fd: "0 \<le> fd" using assms(2,3) by (auto simp: iperf_accept_def fd_def split: if_splits)
  show ?thesis
  proof (cases "t_ctrl_sck (tst s) = -1")
    case True
    then have run: "run_state (accept_client fd) ?u = (r, s')"
      using assms(2) fd by (simp add: iperf_accept_def fd_def)
    have "t_role (tst ?u) \<noteq> CHR ''c''" using assms(1) by simp
    from wpD [OF accept_client_state [OF this] run] wpD [OF accept_client_place run] True assms(3) fd
    show ?thesis by (simp add: place_def)
  next
    case False
    then have run: "run_state (do { w \<leftarrow> Nwrite fd [byte_of ACCESS_DENIED];
       if w < 0 then do { set_i_errno IESENDMESSAGE; ret (-1) } else do { close_fd fd; ret 0 } }) ?u = (r, s')"
      using assms(2) fd unfolding fd_def by (simp add: iperf_accept_def)
    have f: "steady (do { w \<leftarrow> Nwrite fd [byte_of ACCESS_DENIED];
       if w < 0 then do { set_i_errno IESENDMESSAGE; ret (-1 :: int) } else do { close_fd fd; ret 0 } })"
      by (intro frames)
    from frameD [OF f run] False show ?thesis by (simp add: mode_def)
  qed
qed

text \<open>The listener and, when the last stream was accepted, the start of the test.\<close>

lemma create_streams_state:
  "wp (server_create_streams n rs) (\<lambda>r s'. r \<noteq> None \<longrightarrow> t_state (tst s') = t_state (tst s) \<or> t_state (tst s') = TEST_RUNNING) s"
proof -
  have parts: "steady (accept_stream n)" "steady restore_listener" by (intro frames)+
  have st: "fst (run_state start_server_test u) \<Longrightarrow> t_state (tst (snd (run_state start_server_test u))) = TEST_RUNNING" for u
    using start_test_state [of u] by (simp add: wp_iff)
  show ?thesis
    unfolding server_create_streams_def Let_def
    by (simp add: wp_iff split_beta parts [THEN steady_state] split: option.split) (auto simp: st parts [THEN steady_state])
qed

lemma message_moves:
  assumes "run_state iperf_handle_message_server s = (r, s')" "0 \<le> r"
    and "run_state (Nread (t_ctrl_sck (tst s)) 1) s = ((n, d), s1)"
  shows "place s' = place s \<and> server_next (if n = 0 then Hung_up else Message (schar (hd d))) = Some (t_state (tst s'))"
  using server_answers [OF assms(3,1)] frameD [OF server_message_place assms(1)] assms(2)
  by (auto simp: server_next_def Let_def state_codes split: if_splits)

section \<open>One round\<close>

text \<open>
  What a round hears, as it goes through the descriptors that are ready: a client that is the first one,
  and then one message, on the control connection as it is by then. \<open>Hung_up\<close> is a read that delivers
  nothing, which the server takes for the end of the connection.
\<close>

definition ready_heard :: "selected \<Rightarrow> iperf_state \<Rightarrow> server_event list" where
  "ready_heard sel s =
     (let knocking = fd_isset (t_listener (tst s)) (sel_read sel) \<and> t_state (tst s) \<noteq> CREATE_STREAMS;
          s1 = (if knocking then snd (run_state iperf_accept s) else s);
          rs = (if knocking then fd_clr (t_listener (tst s1)) (sel_read sel) else sel_read sel)
      in (if knocking \<and> t_ctrl_sck (tst s) = -1 then [Connected] else []) @
         (if fd_isset (t_ctrl_sck (tst s1)) rs then
            (case run_state (Nread (t_ctrl_sck (tst s1)) 1) s1 of ((n, d), _) \<Rightarrow>
               if n = 0 then [Hung_up] else [Message (schar (hd d))])
          else []))"

definition server_heard :: "nat \<times> iperf_state \<Rightarrow> server_event list" where
  "server_heard c = (case run_state wait_for_events (snd c) of (sel, s1) \<Rightarrow>
     if 0 < sel_result sel then ready_heard sel s1 else [])"

text \<open>The role stays, the control connection is set once, and the state follows the protocol.\<close>

definition server_moved :: "iperf_state \<Rightarrow> server_event list \<Rightarrow> iperf_state \<Rightarrow> bool" where
  "server_moved s es s' \<longleftrightarrow> t_role (tst s') = t_role (tst s) \<and>
     (if Connected \<in> set es then t_ctrl_sck (tst s) = -1 \<and> t_ctrl_sck (tst s') \<noteq> -1 \<and> count_list es Connected = 1
      else t_ctrl_sck (tst s') = t_ctrl_sck (tst s)) \<and>
     server_path (t_state (tst s)) es (t_state (tst s'))"

lemma moved_none: "mode s' = mode s \<Longrightarrow> server_moved s [] s'"
  by (simp add: server_moved_def mode_eq server_path.here)

lemma moved_append:
  assumes "server_moved s es s1" "server_moved s1 es' s2"
  shows "server_moved s (es @ es') s2"
  using assms path_append [of "t_state (tst s1)" es' "t_state (tst s2)" "t_state (tst s)" es] count_notin [of Connected es] count_notin [of Connected es']
  by (auto simp: server_moved_def split: if_splits)

lemma moved_started: "server_moved s es s1 \<Longrightarrow> t_state (tst s1) = CREATE_STREAMS \<Longrightarrow> place s2 = place s1 \<Longrightarrow> t_state (tst s2) = TEST_RUNNING \<Longrightarrow>
    server_moved s es s2"
  by (auto simp: server_moved_def place_def intro: server_path.started)

lemma moved_mode: "server_moved s es s1 \<Longrightarrow> mode s2 = mode s1 \<Longrightarrow> server_moved s es s2"
  by (auto simp: server_moved_def mode_eq)

lemma ready_moved:
  assumes "t_role (tst s) \<noteq> CHR ''c''" "run_state (server_ready n sel) s = (Some m, s')"
  shows "server_moved s (ready_heard sel s) s'"
proof -
  define knocking where "knocking \<longleftrightarrow> fd_isset (t_listener (tst s)) (sel_read sel) \<and> t_state (tst s) \<noteq> CREATE_STREAMS"
  obtain a s1 where a: "run_state (if knocking then iperf_accept else ret 0) s = (a, s1)" by fastforce
  define rs where "rs = (if knocking then fd_clr (t_listener (tst s1)) (sel_read sel) else sel_read sel)"
  define called where "called \<longleftrightarrow> fd_isset (t_ctrl_sck (tst s1)) rs"
  obtain b s2 where b: "run_state (if called then iperf_handle_message_server else ret 0) s1 = (b, s2)" by fastforce
  define rs1 where "rs1 = (if called then fd_clr (t_ctrl_sck (tst s2)) rs else rs)"
  obtain c s3 where c: "run_state (if t_state (tst s2) = CREATE_STREAMS then server_create_streams n rs1 else ret (Some (n, rs1))) s2 = (c, s3)"
    by fastforce
  have ab: "0 \<le> a" "0 \<le> b"
    using assms(2) a b by (auto simp: server_ready_def knocking_def rs_def called_def Let_def split: if_splits prod.splits)
  obtain k rs2 ok where k: "c = Some (k, rs2)" and tr: "run_state (server_transfer rs2 (sel_write sel)) s3 = (ok, s')"
    using assms(2) a b c ab
    by (auto simp: server_ready_def knocking_def rs_def called_def rs1_def Let_def split: if_splits prod.splits option.splits)
  define kh where "kh = (if knocking \<and> t_ctrl_sck (tst s) = -1 then [Connected] else [])"
  define ch where "ch = (if called then
            (case run_state (Nread (t_ctrl_sck (tst s1)) 1) s1 of ((n, d), _) \<Rightarrow>
               if n = 0 then [Hung_up] else [Message (schar (hd d))]) else [])"
  have s1: "s1 = (if knocking then snd (run_state iperf_accept s) else s)" using a by (cases knocking) simp_all
  have heard: "ready_heard sel s = kh @ ch"
    unfolding ready_heard_def Let_def kh_def ch_def called_def rs_def s1 knocking_def by (rule refl)
  have m1: "server_moved s kh s1"
  proof (cases knocking)
    case True
    then show ?thesis using accept_post [OF assms(1), of a s1] a ab(1)
      by (auto simp: kh_def server_moved_def mode_eq server_next_def server_path.here split: if_splits
          intro: server_path.event [OF server_path.here, of Connected, simplified])
  qed (use a in \<open>simp add: kh_def moved_none\<close>)
  have m2: "server_moved s1 ch s2"
  proof (cases called)
    case True
    obtain i d u where rd: "run_state (Nread (t_ctrl_sck (tst s1)) 1) s1 = ((i, d), u)" by (metis prod.exhaust)
    let ?e = "if i = 0 then Hung_up else Message (schar (hd d))"
    have mv: "place s2 = place s1" "server_next ?e = Some (t_state (tst s2))"
      using message_moves [OF _ ab(2) rd, of s2] b True by simp_all
    have "server_path (t_state (tst s1)) [?e] (t_state (tst s2))"
      using server_path.event [OF server_path.here mv(2), of "t_state (tst s1)"] by simp
    then show ?thesis using True rd mv(1) by (simp add: ch_def server_moved_def place_def split: if_splits)
  qed (use b in \<open>simp add: ch_def moved_none\<close>)
  note m12 = moved_append [OF m1 m2]
  have "server_moved s (kh @ ch) s3"
  proof (cases "t_state (tst s2) = CREATE_STREAMS")
    case True
    then have run: "run_state (server_create_streams n rs1) s2 = (Some (k, rs2), s3)" using c k by simp
    have p: "place s3 = place s2" using frameD [OF create_streams_place run] .
    from wpD [OF create_streams_state run] consider "t_state (tst s3) = t_state (tst s2)" | "t_state (tst s3) = TEST_RUNNING" by blast
    then show ?thesis
      by cases (use moved_mode [OF m12] moved_started [OF m12 True p] p in \<open>simp_all add: mode_place\<close>)
  qed (use c m12 in simp)
  then show ?thesis
    unfolding heard by (rule moved_mode) (rule frameD [OF steady_server_transfer tr])
qed

lemma round_moved:
  assumes "t_role (tst s) \<noteq> CHR ''c''" "server_step (n, s) (n', s')"
  shows "server_moved s (server_heard (n, s)) s'"
proof -
  have ev: "server_moved s (server_heard (n, s)) s1"
    if e: "run_state (server_events n) s = (r, s1)" "\<And>v. r \<noteq> Server_return v" for r s1
  proof -
    obtain sel u where w: "run_state wait_for_events s = (sel, u)" by fastforce
    have u: "mode u = mode s" using frameD [OF steady_wait w] .
    show ?thesis
    proof (cases "0 < sel_result sel")
      case True
      then have "\<exists>m u1. run_state (server_ready n sel) u = (Some m, u1) \<and> mode s1 = mode u1"
        using e w by (auto simp: server_events_def mode_def split: option.splits if_splits prod.splits)
      then obtain m u1 where m: "run_state (server_ready n sel) u = (Some m, u1)" "mode s1 = mode u1" by blast
      have "t_role (tst u) \<noteq> CHR ''c''" using assms(1) u by (simp add: mode_eq)
      from ready_moved [OF this m(1)] have "server_moved s (ready_heard sel u) u1"
        using moved_append [OF moved_none [OF u]] by simp
      then show ?thesis using moved_mode m(2) w True by (simp add: server_heard_def)
    next
      case False
      then have "mode s1 = mode u"
        using e w by (auto simp: server_events_def mode_def split: option.splits if_splits prod.splits)
      then show ?thesis using u w False by (simp add: server_heard_def moved_none)
    qed
  qed
  from assms(2) show ?thesis
    by (rule server_step_cases) (use ev moved_mode mode_ps.run_blind in \<open>auto\<close>)
qed

section \<open>All rounds\<close>

abbreviation server_run :: "nat \<times> iperf_state \<Rightarrow> server_event list \<Rightarrow> nat \<times> iperf_state \<Rightarrow> bool" where
  "server_run \<equiv> run_of server_step server_heard"

lemma server_end_value:
  assumes "server_ends (n, s) v s'"
  shows "v = 0 \<and> s' = s \<and> t_state (tst s) = IPERF_DONE \<or> v = -1"
  using assms by (rule server_ends_cases) (use wpD [OF server_returns] in auto)


text \<open>
  C6: the server follows its protocol. Whenever its loop returns, the rounds before the last accepted
  at most one client, and that only without one, and took the test along the protocol's path: to
  \<open>CREATE_STREAMS\<close> with the client, to \<open>TEST_RUNNING\<close> once the streams are there, and else where the
  client's messages lead. A test that runs has a client, and the result is -1, or 0 with the end of the
  connection, \<open>IPERF_DONE\<close> or \<open>CLIENT_TERMINATE\<close> as the last thing heard.
\<close>

theorem server_course:
  assumes "t_role (tst s) \<noteq> CHR ''c''" "t_state (tst s) \<noteq> IPERF_DONE" "server_loop n s = Some (v, s')"
  shows "\<exists>es n1 s1. server_run (n, s) es (n1, s1) \<and> server_path (t_state (tst s)) es (t_state (tst s1)) \<and>
    count_list es Connected \<le> (if t_ctrl_sck (tst s) = -1 then 1 else 0) \<and>
    (t_state (tst s1) = TEST_RUNNING \<longrightarrow> Connected \<in> set es \<or> t_state (tst s) \<in> {CREATE_STREAMS, TEST_RUNNING}) \<and>
    (v = -1 \<or> v = 0 \<and> s' = s1 \<and> t_state (tst s') = IPERF_DONE \<and> es \<noteq> [] \<and>
       last es \<in> {Hung_up, Message IPERF_DONE, Message CLIENT_TERMINATE})"
proof -
  let ?P = "\<lambda>es c. server_moved s es (snd c)"
  have "\<exists>es c. server_run (n, s) es c \<and> ?P es c \<and> server_ends c v s'"
  proof (rule server.course [where heard = server_heard])
    show "?P (es @ server_heard c1) c2" if "?P es c1" "server_step c1 c2" for es c1 c2
    proof -
      obtain n1 s1 n2 s2 where c: "c1 = (n1, s1)" "c2 = (n2, s2)" by (cases c1; cases c2)
      have "t_role (tst s1) \<noteq> CHR ''c''" using that(1) assms(1) c by (simp add: server_moved_def)
      from round_moved [OF this, of n1 n2 s2] that c show ?thesis by (auto intro: moved_append)
    qed
  qed (use assms in \<open>simp_all add: moved_none\<close>)
  then obtain es n1 s1 where run: "server_run (n, s) es (n1, s1)" and moved: "server_moved s es s1"
    and fin: "server_ends (n1, s1) v s'" by (auto simp del: split_paired_Ex)
  have path: "server_path (t_state (tst s)) es (t_state (tst s1))" using moved by (simp add: server_moved_def)
  moreover have "count_list es Connected \<le> (if t_ctrl_sck (tst s) = -1 then 1 else 0)"
    using moved by (auto simp: server_moved_def split: if_splits)
  moreover have "t_state (tst s1) = TEST_RUNNING \<longrightarrow> Connected \<in> set es \<or> t_state (tst s) \<in> {CREATE_STREAMS, TEST_RUNNING}"
    using path_running [OF path] by auto
  moreover have "t_state (tst s1) = IPERF_DONE \<Longrightarrow> es \<noteq> [] \<and> last es \<in> {Hung_up, Message IPERF_DONE, Message CLIENT_TERMINATE}"
    using path_done [OF path assms(2)] .
  ultimately show ?thesis using run server_end_value [OF fin] by blast
qed

section \<open>An instance\<close>

text \<open>A server whose client goes away in the middle of the test.\<close>

definition ex_gone :: "syscall list \<Rightarrow> sysret" where
  "ex_gone tr = (case tr of SSelect n rs ws t # _ \<Rightarrow> SysRet 1 0 [] [0, 0, 10] | _ \<Rightarrow> SysRet 0 0 [] [])"

definition ex_left :: iperf_state where
  "ex_left = ex_state ex_gone
     ((default_test test0)\<lparr>t_role := CHR ''s'', t_listener := 4, t_ctrl_sck := 5, t_read_set := [4, 5], t_state := TEST_RUNNING\<rparr>)"

lemma ex_left_simps [simp]: "t_role (tst ex_left) = CHR ''s''" "t_listener (tst ex_left) = 4" "t_ctrl_sck (tst ex_left) = 5"
  "t_read_set (tst ex_left) = [4, 5]" "t_state (tst ex_left) = TEST_RUNNING" "w_oracle ex_left = ex_gone" "timers ex_left = []"
  by (simp_all add: ex_left_def ex_state_def)

lemma ex_left_loop: "\<exists>s'. server_loop 1 ex_left = Some (0, s')"
proof -
  obtain sel s1 where w: "run_state wait_for_events ex_left = (sel, s1)" by fastforce
  then have sel: "0 < sel_result sel" "sel_read sel = [5]" "sel_timeout sel = None" "w_oracle s1 = ex_gone"
    by (auto simp: wait_for_events_def select_fds_def tmr_timeout_def Let_def answer_def ex_gone_def)
  have m: "t_listener (tst s1) = 4" "t_ctrl_sck (tst s1) = 5"
    using w by (auto simp: wait_for_events_def select_fds_def tmr_timeout_def Let_def)
  have rd: "fst (fst (run_state (Nread 5 1) s1)) = 0" using sel(4) by (simp add: Nread_def Nread_loop.simps answer_def ex_gone_def read_result_def i32_def)
  obtain r s2 where h: "run_state iperf_handle_message_server s1 = (r, s2)" by fastforce
  then have r: "r = 0" "t_state (tst s2) = IPERF_DONE"
    using rd m by (auto simp: iperf_handle_message_server_def split_beta)
  have "run_state (server_events 1) ex_left = (Server_next 1, s2)"
    using w sel m h r
    by (simp add: server_events_def server_ready_def server_transfer_def fd_isset_def fd_clr_def Let_def state_codes)
  then have "server_step (1, ex_left) (1, s2)" by (intro to_next) (simp_all add: state_codes)
  moreover have "server_ends (1, s2) 0 s2" using r(2) by (rule over)
  ultimately show ?thesis using server_loop_of_step server_loop_of_end by metis
qed

theorem server_course_witness:
  "\<exists>s' es n1. server_loop 1 ex_left = Some (0, s') \<and> server_run (1, ex_left) es (n1, s') \<and>
     server_path TEST_RUNNING es IPERF_DONE \<and> Connected \<notin> set es \<and>
     last es \<in> {Hung_up, Message IPERF_DONE, Message CLIENT_TERMINATE}"
proof -
  obtain s' where l: "server_loop 1 ex_left = Some (0, s')" using ex_left_loop by blast
  have "t_role (tst ex_left) \<noteq> CHR ''c''" "t_state (tst ex_left) \<noteq> IPERF_DONE" by (simp_all add: state_codes)
  from server_course [OF this l] l show ?thesis by (auto simp: count_list_0_iff)
qed

end
