(* ===== verification/Args.thy ===== *)
theory Args
  imports Errors Report
begin

text \<open>
  The command line (\<open>iperf_parse_arguments\<close>, \<open>iperf_api.c\<close>): \<open>getopt_long\<close> with the program's options,
  the switch over the options and the checks that follow it.

  \<open>getopt_long\<close> turns the arguments into a list of flags with their values; what it prints itself
  about a wrong option is left out. Options may stand between other arguments, which are ignored;
  a long option may be abbreviated as long as the prefix is that of one option only.
\<close>

section \<open>Numbers in arguments\<close>

fun digit_of :: "char \<Rightarrow> int option" where
  "digit_of c =
     (if is_digit c then Some (digit_val c)
      else (let n = of_char c :: int in
        if 97 \<le> n \<and> n \<le> 122 then Some (n - 87) else if 65 \<le> n \<and> n \<le> 90 then Some (n - 55) else None))"

text \<open>The value of the leading digits of a base, and how many there are.\<close>

fun scan_base :: "int \<Rightarrow> int \<Rightarrow> string \<Rightarrow> int \<times> nat" where
  "scan_base b n [] = (n, 0)"
| "scan_base b n (c # cs) =
     (case digit_of c of
        None \<Rightarrow> (n, 0)
      | Some d \<Rightarrow> if d < b then (case scan_base b (n * b + d) cs of (m, k) \<Rightarrow> (m, Suc k)) else (n, 0))"

definition hex_prefix :: "string \<Rightarrow> bool" where
  "hex_prefix s \<longleftrightarrow>
     (case s of
        c0 # c1 # c2 # _ \<Rightarrow> c0 = CHR ''0'' \<and> (c1 = CHR ''x'' \<or> c1 = CHR ''X'') \<and>
          (case digit_of c2 of None \<Rightarrow> False | Some d \<Rightarrow> d < 16)
      | _ \<Rightarrow> False)"

text \<open>\<open>strtol\<close>; \<open>None\<close> when it converts nothing. The value saturates at 64 bits.\<close>

definition strtol :: "string \<Rightarrow> int \<Rightarrow> int option" where
  "strtol str b =
     (case scan_sign (dropWhile is_space str) of (sg, s) \<Rightarrow>
        let (m, k) = (if b = 0 \<and> hex_prefix s then scan_base 16 0 (drop 2 s)
                      else if b = 0 then scan_base (if s \<noteq> [] \<and> hd s = CHR ''0'' then 8 else 10) 0 s
                      else scan_base b 0 s)
        in if k = 0 then None else Some (saturate (- (2 ^ 63)) (2 ^ 63 - 1) (sg * m)))"

definition atoi :: "string \<Rightarrow> int" where
  "atoi s = i32 (case strtol s 10 of None \<Rightarrow> 0 | Some n \<Rightarrow> n)"

definition atof :: "string \<Rightarrow> double" where
  "atof s = (case scan_double s of None \<Rightarrow> Fin 0 | Some (d, _) \<Rightarrow> d)"

text \<open>The functions of \<open>units.c\<close> return what a variable holds that nothing was read into.\<close>

definition garbage :: "double iperf_m" where
  "garbage = do { u \<leftarrow> syscall (SUninit 8); ret (uninit_double u) }"

definition read_atof :: "string \<Rightarrow> double iperf_m" where
  "read_atof s = (case unit_atof s of None \<Rightarrow> garbage | Some d \<Rightarrow> ret d)"

definition read_atof_rate :: "string \<Rightarrow> double iperf_m" where
  "read_atof_rate s = (case unit_atof_rate s of None \<Rightarrow> garbage | Some d \<Rightarrow> ret d)"

definition read_atoi :: "string \<Rightarrow> int iperf_m" where
  "read_atoi s = (case unit_atoi s of None \<Rightarrow> do { d \<leftarrow> garbage; ret (d_to_u64 d) } | Some n \<Rightarrow> ret n)"

section \<open>The options\<close>

definition OPT_SCTP :: int where "OPT_SCTP = 1"
definition OPT_LOGFILE :: int where "OPT_LOGFILE = 2"
definition OPT_GET_SERVER_OUTPUT :: int where "OPT_GET_SERVER_OUTPUT = 3"
definition OPT_UDP_COUNTERS_64BIT :: int where "OPT_UDP_COUNTERS_64BIT = 4"
definition OPT_CLIENT_PORT :: int where "OPT_CLIENT_PORT = 5"
definition OPT_NUMSTREAMS :: int where "OPT_NUMSTREAMS = 6"
definition OPT_NO_FQ_SOCKET_PACING :: int where "OPT_NO_FQ_SOCKET_PACING = 9"
definition OPT_TMP_PATH :: int where "OPT_TMP_PATH = 10"

definition chr_flag :: "char \<Rightarrow> int" where
  "chr_flag c = of_char c"

definition optstring :: string where
  "optstring = ''p:f:i:D1VJvsc:ub:t:n:k:l:P:Rw:B:M:N46S:L:ZO:F:A:T:C:dI:hX:''"

text \<open>A long option: its name, whether it takes an argument, and its flag.\<close>

definition longopts :: "(string \<times> bool \<times> int) list" where
  "longopts =
    [(''port'', True, chr_flag CHR ''p''), (''format'', True, chr_flag CHR ''f''),
     (''interval'', True, chr_flag CHR ''i''), (''daemon'', False, chr_flag CHR ''D''),
     (''one-off'', False, chr_flag CHR ''1''), (''verbose'', False, chr_flag CHR ''V''),
     (''json'', False, chr_flag CHR ''J''), (''version'', False, chr_flag CHR ''v''),
     (''server'', False, chr_flag CHR ''s''), (''client'', True, chr_flag CHR ''c''),
     (''udp'', False, chr_flag CHR ''u''), (''bandwidth'', True, chr_flag CHR ''b''),
     (''time'', True, chr_flag CHR ''t''), (''bytes'', True, chr_flag CHR ''n''),
     (''blockcount'', True, chr_flag CHR ''k''), (''length'', True, chr_flag CHR ''l''),
     (''parallel'', True, chr_flag CHR ''P''), (''reverse'', False, chr_flag CHR ''R''),
     (''window'', True, chr_flag CHR ''w''), (''bind'', True, chr_flag CHR ''B''),
     (''cport'', True, OPT_CLIENT_PORT), (''set-mss'', True, chr_flag CHR ''M''),
     (''no-delay'', False, chr_flag CHR ''N''), (''version4'', False, chr_flag CHR ''4''),
     (''version6'', False, chr_flag CHR ''6''), (''tos'', True, chr_flag CHR ''S''),
     (''zerocopy'', False, chr_flag CHR ''Z''), (''omit'', True, chr_flag CHR ''O''),
     (''file'', True, chr_flag CHR ''F''), (''title'', True, chr_flag CHR ''T''),
     (''pidfile'', True, chr_flag CHR ''I''), (''logfile'', True, OPT_LOGFILE),
     (''get-server-output'', False, OPT_GET_SERVER_OUTPUT),
     (''udp-counters-64bit'', False, OPT_UDP_COUNTERS_64BIT),
     (''no-fq-socket-pacing'', False, OPT_NO_FQ_SOCKET_PACING),
     (''debug'', False, chr_flag CHR ''d''), (''help'', False, chr_flag CHR ''h''),
     (''tmp-path'', True, OPT_TMP_PATH)]"

section \<open>\<open>getopt_long\<close>\<close>

text \<open>Whether a short option takes an argument.\<close>

fun opt_kind :: "string \<Rightarrow> char \<Rightarrow> bool option" where
  "opt_kind [] c = None"
| "opt_kind (o1 # os) c =
     (if o1 = c \<and> c \<noteq> CHR '':'' then Some (os \<noteq> [] \<and> hd os = CHR '':'') else opt_kind os c)"

definition opt_error :: "int \<times> string" where
  "opt_error = (chr_flag CHR ''?'', [])"

text \<open>The short options of one argument, and the arguments after it that are not consumed.\<close>

fun short_options :: "string \<Rightarrow> string list \<Rightarrow> (int \<times> string) list \<times> string list" where
  "short_options [] rest = ([], rest)"
| "short_options (c # cs) rest =
     (case opt_kind optstring c of
        None \<Rightarrow> (case short_options cs rest of (os, r) \<Rightarrow> (opt_error # os, r))
      | Some False \<Rightarrow> (case short_options cs rest of (os, r) \<Rightarrow> ((chr_flag c, []) # os, r))
      | Some True \<Rightarrow>
          if cs \<noteq> [] then ([(chr_flag c, cs)], rest)
          else (case rest of [] \<Rightarrow> ([opt_error], []) | a # as \<Rightarrow> ([(chr_flag c, a)], as)))"

definition is_prefix :: "string \<Rightarrow> string \<Rightarrow> bool" where
  "is_prefix p s \<longleftrightarrow> take (length p) s = p"

definition find_long :: "string \<Rightarrow> (string \<times> bool \<times> int) option" where
  "find_long name =
     (case List.find (\<lambda>(n, _). n = name) longopts of
        Some x \<Rightarrow> Some x
      | None \<Rightarrow> (case filter (\<lambda>(n, _). is_prefix name n) longopts of [x] \<Rightarrow> Some x | _ \<Rightarrow> None))"

text \<open>A long option, without its two dashes.\<close>

definition long_option :: "string \<Rightarrow> string list \<Rightarrow> (int \<times> string) \<times> string list" where
  "long_option s rest =
     (let name = takeWhile (\<lambda>c. c \<noteq> CHR ''='') s; v = dropWhile (\<lambda>c. c \<noteq> CHR ''='') s
      in case find_long name of
           None \<Rightarrow> (opt_error, rest)
         | Some (_, has_arg, flag) \<Rightarrow>
             if \<not> has_arg then (if v = [] then (flag, []) else opt_error, rest)
             else if v \<noteq> [] then ((flag, tl v), rest)
             else (case rest of [] \<Rightarrow> (opt_error, []) | a # as \<Rightarrow> ((flag, a), as)))"

lemma length_short_options: "length (snd (short_options cs rest)) \<le> length rest"
  by (induction cs rest rule: short_options.induct) (auto split: option.splits bool.splits prod.splits list.splits)

lemma length_long_option: "length (snd (long_option s rest)) \<le> length rest"
  by (auto simp: long_option_def Let_def split: option.splits prod.splits list.splits)

function getopt_long :: "string list \<Rightarrow> (int \<times> string) list" where
  "getopt_long [] = []"
| "getopt_long (a # as) =
     (if a = ''--'' then []
      else if is_prefix ''--'' a then
        (case long_option (drop 2 a) as of (x, r) \<Rightarrow> x # getopt_long r)
      else if is_prefix ''-'' a \<and> a \<noteq> ''-'' then
        (case short_options (tl a) as of (os, r) \<Rightarrow> os @ getopt_long r)
      else getopt_long as)"
  by pat_completeness auto
termination
proof (relation "measure length")
  fix a as x r
  assume "(x, r) = long_option (drop 2 a) as"
  then show "(r, a # as) \<in> measure length"
    using length_long_option [of "drop 2 a" as] by (metis in_measure length_Cons less_Suc_eq_le snd_conv)
next
  fix a as x r
  assume "(x, r) = short_options (tl a) as"
  then show "(r, a # as) \<in> measure length"
    using length_short_options [of "tl a" as] by (metis in_measure length_Cons less_Suc_eq_le snd_conv)
qed auto

section \<open>The switch\<close>

definition usage_longstr :: string where
  "usage_longstr = concat (map (\<lambda>l. l @ nl)
    [''Usage: iperf [-s|-c host] [options]'',
     ''       iperf [-h|--help] [-v|--version]'',
     [],
     ''Server or Client:'',
     ''  -p, --port      #         server port to listen on/connect to'',
     ''  -f, --format    [kmgKMG]  format to report: Kbits, Mbits, KBytes, MBytes'',
     ''  -i, --interval  #         seconds between periodic bandwidth reports'',
     ''  -F, --file name           xmit/recv the specified file'',
     ''  -B, --bind      <host>    bind to a specific interface'',
     ''  -V, --verbose             more detailed output'',
     ''  -J, --json                output in JSON format'',
     ''  --logfile f               send output to a log file'',
     ''  -d, --debug               emit debugging output'',
     ''  -v, --version             show version information and quit'',
     ''  -h, --help                show this message and quit'',
     ''Server specific:'',
     ''  -s, --server              run in server mode'',
     ''  -D, --daemon              run the server as a daemon'',
     ''  -I, --pidfile file        write PID file'',
     ''  -1, --one-off             handle one client connection then exit'',
     ''Client specific:'',
     ''  -c, --client    <host>    run in client mode, connecting to <host>'',
     ''  -u, --udp                 use UDP rather than TCP'',
     ''  -b, --bandwidth #[KMG][/#] target bandwidth in bits/sec (0 for unlimited)'',
     ''                            (default %d Mbit/sec for UDP, unlimited for TCP)'',
     ''                            (optional slash and packet count for burst mode)'',
     ''  -t, --time      #         time in seconds to transmit for (default %d secs)'',
     ''  -n, --bytes     #[KMG]    number of bytes to transmit (instead of -t)'',
     ''  -k, --blockcount #[KMG]   number of blocks (packets) to transmit (instead of -t or -n)'',
     ''  -l, --len       #[KMG]    length of buffer to read or write'',
     ''                            (default %d KB for TCP, %d KB for UDP)'',
     ''  --cport         <port>    bind to a specific client port (TCP and UDP, default: ephemeral port)'',
     ''  -P, --parallel  #         number of parallel client streams to run'',
     ''  -R, --reverse             run in reverse mode (server sends, client receives)'',
     ''  -w, --window    #[KMG]    set window size / socket buffer size'',
     ''  -M, --set-mss   #         set TCP/SCTP maximum segment size (MTU - 40 bytes)'',
     ''  -N, --no-delay            set TCP/SCTP no delay, disabling Nagle's Algorithm'',
     ''  -4, --version4            only use IPv4'',
     ''  -6, --version6            only use IPv6'',
     ''  -S, --tos N               set the IP 'type of service'' @ [CHR 0x27],
     ''  -Z, --zerocopy            use a 'zero copy' method of sending data'',
     ''  -O, --omit N              omit the first n seconds'',
     ''  -T, --title str           prefix every output line with this string'',
     ''  --get-server-output       get results from server'',
     ''  --udp-counters-64bit      use 64-bit counters in UDP test packets'',
     [],
     ''[KMG] indicates options that support a K/M/G suffix for kilo-, mega-, or giga-'',
     [],
     ''iperf3 homepage at: http://software.es.net/iperf/'',
     ''Report bugs to:     https://github.com/esnet/iperf''])"

definition usage_long :: "unit iperf_m" where
  "usage_long = sys_do (SStderr (c_printf usage_longstr
     [PInt (UDP_RATE div (1024 * 1024)), PInt DURATION, PInt (DEFAULT_TCP_BLKSIZE div 1024), PInt (DEFAULT_UDP_BLKSIZE div 1024)]))"

text \<open>The local variables of the function, and how one round of its loop ends.\<close>

record parse_locals =
  pl_blksize :: int
  pl_server_flag :: bool
  pl_client_flag :: bool
  pl_rate_flag :: bool
  pl_duration_flag :: bool

definition parse_locals0 :: parse_locals where
  "parse_locals0 = \<lparr>pl_blksize = 0, pl_server_flag = False, pl_client_flag = False, pl_rate_flag = False, pl_duration_flag = False\<rparr>"

datatype parse_step = Parse_next parse_locals | Parse_return int | Parse_exit int

definition parse_fail :: "int \<Rightarrow> parse_step iperf_m" where
  "parse_fail e = do { set_i_errno e; ret (Parse_return (-1)) }"

definition for_client :: "parse_locals \<Rightarrow> parse_locals" where
  "for_client l = l\<lparr>pl_client_flag := True\<rparr>"

definition for_server :: "parse_locals \<Rightarrow> parse_locals" where
  "for_server l = l\<lparr>pl_server_flag := True\<rparr>"

definition put_t :: "(iperf_test \<Rightarrow> iperf_test) \<Rightarrow> parse_locals \<Rightarrow> parse_step iperf_m" where
  "put_t f l = do { mod_t f; ret (Parse_next l) }"

text \<open>Set a field, then return with an error when it is out of range.\<close>

definition put_checked :: "(iperf_test \<Rightarrow> iperf_test) \<Rightarrow> bool \<Rightarrow> int \<Rightarrow> parse_locals \<Rightarrow> parse_step iperf_m" where
  "put_checked f bad e l = do { mod_t f; if bad then parse_fail e else ret (Parse_next l) }"

definition opt_server :: "parse_locals \<Rightarrow> parse_step iperf_m" where
  "opt_server l = do {
     role \<leftarrow> get_t t_role;
     if role = CHR ''c'' then parse_fail IESERVCLIENT
     else put_t (iperf_set_test_role CHR ''s'') l }"

definition bad_interval :: "double \<Rightarrow> bool" where
  "bad_interval x \<longleftrightarrow> (d_lt x MIN_INTERVAL \<or> d_lt MAX_INTERVAL x) \<and> \<not> d_eq x (Fin 0)"

definition opt_bandwidth :: "string \<Rightarrow> parse_locals \<Rightarrow> parse_step iperf_m" where
  "opt_bandwidth optarg l =
     (let rate_arg = takeWhile (\<lambda>c. c \<noteq> CHR ''/'') optarg;
          slash = dropWhile (\<lambda>c. c \<noteq> CHR ''/'') optarg;
          burst = atoi (tl slash);
          set_rate = do {
            rate \<leftarrow> read_atof_rate rate_arg;
            put_t (set_st (\<lambda>s. s\<lparr>st_rate := d_to_u64 rate\<rparr>)) (for_client (l\<lparr>pl_rate_flag := True\<rparr>)) }
      in if slash = [] then set_rate
         else do {
           mod_t (set_st (\<lambda>s. s\<lparr>st_burst := burst\<rparr>));
           if burst \<le> 0 \<or> MAX_BURST < burst then parse_fail IEBURST else set_rate })"

text \<open>The options from \<open>-p\<close> to \<open>-c\<close>; \<open>-v\<close> goes on with \<open>-s\<close> when the process does not end.\<close>

definition parse_general :: "int \<Rightarrow> string \<Rightarrow> parse_locals \<Rightarrow> parse_step iperf_m \<Rightarrow> parse_step iperf_m" where
  "parse_general flag optarg l otherwise =
     (if flag = chr_flag CHR ''p'' then put_t (\<lambda>t. t\<lparr>t_server_port := atoi optarg\<rparr>) l
      else if flag = chr_flag CHR ''f'' then
        put_t (set_st (\<lambda>s. s\<lparr>st_unit_format := (case optarg of [] \<Rightarrow> CHR 0x00 | c # _ \<Rightarrow> c)\<rparr>)) l
      else if flag = chr_flag CHR ''i'' then
        put_checked (\<lambda>t. t\<lparr>t_stats_interval := atof optarg, t_reporter_interval := atof optarg\<rparr>)
          (bad_interval (atof optarg)) IEINTERVAL l
      else if flag = chr_flag CHR ''D'' then put_t (\<lambda>t. t\<lparr>t_daemon := 1\<rparr>) (for_server l)
      else if flag = chr_flag CHR ''1'' then put_t (\<lambda>t. t\<lparr>t_one_off := 1\<rparr>) (for_server l)
      else if flag = chr_flag CHR ''V'' then put_t (\<lambda>t. t\<lparr>t_verbose := 1\<rparr>) l
      else if flag = chr_flag CHR ''J'' then put_t (\<lambda>t. t\<lparr>t_json_output := 1\<rparr>) l
      else if flag = chr_flag CHR ''v'' then do {
        info \<leftarrow> get_system_info;
        sys_do (SStdout (c_printf (''%s'' @ nl @ ''%s'' @ nl @ ''%s'' @ nl) [PStr version_text, PStr info, PStr get_optional_features]));
        x \<leftarrow> safe_exit 0;
        case x of Exited c \<Rightarrow> ret (Parse_exit c) | Ran _ \<Rightarrow> opt_server l }
      else if flag = chr_flag CHR ''s'' then opt_server l
      else if flag = chr_flag CHR ''c'' then do {
        role \<leftarrow> get_t t_role;
        if role = CHR ''s'' then parse_fail IESERVCLIENT
        else put_t (\<lambda>t. iperf_set_test_server_hostname optarg (iperf_set_test_role CHR ''c'' t)) l }
      else otherwise)"

text \<open>The options from \<open>-u\<close> to \<open>-w\<close>; the one for streams of SCTP goes on with \<open>-b\<close>.\<close>

definition parse_amounts :: "int \<Rightarrow> string \<Rightarrow> parse_locals \<Rightarrow> parse_step iperf_m \<Rightarrow> parse_step iperf_m" where
  "parse_amounts flag optarg l otherwise =
     (if flag = chr_flag CHR ''u'' then do { _ \<leftarrow> set_protocol Pudp; ret (Parse_next (for_client l)) }
      else if flag = OPT_SCTP then parse_fail IEUNIMP
      else if flag = OPT_NUMSTREAMS then do {
        n \<leftarrow> read_atoi optarg;
        mod_t (set_st (\<lambda>s. s\<lparr>st_num_ostreams := i32 n\<rparr>));
        opt_bandwidth optarg (for_client l) }
      else if flag = chr_flag CHR ''b'' then opt_bandwidth optarg l
      else if flag = chr_flag CHR ''t'' then
        put_checked (\<lambda>t. t\<lparr>t_duration := atoi optarg\<rparr>) (MAX_TIME < atoi optarg) IEDURATION
          (for_client (l\<lparr>pl_duration_flag := True\<rparr>))
      else if flag = chr_flag CHR ''n'' then do {
        n \<leftarrow> read_atoi optarg; put_t (set_st (\<lambda>s. s\<lparr>st_bytes := n\<rparr>)) (for_client l) }
      else if flag = chr_flag CHR ''k'' then do {
        n \<leftarrow> read_atoi optarg; put_t (set_st (\<lambda>s. s\<lparr>st_blocks := n\<rparr>)) (for_client l) }
      else if flag = chr_flag CHR ''l'' then do {
        n \<leftarrow> read_atoi optarg; ret (Parse_next (for_client (l\<lparr>pl_blksize := i32 n\<rparr>))) }
      else if flag = chr_flag CHR ''P'' then
        put_checked (\<lambda>t. t\<lparr>t_num_streams := atoi optarg\<rparr>) (MAX_STREAMS < atoi optarg) IENUMSTREAMS (for_client l)
      else if flag = chr_flag CHR ''R'' then put_t (iperf_set_test_reverse 1) (for_client l)
      else if flag = chr_flag CHR ''w'' then do {
        d \<leftarrow> read_atof optarg;
        put_checked (set_st (\<lambda>s. s\<lparr>st_socket_bufsize := d_to_i32 d\<rparr>)) (MAX_TCP_BUFFER < d_to_i32 d) IEBUFSIZE (for_client l) }
      else otherwise)"

text \<open>The options from \<open>-B\<close> to \<open>-O\<close>. The names \<open>-X\<close> collects are for SCTP only.\<close>

definition parse_sockets :: "int \<Rightarrow> string \<Rightarrow> parse_locals \<Rightarrow> parse_step iperf_m \<Rightarrow> parse_step iperf_m" where
  "parse_sockets flag optarg l otherwise =
     (if flag = chr_flag CHR ''B'' then put_t (\<lambda>t. t\<lparr>t_bind_address := Some optarg\<rparr>) l
      else if flag = OPT_CLIENT_PORT then put_t (\<lambda>t. t\<lparr>t_bind_port := atoi optarg\<rparr>) l
      else if flag = chr_flag CHR ''M'' then
        put_checked (set_st (\<lambda>s. s\<lparr>st_mss := atoi optarg\<rparr>)) (MAX_MSS < atoi optarg) IEMSS (for_client l)
      else if flag = chr_flag CHR ''N'' then put_t (\<lambda>t. t\<lparr>t_no_delay := 1\<rparr>) (for_client l)
      else if flag = chr_flag CHR ''4'' then put_t (set_st (\<lambda>s. s\<lparr>st_domain := AF_INET\<rparr>)) l
      else if flag = chr_flag CHR ''6'' then put_t (set_st (\<lambda>s. s\<lparr>st_domain := AF_INET6\<rparr>)) l
      else if flag = chr_flag CHR ''S'' then
        (let n = strtol optarg 0; tos = i32 (case n of None \<Rightarrow> 0 | Some x \<Rightarrow> x) in
         put_checked (set_st (\<lambda>s. s\<lparr>st_tos := tos\<rparr>)) (n = None \<or> tos < 0 \<or> 255 < tos) IEBADTOS (for_client l))
      else if flag = chr_flag CHR ''L'' then parse_fail IEUNIMP
      else if flag = chr_flag CHR ''X'' then do {
        a \<leftarrow> sys_malloc ''xbind_entry'';
        if \<not> a then parse_fail IESETSCTPBINDX
        else do {
          b \<leftarrow> sys_malloc ''xbind name'';
          if \<not> b then parse_fail IESETSCTPBINDX else ret (Parse_next l) } }
      else if flag = chr_flag CHR ''Z'' then
        (if has_sendfile = 0 then parse_fail IENOSENDFILE else put_t (\<lambda>t. t\<lparr>t_zerocopy := 1\<rparr>) (for_client l))
      else if flag = chr_flag CHR ''O'' then
        put_checked (\<lambda>t. t\<lparr>t_omit := atoi optarg\<rparr>) (atoi optarg < 0 \<or> 60 < atoi optarg) IEOMIT (for_client l)
      else otherwise)"

text \<open>The options from \<open>-F\<close> on.\<close>

definition parse_rest :: "int \<Rightarrow> string \<Rightarrow> parse_locals \<Rightarrow> parse_step iperf_m" where
  "parse_rest flag optarg l =
     (if flag = chr_flag CHR ''F'' then put_t (\<lambda>t. t\<lparr>t_diskfile_name := Some optarg\<rparr>) l
      else if flag = chr_flag CHR ''A'' then parse_fail IEUNIMP
      else if flag = chr_flag CHR ''T'' then put_t (\<lambda>t. t\<lparr>t_title := Some optarg\<rparr>) (for_client l)
      else if flag = chr_flag CHR ''C'' then parse_fail IEUNIMP
      else if flag = chr_flag CHR ''d'' then put_t (\<lambda>t. t\<lparr>t_debug := 1\<rparr>) l
      else if flag = chr_flag CHR ''I'' then put_t (\<lambda>t. t\<lparr>t_pidfile := Some optarg\<rparr>) (for_server l)
      else if flag = OPT_LOGFILE then put_t (\<lambda>t. t\<lparr>t_logfile := Some optarg\<rparr>) l
      else if flag = OPT_GET_SERVER_OUTPUT then put_t (\<lambda>t. t\<lparr>t_get_server_output := 1\<rparr>) (for_client l)
      else if flag = OPT_UDP_COUNTERS_64BIT then put_t (\<lambda>t. t\<lparr>t_udp_counters_64bit := 1\<rparr>) l
      else if flag = OPT_NO_FQ_SOCKET_PACING then parse_fail IEUNIMP
      else if flag = OPT_TMP_PATH then put_t (\<lambda>t. t\<lparr>t_tmp_template := Some optarg\<rparr>) l
      else do {
        usage_long;
        x \<leftarrow> safe_exit 1;
        case x of Exited c \<Rightarrow> ret (Parse_exit c) | Ran _ \<Rightarrow> ret (Parse_next l) })"

definition parse_option :: "int \<times> string \<Rightarrow> parse_locals \<Rightarrow> parse_step iperf_m" where
  "parse_option opt l =
     (case opt of (flag, optarg) \<Rightarrow>
        parse_general flag optarg l
          (parse_amounts flag optarg l (parse_sockets flag optarg l (parse_rest flag optarg l))))"

fun parse_options :: "(int \<times> string) list \<Rightarrow> parse_locals \<Rightarrow> parse_step iperf_m" where
  "parse_options [] l = ret (Parse_next l)"
| "parse_options (opt # opts) l = do {
     r \<leftarrow> parse_option opt l;
     case r of Parse_next l1 \<Rightarrow> parse_options opts l1 | _ \<Rightarrow> ret r }"

section \<open>The checks\<close>

definition DEFAULT_SCTP_BLKSIZE :: int where "DEFAULT_SCTP_BLKSIZE = 64 * 1024"

definition open_logfile :: "bool iperf_m" where
  "open_logfile = do {
     f \<leftarrow> get_t t_logfile;
     case f of
       None \<Rightarrow> ret True
     | Some name \<Rightarrow> do {
         r \<leftarrow> sys_val (SFopen name);
         mod_t (\<lambda>t. t\<lparr>t_outfile := (if r < 0 then No_file else Log_file name)\<rparr>);
         if r < 0 then do { set_i_errno IELOGFILE; ret False } else ret True } }"

definition default_blksize :: "iperf_test \<Rightarrow> int \<Rightarrow> int" where
  "default_blksize t n =
     (if n \<noteq> 0 then n
      else if protocol_id_is t Pudp then DEFAULT_UDP_BLKSIZE
      else if protocol_id_is t Psctp then DEFAULT_SCTP_BLKSIZE
      else DEFAULT_TCP_BLKSIZE)"

definition fail :: "int \<Rightarrow> int iperf_m" where
  "fail e = do { set_i_errno e; ret (-1) }"

definition check_test :: "parse_locals \<Rightarrow> int iperf_m" where
  "check_test l = do {
     t \<leftarrow> get_t id;
     let blksize = default_blksize t (pl_blksize l);
     if t_role t = CHR ''c'' \<and> pl_server_flag l then fail IESERVERONLY
     else if t_role t = CHR ''s'' \<and> pl_client_flag l then fail IECLIENTONLY
     else if t_bind_address t = None \<and> t_bind_port t \<noteq> 0 then fail IEBIND
     else if blksize \<le> 0 \<or> MAX_BLOCKSIZE < blksize then fail IEBLOCKSIZE
     else if protocol_id_is t Pudp \<and> MAX_UDP_BLOCKSIZE < blksize then fail IEUDPBLOCKSIZE
     else do {
       mod_t (set_st (\<lambda>s. s\<lparr>st_blksize := blksize\<rparr>));
       when_m (\<not> pl_rate_flag l)
         (mod_t (set_st (\<lambda>s. s\<lparr>st_rate := (if protocol_id_is t Pudp then UDP_RATE else 0)\<rparr>)));
       let bytes = st_bytes (t_settings t);
       let blocks = st_blocks (t_settings t);
       when_m ((bytes \<noteq> 0 \<or> blocks \<noteq> 0) \<and> \<not> pl_duration_flag l) (mod_t (\<lambda>t. t\<lparr>t_duration := 0\<rparr>));
       if (pl_duration_flag l \<and> bytes \<noteq> 0) \<or> (pl_duration_flag l \<and> blocks \<noteq> 0) \<or> (bytes \<noteq> 0 \<and> blocks \<noteq> 0)
       then fail IEENDCONDITIONS
       else if t_role t \<noteq> CHR ''c'' \<and> t_role t \<noteq> CHR ''s'' then fail IENOROLE
       else ret 0 } }"

definition check_arguments :: "parse_locals \<Rightarrow> int iperf_m" where
  "check_arguments l = do {
     ok \<leftarrow> open_logfile;
     if \<not> ok then ret (-1) else check_test l }"

definition iperf_parse_arguments :: "string list \<Rightarrow> int outcome iperf_m" where
  "iperf_parse_arguments argv = do {
     r \<leftarrow> parse_options (getopt_long (tl argv)) parse_locals0;
     case r of
       Parse_exit c \<Rightarrow> ret (Exited c)
     | Parse_return v \<Rightarrow> ret (Ran v)
     | Parse_next l \<Rightarrow> do { v \<leftarrow> check_arguments l; ret (Ran v) } }"

end
