(* ===== verification/Main_Run.thy ===== *)
theory Main_Run
  imports Server Args
begin

text \<open>
  The entry points: \<open>main\<close> of the command-line program (\<open>main.c\<close>), the two native methods of the Java
  class (\<open>iperf3_jni_api.c\<close>) with what they read from Java (\<open>iperf3_java_callback.c\<close>,
  \<open>common_jni_util.c\<close>), and what a termination signal does (\<open>iperf_got_sigend\<close>).

  A process started from Java does not end on an error: \<open>iperf_errexit\<close> returns there, although it is
  declared \<open>noreturn\<close>, and the model goes on with the statement after the call. A signal arrives at
  any time and jumps back into \<open>run\<close>; that is \<open>exec_signalled\<close> and \<open>jni_signalled\<close>, from any state.
\<close>

section \<open>Signals\<close>

definition iperf_got_sigend :: "unit outcome iperf_m" where
  "iperf_got_sigend = do {
     t \<leftarrow> get_t id;
     when_m (t_role t = CHR ''c'' \<or> (t_role t = CHR ''s'' \<and> t_state t = TEST_RUNNING)) (do {
       mod_t (\<lambda>t. t\<lparr>t_done := 1\<rparr>);
       note_cpu_util;
       iperf_stats_callback;
       mod_t (\<lambda>t. t\<lparr>t_state := DISPLAY_RESULTS\<rparr>);
       iperf_on_test_finish;
       iperf_reporter_callback });
     sck \<leftarrow> get_t t_ctrl_sck;
     when_m (0 \<le> sck) (do {
       let st = (if t_role t = CHR ''c'' then CLIENT_TERMINATE else SERVER_TERMINATE);
       mod_t (\<lambda>t. t\<lparr>t_state := st\<rparr>);
       _ \<leftarrow> Nwrite sck [byte_of st];
       skip_m });
     let e = (if t_role t = CHR ''c'' then IECLIENTTERM else IESERVERTERM);
     set_i_errno e;
     msg \<leftarrow> iperf_strerror e;
     iperf_errexit True ''interrupt - %s'' [PStr msg] }"

definition errexit_with_reason :: "string \<Rightarrow> unit outcome iperf_m" where
  "errexit_with_reason fmt = do {
     e \<leftarrow> gets i_errno;
     msg \<leftarrow> iperf_strerror e;
     iperf_errexit True fmt [PStr msg] }"

section \<open>The program\<close>

text \<open>
  Running a step that may end the process, then the rest when it did not. \<open>None\<close> is a run that does
  not return.
\<close>

type_synonym 'a run = "iperf_state \<Rightarrow> ('a \<times> iperf_state) option"

definition and_run :: "'a outcome iperf_m \<Rightarrow> ('a \<Rightarrow> 'b outcome run) \<Rightarrow> 'b outcome run" where
  "and_run m f s = (case run_state m s of
      (Exited c, s1) \<Rightarrow> Some (Exited c, s1)
    | (Ran a, s1) \<Rightarrow> f a s1)"

definition lift_run :: "'a iperf_m \<Rightarrow> ('a \<Rightarrow> 'b outcome run) \<Rightarrow> 'b outcome run" where
  "lift_run m f s = (case run_state m s of (a, s1) \<Rightarrow> f a s1)"

text \<open>What follows one run of the server: report, reset, and whether to leave the loop.\<close>

datatype serve_round = Serve_exit int | Serve_break | Serve_again

definition after_server :: "int \<Rightarrow> serve_round iperf_m" where
  "after_server rc = do {
     out \<leftarrow> (if rc < 0 then do {
               e \<leftarrow> gets i_errno;
               msg \<leftarrow> iperf_strerror e;
               iperf_err True ''error - %s'' [PStr msg];
               if rc < -1 then do {
                 x \<leftarrow> iperf_errexit True ''exiting'' [];
                 ret (case x of Exited c \<Rightarrow> Some (Serve_exit c) | Ran _ \<Rightarrow> Some Serve_break) }
               else ret None }
             else ret None);
     case out of
       Some r \<Rightarrow> ret r
     | None \<Rightarrow> do {
         iperf_reset_test;
         one_off \<leftarrow> get_t iperf_get_test_one_off;
         ret (if one_off \<noteq> 0 then Serve_break else Serve_again) } }"

partial_function (option) serve_loop :: "iperf_state \<Rightarrow> (unit outcome \<times> iperf_state) option" where
  "serve_loop s =
     Option.bind (iperf_run_server s) (\<lambda>(rc, s1).
       case run_state (after_server rc) s1 of (r, s2) \<Rightarrow>
         (case r of
            Serve_exit c \<Rightarrow> Some (Exited c, s2)
          | Serve_break \<Rightarrow> Some (Ran (), s2)
          | Serve_again \<Rightarrow> serve_loop s2))"

definition run_server_prepare :: "unit outcome iperf_m" where
  "run_server_prepare = do {
     t \<leftarrow> get_t id;
     rc \<leftarrow> (if t_daemon t \<noteq> 0 then sys_val SDaemon else ret 0);
     d \<leftarrow> (if rc < 0 then do { set_i_errno IEDAEMON; errexit_with_reason ''error - %s'' } else ret (Ran ()));
     case d of
       Exited c \<Rightarrow> ret (Exited c)
     | Ran _ \<Rightarrow> do {
         p \<leftarrow> iperf_create_pidfile;
         if p < 0 then do { set_i_errno IEPIDFILE; errexit_with_reason ''error - %s'' } else ret (Ran ()) } }"

definition run_finish :: "int outcome run" where
  "run_finish = lift_run (iperf_catch_sigend ''SIG_DFL'') (\<lambda>_ s. Some (Ran 0, s))"

definition run_as_server :: "int outcome run" where
  "run_as_server =
     and_run run_server_prepare (\<lambda>_ s. Option.bind (serve_loop s) (\<lambda>(r, s1).
       case r of
         Exited c \<Rightarrow> Some (Exited c, s1)
       | Ran _ \<Rightarrow> lift_run iperf_delete_pidfile (\<lambda>_. run_finish) s1))"

definition run_as_client :: "int outcome run" where
  "run_as_client s = Option.bind (iperf_run_client s) (\<lambda>(v, s1).
     if v < 0 then and_run (errexit_with_reason ''error - %s'') (\<lambda>_. run_finish) s1
     else run_finish s1)"

definition run_role :: "int outcome run" where
  "run_role s =
     (if t_role (tst s) = CHR ''s'' then run_as_server s
      else if t_role (tst s) = CHR ''c'' then run_as_client s
      else lift_run usage (\<lambda>_. run_finish) s)"

definition exec_run :: "int outcome run" where
  "exec_run = lift_run (iperf_catch_sigend ''sigend_handler'') (\<lambda>_. run_role)"

text \<open>The jump back from the handler: \<open>setjmp\<close> returns 1.\<close>

definition exec_signalled :: "int outcome run" where
  "exec_signalled = and_run iperf_got_sigend (\<lambda>_. run_role)"

definition exec_prepare :: "string list \<Rightarrow> unit outcome iperf_m" where
  "exec_prepare argv = do {
     modify (\<lambda>s. s\<lparr>invoke_flag := INVOKE_TYPE_EXEC\<rparr>);
     ok \<leftarrow> iperf_new_test;
     if \<not> ok then do {
       e \<leftarrow> gets i_errno;
       msg \<leftarrow> iperf_strerror e;
       iperf_errexit False ''create new test error - %s'' [PStr msg] }
     else do {
       _ \<leftarrow> iperf_defaults;
       r \<leftarrow> iperf_parse_arguments argv;
       case r of
         Exited c \<Rightarrow> ret (Exited c)
       | Ran v \<Rightarrow>
           if 0 \<le> v then ret (Ran ())
           else do {
             e \<leftarrow> gets i_errno;
             msg \<leftarrow> iperf_strerror e;
             iperf_err True ''parameter error - %s'' [PStr msg];
             sys_do (SStderr nl);
             usage_long;
             safe_exit 1 } } }"

definition main :: "string list \<Rightarrow> int outcome run" where
  "main argv =
     and_run (exec_prepare argv) (\<lambda>_ s. Option.bind (exec_run s) (\<lambda>(r, s1).
       case r of
         Exited c \<Rightarrow> Some (Exited c, s1)
       | Ran v \<Rightarrow>
           and_run (if v < 0 then errexit_with_reason ''error - %s'' else ret (Ran ()))
             (\<lambda>_. lift_run iperf_free_test (\<lambda>_ s2. Some (Ran 0, s2))) s1))"

section \<open>Java\<close>

definition TMP_PATH_PREFIX :: string where "TMP_PATH_PREFIX = ''/data/data/''"
definition TMP_PATH_SUFFIX :: string where "TMP_PATH_SUFFIX = ''/files/iperf3.XXXXXX''"

text \<open>\<open>getSafeTmpPath\<close>: the path, and the number of bytes allocated for it.\<close>

definition getSafeTmpPath :: "string \<Rightarrow> string \<times> nat" where
  "getSafeTmpPath package_name =
     (TMP_PATH_PREFIX @ package_name @ TMP_PATH_SUFFIX,
      length TMP_PATH_PREFIX + length package_name + length TMP_PATH_SUFFIX)"

text \<open>The fields of \<open>Iperf3Config\<close> the code reads, as Java delivers them.\<close>

record java_config =
  jc_mServerAddr :: string
  jc_mServerPort :: int
  jc_isDownMode :: bool
  jc_interval :: double
  jc_bandwidth :: int
  jc_formatUnit :: nat
  jc_parallels :: int

definition apply_java_config :: "string \<Rightarrow> java_config \<Rightarrow> iperf_test \<Rightarrow> iperf_test" where
  "apply_java_config package_name config t =
     (let t1 = iperf_set_test_role CHR ''c'' t;
          t2 = iperf_set_test_server_hostname (jc_mServerAddr config) t1;
          t3 = iperf_set_test_server_port (jc_mServerPort config) t2;
          t4 = (if jc_isDownMode config then iperf_set_test_reverse 1 t3 else t3);
          t5 = iperf_set_test_rate (u64 (jc_bandwidth config)) t4;
          t6 = iperf_set_test_unit_format (char_of (jc_formatUnit config)) t5;
          t7 = iperf_set_test_num_streams (jc_parallels config) t6;
          t8 = iperf_set_test_template (fst (getSafeTmpPath package_name)) t7;
          t9 = iperf_set_test_stats_interval (jc_interval config) t8
      in iperf_set_test_reporter_interval (jc_interval config) t9)"

definition parse_java_config :: "string \<Rightarrow> java_config \<Rightarrow> int iperf_m" where
  "parse_java_config package_name config = do {
     mod_t (apply_java_config package_name config);
     ret 0 }"

text \<open>When the allocation fails the test is freed, and the callers, which ignore the result, go on with it.\<close>

definition construct_java_callback :: "int iperf_m" where
  "construct_java_callback = do {
     ok \<leftarrow> sys_malloc ''jni_callback'';
     if \<not> ok then do {
       set_i_errno IENEWTEST;
       sys_do (SCrash ''freed test'');
       ret 0 }
     else do {
       mod_t (\<lambda>t. t\<lparr>t_jniCallback := True\<rparr>);
       ret 0 } }"

definition report_error :: "unit outcome iperf_m" where
  "report_error = do {
     e \<leftarrow> gets i_errno;
     err_str \<leftarrow> iperf_strerror e;
     jni_call ''onError'' [err_str] [] [];
     iperf_errexit True ''error - %s'' [PStr err_str] }"

definition jni_run_client :: "int outcome run" where
  "jni_run_client s = Option.bind (iperf_run_client s) (\<lambda>(v, s1).
     if v < 0 then and_run report_error (\<lambda>_. run_finish) s1 else run_finish s1)"

definition jni_run_role :: "int outcome run" where
  "jni_run_role s =
     (if t_role (tst s) = CHR ''c'' then jni_run_client s
      else lift_run usage (\<lambda>_. run_finish) s)"

definition jni_run :: "int outcome run" where
  "jni_run = lift_run (iperf_catch_sigend ''sigend_handler'') (\<lambda>_. jni_run_role)"

definition jni_signalled :: "int outcome run" where
  "jni_signalled = and_run iperf_got_sigend (\<lambda>_. jni_run_role)"

text \<open>A new test for Java; without one the code goes on with a null pointer.\<close>

definition jni_new_test :: "unit iperf_m" where
  "jni_new_test = do {
     ok \<leftarrow> iperf_new_test;
     when_m (\<not> ok) (do {
       e \<leftarrow> gets i_errno;
       msg \<leftarrow> iperf_strerror e;
       _ \<leftarrow> iperf_errexit False ''create new test error - %s'' [PStr msg];
       sys_do (SCrash ''test'') });
     _ \<leftarrow> iperf_defaults;
     skip_m }"

definition jni_finish :: "int \<Rightarrow> unit outcome run" where
  "jni_finish v =
     and_run (if v < 0 then report_error else ret (Ran ()))
       (\<lambda>_. lift_run iperf_free_test (\<lambda>_ s. Some (Ran (), s)))"

definition jni_run_and_finish :: "unit outcome run" where
  "jni_run_and_finish s = Option.bind (jni_run s) (\<lambda>(r, s1).
     case r of Exited c \<Rightarrow> Some (Exited c, s1) | Ran v \<Rightarrow> jni_finish v s1)"

definition Iperf3Client_exec :: "string \<Rightarrow> java_config \<Rightarrow> unit outcome run" where
  "Iperf3Client_exec package_name config =
     lift_run (do {
       modify (\<lambda>s. s\<lparr>invoke_flag := INVOKE_TYPE_JNI\<rparr>);
       jni_new_test;
       _ \<leftarrow> parse_java_config package_name config;
       construct_java_callback }) (\<lambda>_. jni_run_and_finish)"

definition Iperf3Client_simpleTest :: "string \<Rightarrow> string \<Rightarrow> string \<Rightarrow> bool \<Rightarrow> unit outcome run" where
  "Iperf3Client_simpleTest package_name ip port isDownMode =
     lift_run (do {
       modify (\<lambda>s. s\<lparr>invoke_flag := INVOKE_TYPE_JNI\<rparr>);
       jni_new_test;
       _ \<leftarrow> construct_java_callback;
       mod_t (iperf_set_test_role CHR ''c'');
       mod_t (iperf_set_test_server_hostname ip);
       mod_t (\<lambda>t. t\<lparr>t_server_port := atoi port\<rparr>);
       mod_t (iperf_set_test_template (fst (getSafeTmpPath package_name)));
       when_m isDownMode (mod_t (iperf_set_test_reverse 1)) }) (\<lambda>_. jni_run_and_finish)"

end
