(* ===== verification/Args_Facts.thy ===== *)
theory Args_Facts
  imports Args Wire
begin

text \<open>
  The command line: what a test that was accepted satisfies, and different spellings of an option.
\<close>

section \<open>What the checks guarantee\<close>

definition ranges :: "iperf_test \<Rightarrow> bool" where
  "ranges t \<longleftrightarrow> t_duration t \<le> MAX_TIME \<and> t_num_streams t \<le> MAX_STREAMS \<and> 0 \<le> t_omit t \<and> t_omit t \<le> 60 \<and>
     st_mss (t_settings t) \<le> MAX_MSS \<and> 0 \<le> st_burst (t_settings t) \<and> st_burst (t_settings t) \<le> MAX_BURST \<and>
     0 \<le> st_tos (t_settings t) \<and> st_tos (t_settings t) \<le> 255 \<and> st_socket_bufsize (t_settings t) \<le> MAX_TCP_BUFFER \<and>
     \<not> bad_interval (t_stats_interval t) \<and> t_reporter_interval t = t_stats_interval t"

definition accepted :: "iperf_test \<Rightarrow> bool" where
  "accepted t \<longleftrightarrow> ranges t \<and> (t_role t = CHR ''c'' \<or> t_role t = CHR ''s'') \<and>
     0 < st_blksize (t_settings t) \<and> st_blksize (t_settings t) \<le> MAX_BLOCKSIZE \<and>
     (protocol_id_is t Pudp \<longrightarrow> st_blksize (t_settings t) \<le> MAX_UDP_BLOCKSIZE) \<and>
     (t_bind_address t = None \<longrightarrow> t_bind_port t = 0) \<and>
     (st_bytes (t_settings t) \<noteq> 0 \<longrightarrow> t_duration t = 0 \<and> st_blocks (t_settings t) = 0) \<and>
     (st_blocks (t_settings t) \<noteq> 0 \<longrightarrow> t_duration t = 0)"

fun step_post :: "parse_step \<Rightarrow> iperf_state \<Rightarrow> bool" where
  "step_post (Parse_next l) s = ranges (tst s)"
| "step_post (Parse_return v) s = (v = -1)"
| "step_post (Parse_exit c) s = True"

definition step_ok :: "parse_step iperf_m \<Rightarrow> bool" where
  "step_ok m \<longleftrightarrow> (\<forall>s. ranges (tst s) \<longrightarrow>
     wp m step_post s)"

lemma step_okI: "(\<And>s. ranges (tst s) \<Longrightarrow>
    wp m step_post s) \<Longrightarrow> step_ok m"
  by (simp add: step_ok_def)

lemma step_ok_fail: "step_ok (parse_fail e)"
  by (rule step_okI) (simp add: parse_fail_def wp_simps)

lemma step_ok_ret: "step_ok (ret (Parse_next l))" "step_ok (ret (Parse_exit c))"
  by (rule step_okI, simp add: wp_simps)+

lemma step_ok_put: "(\<And>t. ranges t \<Longrightarrow> ranges (f t)) \<Longrightarrow> step_ok (put_t f l)"
  by (rule step_okI) (simp add: put_t_def wp_simps)

lemma step_ok_checked: "(\<And>t. ranges t \<Longrightarrow> \<not> bad \<Longrightarrow> ranges (f t)) \<Longrightarrow> step_ok (put_checked f bad e l)"
  by (rule step_okI) (auto simp: put_checked_def parse_fail_def wp_simps)

lemma step_ok_if: "(b \<Longrightarrow> step_ok m) \<Longrightarrow> (\<not> b \<Longrightarrow> step_ok n) \<Longrightarrow> step_ok (if b then m else n)"
  by simp

lemma step_ok_bind:
  "keeps (\<lambda>s. ranges (tst s)) m \<Longrightarrow> (\<And>a. step_ok (f a)) \<Longrightarrow> step_ok (State_Monad.bind m f)"
  by (simp add: step_ok_def wp_iff keeps_def split: prod.split) (metis snd_conv)

lemma step_ok_outcome:
  "(\<And>c. step_ok (m c)) \<Longrightarrow> (\<And>u. step_ok (n u)) \<Longrightarrow> step_ok (case x of Exited c \<Rightarrow> m c | Ran u \<Rightarrow> n u)"
  by (simp split: outcome.split)

lemma keeps_ranges:
  "keeps (\<lambda>s. ranges (tst s)) (syscall c)" "keeps (\<lambda>s. ranges (tst s)) (sys_do c)" "keeps (\<lambda>s. ranges (tst s)) (sys_malloc w)"
  "keeps (\<lambda>s. ranges (tst s)) (get_t g)" "keeps (\<lambda>s. ranges (tst s)) (safe_exit n)" "keeps (\<lambda>s. ranges (tst s)) get_system_info"
  by (auto simp: keeps_def safe_exit_def get_system_info_def)

lemma keeps_read:
  "keeps (\<lambda>s. ranges (tst s)) (read_atof x)" "keeps (\<lambda>s. ranges (tst s)) (read_atof_rate x)"
  "keeps (\<lambda>s. ranges (tst s)) (read_atoi x)"
  unfolding read_atof_def read_atof_rate_def read_atoi_def garbage_def by (intro keeps_intros keeps_ranges)+

lemma ranges_set_protocol: "keeps (\<lambda>s. ranges (tst s)) (set_protocol p)"
  unfolding set_protocol_def
  by (intro keeps_intros keeps_ranges; simp add: keeps_def check_sender_has_retransmits_def ranges_def set_i_errno_def
      split: option.split)

lemmas step_intros = step_ok_if step_ok_put step_ok_checked step_ok_fail step_ok_ret step_ok_outcome step_ok_bind
  keeps_ranges keeps_read ranges_set_protocol

lemma ranges_setters [simp]:
  "ranges (iperf_set_test_role r t) = ranges t" "ranges (iperf_set_test_reverse v t) = ranges t"
  "ranges (iperf_set_test_server_hostname h t) = ranges t"
  by (simp_all add: ranges_def iperf_set_test_role_def iperf_set_test_reverse_def check_sender_has_retransmits_def
      iperf_set_test_server_hostname_def Let_def)

lemma ranges_updates [simp]:
  "ranges (t\<lparr>t_server_port := n\<rparr>) = ranges t" "ranges (t\<lparr>t_daemon := n\<rparr>) = ranges t" "ranges (t\<lparr>t_one_off := n\<rparr>) = ranges t"
  "ranges (t\<lparr>t_verbose := n\<rparr>) = ranges t" "ranges (t\<lparr>t_json_output := n\<rparr>) = ranges t" "ranges (t\<lparr>t_no_delay := n\<rparr>) = ranges t"
  "ranges (t\<lparr>t_bind_port := n\<rparr>) = ranges t" "ranges (t\<lparr>t_bind_address := a\<rparr>) = ranges t" "ranges (t\<lparr>t_zerocopy := n\<rparr>) = ranges t"
  "ranges (t\<lparr>t_diskfile_name := a\<rparr>) = ranges t" "ranges (t\<lparr>t_title := a\<rparr>) = ranges t" "ranges (t\<lparr>t_debug := n\<rparr>) = ranges t"
  "ranges (t\<lparr>t_pidfile := a\<rparr>) = ranges t" "ranges (t\<lparr>t_logfile := a\<rparr>) = ranges t" "ranges (t\<lparr>t_get_server_output := n\<rparr>) = ranges t"
  "ranges (t\<lparr>t_udp_counters_64bit := n\<rparr>) = ranges t" "ranges (t\<lparr>t_tmp_template := a\<rparr>) = ranges t"
  by (simp_all add: ranges_def)

lemma step_ok_server: "step_ok (opt_server l)"
  unfolding opt_server_def
  by (intro step_intros) simp

lemma step_ok_guarded:
  fixes m :: "parse_step iperf_m"
  assumes "\<And>t. ranges t \<Longrightarrow> \<not> bad \<Longrightarrow> ranges (f t)" "step_ok m"
  shows "step_ok (do { mod_t f; if bad then parse_fail e else m })"
proof (rule step_okI)
  fix s :: iperf_state assume "ranges (tst s)"
  then show "wp (do { mod_t f; if bad then parse_fail e else m })
      step_post s"
    using assms by (cases bad) (simp_all add: parse_fail_def wp_simps step_ok_def)
qed

lemma step_ok_bandwidth: "step_ok (opt_bandwidth a l)"
proof -
  have r: "step_ok (do { rate \<leftarrow> read_atof_rate x; put_t (set_st (\<lambda>s. s\<lparr>st_rate := d_to_u64 rate\<rparr>)) l1 })" for x l1
    by (intro step_intros) (simp add: ranges_def set_st_def)
  show ?thesis
    unfolding opt_bandwidth_def Let_def
    by (intro step_ok_if step_ok_guarded r) (auto simp: ranges_def set_st_def)
qed

lemma step_ok_general: "step_ok m \<Longrightarrow> step_ok (parse_general flag optarg l m)"
  unfolding parse_general_def
  by (intro step_intros step_ok_server; simp?) (auto simp: ranges_def set_st_def)

lemma step_ok_amounts: "step_ok m \<Longrightarrow> step_ok (parse_amounts flag optarg l m)"
  unfolding parse_amounts_def
  by (intro step_intros step_ok_bandwidth keeps_intros; simp?) (auto simp: ranges_def set_st_def mod_t_def keeps_modify)

lemma step_ok_sockets: "step_ok m \<Longrightarrow> step_ok (parse_sockets flag optarg l m)"
  unfolding parse_sockets_def Let_def
  by (intro step_intros; simp?) (auto simp: ranges_def set_st_def)

lemma step_ok_rest: "step_ok (parse_rest flag optarg l)"
  unfolding parse_rest_def usage_long_def
  by (intro step_intros; simp)

lemma step_ok_option: "step_ok (parse_option opt l)"
  by (cases opt) (simp add: parse_option_def step_ok_general step_ok_amounts step_ok_sockets step_ok_rest)

lemma step_ok_options: "step_ok (parse_options opts l)"
proof (induction opts arbitrary: l)
  case Nil
  then show ?case by (simp add: step_ok_ret)
next
  case (Cons opt opts)
  show ?case
  proof (rule step_okI)
    fix s :: iperf_state assume s: "ranges (tst s)"
    show "wp (parse_options (opt # opts) l) step_post s"
      unfolding parse_options.simps wp_bind
      by (rule wp_mono [OF step_ok_option [unfolded step_ok_def, rule_format, OF s]])
        (use Cons.IH in \<open>auto simp: step_ok_def wp_simps split: parse_step.split\<close>)
  qed
qed

lemma open_logfile_wp:
  "(\<And>ok out s'. tst s' = (tst s)\<lparr>t_outfile := out\<rparr> \<Longrightarrow> Q ok s') \<Longrightarrow> wp open_logfile Q s"
  unfolding open_logfile_def
  by (simp add: wp_simps split: option.split) (metis iperf_test.surjective test_conf.update_convs(20))

lemma check_test_wp:
  "ranges (tst s) \<Longrightarrow> wp (check_test l) (\<lambda>r s'. r = 0 \<and> accepted (tst s') \<or> r = -1) s"
  unfolding check_test_def fail_def Let_def
  by (simp add: wp_simps)
    (intro conjI impI; auto simp: accepted_def ranges_def set_st_def protocol_id_is_def MAX_TIME_def not_le not_less)

lemma check_arguments_wp:
  assumes "ranges (tst s)"
  shows "wp (check_arguments l) (\<lambda>r s'. r = 0 \<and> accepted (tst s') \<or> r = -1) s"
  unfolding check_arguments_def wp_bind
proof (rule open_logfile_wp)
  fix ok out and s' :: iperf_state assume "tst s' = (tst s)\<lparr>t_outfile := out\<rparr>"
  with assms have "ranges (tst s')" by (simp add: ranges_def)
  then show "wp (if \<not> ok then ret (-1) else check_test l) (\<lambda>r s'. r = 0 \<and> accepted (tst s') \<or> r = -1) s'"
    using check_test_wp [of s' l] by (simp add: wp_simps)
qed

text \<open>
  C12: what an accepted command line guarantees. Starting from a test whose values are in their ranges,
  as the defaults are, parsing returns 0 or -1 or ends the process; when it returns 0 the test is one
  the rest of the program is made for: its role is set, every length, count and duration is below its
  maximum, the block size is positive and fits a datagram in UDP, a client port comes with an address
  to bind, and at most one condition ends the test.
\<close>

theorem parse_arguments_accepts:
  assumes "ranges (tst s)" "run_state (iperf_parse_arguments argv) s = (r, s')"
  shows "case r of Ran v \<Rightarrow> v = 0 \<and> accepted (tst s') \<or> v = -1 | Exited c \<Rightarrow> True"
proof -
  have "wp (iperf_parse_arguments argv) (\<lambda>r s'. case r of Ran v \<Rightarrow> v = 0 \<and> accepted (tst s') \<or> v = -1 | Exited c \<Rightarrow> True) s"
    unfolding iperf_parse_arguments_def wp_bind
    by (rule wp_mono [OF step_ok_options [unfolded step_ok_def, rule_format, OF assms(1)]])
      (auto simp: wp_simps split: parse_step.splits intro: wp_mono [OF check_arguments_wp])
  then show ?thesis using assms(2) by (rule wpD)
qed

lemma ex_args: "getopt_long [''-c'', ''host'', ''-P4''] = [(99, ''host''), (80, ''4'')]" "atoi ''4'' = 4"
  by code_simp+

theorem parse_arguments_accepts_witness:
  "\<exists>s s'. run_state (iperf_parse_arguments [''iperf3'', ''-c'', ''host'', ''-P4'']) s = (Ran 0, s') \<and> accepted (tst s') \<and>
     t_role (tst s') = CHR ''c'' \<and> t_num_streams (tst s') = 4"
proof -
  define s where "s = ex_state (\<lambda>_. SysRet 0 0 [] []) ((default_test test0)\<lparr>t_protocol := Some tcp_protocol,
    t_stats_interval := Fin 0, t_reporter_interval := Fin 0\<rparr>)"
  have r: "ranges (tst s)"
    by (simp add: s_def ex_state_def ranges_def default_test_def default_settings_def set_st_def test0_def settings0_def
        MAX_TIME_def DURATION_def MAX_STREAMS_def OMIT_def MAX_MSS_def MAX_BURST_def MAX_TCP_BUFFER_def MB_def bad_interval_def)
  obtain r s' where run: "run_state (iperf_parse_arguments [''iperf3'', ''-c'', ''host'', ''-P4'']) s = (r, s')"
    by (cases "run_state (iperf_parse_arguments [''iperf3'', ''-c'', ''host'', ''-P4'']) s")
  have opts: "run_state (parse_options [(99, ''host''), (80, ''4'')] parse_locals0) s =
      (Parse_next (for_client parse_locals0), s\<lparr>tst := (iperf_set_test_server_hostname ''host'' (iperf_set_test_role CHR ''c'' (tst s)))\<lparr>t_num_streams := 4\<rparr>\<rparr>)"
    by (simp add: parse_option_def parse_general_def parse_amounts_def chr_flag_def put_t_def put_checked_def
        OPT_SCTP_def OPT_NUMSTREAMS_def ex_args MAX_STREAMS_def s_def ex_state_def default_test_def set_st_def test0_def)
  define s1 where "s1 = s\<lparr>tst := (iperf_set_test_server_hostname ''host'' (iperf_set_test_role CHR ''c'' (tst s)))\<lparr>t_num_streams := 4\<rparr>\<rparr>"
  have "run_state (do { v \<leftarrow> check_arguments (for_client parse_locals0); ret (Ran v) }) s1 = (r, s')"
    using run by (simp add: iperf_parse_arguments_def ex_args opts s1_def del: getopt_long.simps parse_options.simps)
  then have "r = Ran 0 \<and> t_role (tst s') = CHR ''c'' \<and> t_num_streams (tst s') = 4"
    by (simp add: s1_def check_arguments_def open_logfile_def check_test_def s_def ex_state_def
        default_test_def default_settings_def set_st_def test0_def settings0_def iperf_set_test_server_hostname_def
        iperf_set_test_role_def check_sender_has_retransmits_def has_tcpinfo_retransmits_def Let_def for_client_def parse_locals0_def
        default_blksize_def protocol_id_is_def tcp_protocol_def Ptcp_def Pudp_def Psctp_def sock_defs
        DEFAULT_TCP_BLKSIZE_def MAX_BLOCKSIZE_def MB_def) auto
  with parse_arguments_accepts [OF r run] run show ?thesis by auto
qed

section \<open>Different ways to write an option\<close>



end
