(* ===== verification/Test_Types.thy ===== *)
theory Test_Types
  imports Main_Run Args_Facts Server_Facts
begin

text \<open>
  The integers of a test keep the range of their C types, whoever writes them: the command line, the
  parameters the client sends, the configuration from Java, and the reset between two tests.
\<close>

section \<open>The types\<close>

definition in_u64 :: "int \<Rightarrow> bool" where
  "in_u64 x \<longleftrightarrow> 0 \<le> x \<and> x < 2 ^ 64"

lemma in_u64_u64 [simp]: "in_u64 (u64 x)"
  using u64_range [of x] by (simp add: in_u64_def)

definition typed_settings :: "iperf_settings \<Rightarrow> bool" where
  "typed_settings s \<longleftrightarrow>
     list_all in_i32 [st_domain s, st_socket_bufsize s, st_blksize s, st_burst s, st_mss s, st_ttl s, st_tos s,
       st_flowlabel s, st_num_ostreams s] \<and>
     list_all in_u64 [st_rate s, st_bytes s, st_blocks s]"

definition typed :: "iperf_test \<Rightarrow> bool" where
  "typed t \<longleftrightarrow>
     list_all in_i32 [t_sender t, t_sender_has_retransmits t, t_state t, t_bind_port t, t_server_port t, t_omit t,
       t_duration t, t_affinity t, t_server_affinity t, t_ctrl_sck t, t_listener t, t_prot_listener t, t_daemon t,
       t_one_off t, t_no_delay t, t_reverse t, t_verbose t, t_json_output t, t_zerocopy t, t_debug t,
       t_get_server_output t, t_udp_counters_64bit t, t_no_fq_socket_pacing t, t_multisend t, t_max_fd t,
       t_omitting t, t_done t, t_num_streams t] \<and>
     list_all in_u64 [t_bytes_sent t, t_blocks_sent t] \<and>
     typed_settings (t_settings t)"

lemma in_u64_const [simp]: "in_u64 0" "in_u64 1" "in_u64 (numeral n) \<longleftrightarrow> numeral n < (2 ^ 64 :: int)"
  by (simp_all add: in_u64_def)

lemma in_i32_const [simp]: "in_i32 0" "in_i32 1" "in_i32 (-1)" "in_i32 (numeral n) \<longleftrightarrow> numeral n < (2 ^ 31 :: int)"
  by (simp_all add: in_i32_def)

lemma in_i32_b2i [simp]: "in_i32 (b2i b)"
  by (simp add: b2i_def)

lemma typed_set_st [simp]: "typed (set_st f t) \<longleftrightarrow> typed (t\<lparr>t_settings := f (t_settings t)\<rparr>)"
  by (simp add: set_st_def)

lemma saturate_between: "lo \<le> hi \<Longrightarrow> lo \<le> saturate lo hi x \<and> saturate lo hi x \<le> hi"
  by (simp add: saturate_def)

lemma d_to_int_between: "lo \<le> 0 \<Longrightarrow> 0 \<le> hi \<Longrightarrow> lo \<le> d_to_int lo hi d \<and> d_to_int lo hi d \<le> hi"
  by (cases d) (simp_all add: saturate_between)

lemma typed_conversions [simp]: "in_i32 (d_to_i32 d)" "in_u64 (d_to_u64 d)" "in_i32 (atoi x)"
  using d_to_int_between [of "- (2 ^ 31)" "2 ^ 31 - 1" d] d_to_int_between [of 0 "2 ^ 64 - 1" d]
  by (simp_all add: d_to_i32_def d_to_u64_def atoi_def) (simp_all add: in_i32_def in_u64_def)

section \<open>Who keeps them\<close>

text \<open>An operation that keeps the types, and an update that does.\<close>

abbreviation typed_m :: "'a iperf_m \<Rightarrow> bool" where
  "typed_m m \<equiv> keeps (\<lambda>s. typed (tst s)) m"

lemma typed_frame: "frame tst m \<Longrightarrow> typed_m m"
  by (simp add: keeps_def frame_def)

lemma typed_mod_t: "(\<And>t. typed t \<Longrightarrow> typed (f t)) \<Longrightarrow> typed_m (mod_t f)"
  by (simp add: keeps_def)

lemma typed_os: "os_only m \<Longrightarrow> typed_m m"
  by (rule keepsI) (metis os_only_iperf(1))

lemma typed_check [simp]: "typed t \<Longrightarrow> typed (check_sender_has_retransmits t)"
  by (simp add: check_sender_has_retransmits_def typed_def)

lemma typed_setters [simp]:
  "typed t \<Longrightarrow> typed (iperf_set_test_role r t)"
  "typed t \<Longrightarrow> in_i32 v \<Longrightarrow> typed (iperf_set_test_reverse v t)"
  "typed t \<Longrightarrow> typed (iperf_set_test_server_hostname h t)"
  unfolding iperf_set_test_role_def iperf_set_test_reverse_def iperf_set_test_server_hostname_def Let_def
  by (auto intro!: typed_check) (auto simp: typed_def)

lemma typed_get: "typed_m (get_t g)" "typed_m (get_sp sp h)" "typed_m (get_st k)"
  by (simp_all add: keeps_def)

lemmas typed_intros = keeps_intros typed_get typed_mod_t typed_os os_frame

lemma typed_set_protocol: "typed_m (set_protocol p)"
  unfolding set_protocol_def
  by (intro typed_intros typed_check; simp add: typed_def)

lemma typed_tmr_cancel: "typed_m (tmr_cancel x)"
  by (rule typed_frame) (simp add: frame_def tmr_cancel_def tmr_cancel_st_def split: option.split)

lemma typed_reset_timer: "(\<And>t. typed t \<Longrightarrow> typed (f t)) \<Longrightarrow> typed_m (reset_timer g f)"
  unfolding reset_timer_def
  by (intro typed_tmr_cancel typed_intros) simp_all

section \<open>The client's parameters\<close>

lemma typed_on_item: "(\<And>p. typed_m (f p)) \<Longrightarrow> typed_m (on_item j nm f)"
  unfolding on_item_def by (intro keeps_intros)

lemma typed_item_t: "(\<And>n t. typed t \<Longrightarrow> typed (f n t)) \<Longrightarrow> typed_m (item_t j nm f)"
  unfolding item_t_def by (intro typed_on_item typed_mod_t)

lemma typed_item_str: "(\<And>x t. typed t \<Longrightarrow> typed (f x t)) \<Longrightarrow> typed_m (item_str j nm f)"
  unfolding item_str_def by (intro typed_on_item typed_intros)

lemma typed_updates [simp]:
  "typed (t\<lparr>t_title := x\<rparr>) = typed t" "typed (t\<lparr>t_congestion := x\<rparr>) = typed t"
  by (simp_all add: typed_def)

lemma typed_settingsD: "typed t \<Longrightarrow> typed_settings s \<Longrightarrow> typed (t\<lparr>t_settings := s\<rparr>)"
  by (simp add: typed_def)

lemma typed_apply_parameters: "typed_m (apply_parameters j)"
  unfolding apply_parameters_def
  by (intro keeps_intros typed_on_item typed_item_t typed_item_str typed_mod_t typed_set_protocol;
      simp add: iperf_set_test_get_server_output_def iperf_set_test_udp_counters_64bit_def iperf_set_no_fq_socket_pacing_def;
      simp add: typed_def typed_settings_def)

lemma typed_get_parameters: "typed_m get_parameters"
  unfolding get_parameters_def
  by (intro typed_apply_parameters typed_intros os_only_JSON os_only_debug_json)

section \<open>The reset\<close>

lemma typed_free_stream: "typed_m (iperf_free_stream sp)"
  unfolding iperf_free_stream_def cancel_timer_def close_fd_def
  by (intro typed_tmr_cancel typed_intros)

lemma typed_reset: "typed_m iperf_reset_test"
  unfolding iperf_reset_test_def free_streams_def
  by (intro typed_free_stream typed_reset_timer typed_set_protocol typed_intros; simp add: reset_settings_def;
      simp add: typed_def typed_settings_def OMIT_def DURATION_def DEFAULT_TCP_BLKSIZE_def)

section \<open>Java\<close>

text \<open>\<open>int\<close> and \<open>long\<close> of Java are as wide as \<open>int\<close> and \<open>long\<close> here.\<close>

definition java_typed :: "java_config \<Rightarrow> bool" where
  "java_typed c \<longleftrightarrow> in_i32 (jc_mServerPort c) \<and> in_i32 (jc_parallels c)"

lemma typed_fields:
  "typed t \<Longrightarrow> in_i32 n \<Longrightarrow> typed (iperf_set_test_server_port n t)"
  "typed t \<Longrightarrow> in_i32 n \<Longrightarrow> typed (iperf_set_test_num_streams n t)"
  "typed t \<Longrightarrow> in_u64 r \<Longrightarrow> typed (iperf_set_test_rate r t)"
  "typed t \<Longrightarrow> typed (iperf_set_test_unit_format c t)"
  "typed t \<Longrightarrow> typed (iperf_set_test_template x t)"
  "typed t \<Longrightarrow> typed (iperf_set_test_stats_interval d t)"
  "typed t \<Longrightarrow> typed (iperf_set_test_reporter_interval d t)"
  by (simp_all add: iperf_set_test_server_port_def iperf_set_test_rate_def iperf_set_test_unit_format_def
      iperf_set_test_num_streams_def iperf_set_test_template_def iperf_set_test_stats_interval_def
      iperf_set_test_reporter_interval_def) (simp_all add: typed_def typed_settings_def)

lemma typed_java: "java_typed config \<Longrightarrow> typed_m (parse_java_config package config)"
  unfolding parse_java_config_def apply_java_config_def Let_def
  by (intro typed_intros typed_fields; simp add: java_typed_def typed_fields)

section \<open>The command line\<close>

text \<open>The block size waits in a local variable for the checks.\<close>

definition typed_post :: "parse_step \<Rightarrow> iperf_state \<Rightarrow> bool" where
  "typed_post r s \<longleftrightarrow> typed (tst s) \<and> (case r of Parse_next l \<Rightarrow> in_i32 (pl_blksize l) | _ \<Rightarrow> True)"

definition typed_step :: "parse_step iperf_m \<Rightarrow> bool" where
  "typed_step m \<longleftrightarrow> (\<forall>s. typed (tst s) \<longrightarrow> wp m typed_post s)"

lemma typed_step_ret:
  "in_i32 (pl_blksize l) \<Longrightarrow> typed_step (ret (Parse_next l))" "typed_step (ret (Parse_exit c))" "typed_step (parse_fail e)"
  by (simp_all add: typed_step_def typed_post_def parse_fail_def wp_simps)

lemma typed_step_if: "(b \<Longrightarrow> typed_step m) \<Longrightarrow> (\<not> b \<Longrightarrow> typed_step n) \<Longrightarrow> typed_step (if b then m else n)"
  by simp

lemma typed_step_outcome:
  "(\<And>c. typed_step (m c)) \<Longrightarrow> (\<And>u. typed_step (n u)) \<Longrightarrow> typed_step (case x of Exited c \<Rightarrow> m c | Ran u \<Rightarrow> n u)"
  by (simp split: outcome.split)

lemma typed_step_bind: "typed_m m \<Longrightarrow> (\<And>a. typed_step (f a)) \<Longrightarrow> typed_step (State_Monad.bind m f)"
  by (simp add: typed_step_def wp_iff keeps_def split: prod.split) (metis snd_conv)

lemma typed_step_put:
  "(\<And>t. typed t \<Longrightarrow> typed (f t)) \<Longrightarrow> in_i32 (pl_blksize l) \<Longrightarrow> typed_step (put_t f l)"
  "(\<And>t. typed t \<Longrightarrow> typed (f t)) \<Longrightarrow> in_i32 (pl_blksize l) \<Longrightarrow> typed_step (put_checked f bad e l)"
  unfolding put_t_def put_checked_def
  by (intro typed_step_if typed_step_bind typed_step_ret typed_mod_t; simp)+

lemma typed_read: "typed_m (read_atof x)" "typed_m (read_atof_rate x)"
  unfolding read_atof_def read_atof_rate_def garbage_def by (intro typed_intros)+

lemma typed_step_atoi: "(\<And>n. in_u64 n \<Longrightarrow> typed_step (f n)) \<Longrightarrow> typed_step (State_Monad.bind (read_atoi x) f)"
  unfolding read_atoi_def unit_atoi_def
  by (cases "scaled KILO_UNIT MEGA_UNIT GIGA_UNIT x") 
    (auto simp: garbage_def typed_step_def wp_simps)

lemmas typed_steps = typed_step_atoi typed_step_if typed_step_put typed_step_ret typed_step_outcome typed_step_bind
  typed_read typed_set_protocol typed_mod_t typed_os

lemma locals_flags [simp]: "pl_blksize (for_client l) = pl_blksize l" "pl_blksize (for_server l) = pl_blksize l"
  by (simp_all add: for_client_def for_server_def)

lemma os_only_exit: "os_only (safe_exit n)" "os_only usage_long" "os_only get_system_info"
  unfolding safe_exit_def usage_long_def get_system_info_def by (intro os_frame; simp)+

lemma typed_step_next:
  assumes "\<And>l. in_i32 (pl_blksize l) \<Longrightarrow> \<forall>s. typed (tst s) \<longrightarrow> wp (n l) typed_post s" "typed_post r s"
  shows "wp (case r of Parse_next l \<Rightarrow> n l | _ \<Rightarrow> ret r) typed_post s"
  using assms by (cases r) (auto simp: typed_post_def wp_simps)

lemma typed_step_server: "in_i32 (pl_blksize l) \<Longrightarrow> typed_step (opt_server l)"
  unfolding opt_server_def by (intro typed_steps typed_get) simp_all

lemma typed_step_bandwidth: "in_i32 (pl_blksize l) \<Longrightarrow> typed_step (opt_bandwidth a l)"
  unfolding opt_bandwidth_def Let_def
  by (intro typed_steps; (simp; fail | simp add: typed_def typed_settings_def set_st_def sock_defs))

lemma typed_step_general: "in_i32 (pl_blksize l) \<Longrightarrow> typed_step m \<Longrightarrow> typed_step (parse_general flag optarg l m)"
  unfolding parse_general_def
  by (intro typed_step_server typed_steps typed_get os_only_exit os_frame; (simp; fail | simp add: typed_def typed_settings_def set_st_def sock_defs))

lemma typed_step_amounts: "in_i32 (pl_blksize l) \<Longrightarrow> typed_step m \<Longrightarrow> typed_step (parse_amounts flag optarg l m)"
  unfolding parse_amounts_def
  by (intro typed_step_bandwidth typed_steps typed_get os_only_exit os_frame; (simp; fail | simp add: typed_def typed_settings_def set_st_def sock_defs))

lemma typed_step_sockets: "in_i32 (pl_blksize l) \<Longrightarrow> typed_step m \<Longrightarrow> typed_step (parse_sockets flag optarg l m)"
  unfolding parse_sockets_def Let_def
  by (intro typed_steps typed_get os_only_exit os_frame; (simp; fail | simp add: typed_def typed_settings_def set_st_def sock_defs))

lemma typed_step_rest: "in_i32 (pl_blksize l) \<Longrightarrow> typed_step (parse_rest flag optarg l)"
  unfolding parse_rest_def
  by (intro typed_steps typed_get os_only_exit os_frame; (simp; fail | simp add: typed_def))

lemma typed_step_options: "in_i32 (pl_blksize l) \<Longrightarrow> typed_step (parse_options opts l)"
proof (induction opts arbitrary: l)
  case Nil
  then show ?case by (simp add: typed_step_ret)
next
  case (Cons opt opts)
  have "typed_step (parse_option opt l)"
    using Cons.prems
    by (cases opt) (simp add: parse_option_def typed_step_general typed_step_amounts typed_step_sockets typed_step_rest)
  then show ?case
    using Cons.IH unfolding parse_options.simps typed_step_def wp_bind
    by (blast intro: wp_mono [of _ typed_post] typed_step_next)
qed

lemma typed_logfile: "typed_m open_logfile"
  unfolding open_logfile_def
  by (intro keeps_intros typed_get typed_mod_t typed_os os_frame) (simp add: typed_def)

lemma typed_check_arguments: "in_i32 (pl_blksize l) \<Longrightarrow> typed_m (check_arguments l)"
  unfolding check_arguments_def check_test_def fail_def default_blksize_def Let_def
  by (intro keeps_if keeps_bind typed_logfile keeps_return keeps_when_m typed_get typed_mod_t typed_os os_frame;
      (simp; fail | simp add: typed_def typed_settings_def set_st_def sock_defs DEFAULT_UDP_BLKSIZE_def DEFAULT_TCP_BLKSIZE_def DEFAULT_SCTP_BLKSIZE_def UDP_RATE_def))

lemma typed_parse_arguments: "typed_m (iperf_parse_arguments argv)"
proof (rule keepsI)
  fix s s' :: iperf_state and r
  assume s: "typed (tst s)" and run: "run_state (iperf_parse_arguments argv) s = (r, s')"
  obtain p s1 where p: "run_state (parse_options (getopt_long (tl argv)) parse_locals0) s = (p, s1)" by fastforce
  have "typed_step (parse_options (getopt_long (tl argv)) parse_locals0)"
    by (rule typed_step_options) (simp add: parse_locals0_def)
  then have "typed_post p s1" using s p by (auto simp: typed_step_def dest: wpD)
  then show "typed (tst s')"
    using run p by (cases p)
      (auto simp: iperf_parse_arguments_def typed_post_def split: prod.splits dest: typed_check_arguments [THEN keepsD])
qed



end
