(* ===== verification/Reset_Facts.thy ===== *)
theory Reset_Facts
  imports Wire Frame
begin

text \<open>
  What one client leaves to the next: the reset of the server's test between two tests, followed by the
  parameters of the next client.
\<close>

text \<open>The part of the test the reset does not touch, of what a client's parameters set.\<close>

definition legacy :: "iperf_test \<Rightarrow> protocol list \<times> string option \<times> string option \<times> int \<times> int \<times> int \<times> int \<times> int" where
  "legacy t = (t_protocols t, t_title t, t_congestion t, t_get_server_output t, st_tos (t_settings t),
     st_flowlabel (t_settings t), st_bytes (t_settings t), st_blocks (t_settings t))"

definition heirs :: "'a iperf_m \<Rightarrow> bool" where
  "heirs m \<longleftrightarrow> frame (\<lambda>s. legacy (tst s)) m"

lemma heirs_mod_t: "(\<And>t. legacy (f t) = legacy t) \<Longrightarrow> heirs (mod_t f)"
  by (simp add: heirs_def frame_def)

lemma heirs_same: "frame tst m \<Longrightarrow> heirs m"
  by (simp add: heirs_def frame_def)

lemma heirs_cancel: "heirs (tmr_cancel x)"
  by (rule heirs_same) (simp add: frame_def tmr_cancel_def tmr_cancel_st_def split: option.split)

lemma heirs_free_stream: "heirs (iperf_free_stream sp)"
  unfolding heirs_def iperf_free_stream_def cancel_timer_def close_fd_def get_st_def get_t_def get_sp_def
  by (intro frames heirs_cancel [unfolded heirs_def]; simp add: frame_def)

lemma heirs_reset_timer: "(\<And>t. legacy (f t) = legacy t) \<Longrightarrow> heirs (reset_timer g f)"
  unfolding heirs_def reset_timer_def get_t_def
  by (intro frames heirs_cancel [unfolded heirs_def] heirs_mod_t [unfolded heirs_def])

definition reset_start :: "unit iperf_m" where
  "reset_start = do {
     free_streams;
     reset_timer t_omit_timer (\<lambda>t. t\<lparr>t_omit_timer := None\<rparr>);
     reset_timer t_timer (\<lambda>t. t\<lparr>t_timer := None\<rparr>);
     reset_timer t_stats_timer (\<lambda>t. t\<lparr>t_stats_timer := None\<rparr>);
     reset_timer t_reporter_timer (\<lambda>t. t\<lparr>t_reporter_timer := None\<rparr>) }"

lemma heirs_start: "heirs reset_start"
  unfolding heirs_def reset_start_def free_streams_def get_t_def
  by (intro frames heirs_free_stream [unfolded heirs_def] heirs_reset_timer [unfolded heirs_def]
      heirs_mod_t [unfolded heirs_def]; simp add: legacy_def)

lemma kept_zero: "kept n 0 = n"
  by (simp add: kept_def)

lemma iperf_reset_test_split: "iperf_reset_test = do {
     reset_start;
     mod_t (\<lambda>t. t\<lparr>t_done := 0, t_streams := [], t_role := CHR ''s'', t_sender := 0,
       t_sender_has_retransmits := 0\<rparr>);
     _ \<leftarrow> set_protocol Ptcp;
     mod_t (\<lambda>t. t\<lparr>t_omit := OMIT, t_duration := DURATION, t_server_affinity := -1, t_state := 0,
       t_ctrl_sck := -1, t_prot_listener := -1, t_bytes_sent := 0, t_blocks_sent := 0,
       t_reverse := 0, t_no_delay := 0, t_read_set := [], t_write_set := [], t_num_streams := 1\<rparr>);
     mod_t (set_st reset_settings);
     mod_t (\<lambda>t. t\<lparr>t_cookie := zero_cookie, t_multisend := 10, t_udp_counters_64bit := 0,
       t_jniCallback := False, t_server_output_list := []\<rparr>) }"
  by (simp add: iperf_reset_test_def reset_start_def)



end
