(* ===== verification/Spec2Isabelle.thy ===== *)
theory Spec2Isabelle
  imports Queue Extras Cjson_Minify Cjson_Buffer Timer_Heap Results_Facts Timer_Facts Client_Facts Server_Course
    Test_Types Reset_Facts Report_Facts Args_Facts Main_Run
begin

text \<open>
  A model of iperf 3.1.3, the network measurement tool that this repository wraps for Android: the C
  files under \<open>src/app/src/main/jni/iperf-3.1.3/src\<close> and the native side of the Java interface next to
  them (\<open>iperf3_jni_api.c\<close>, \<open>iperf3_java_callback.c\<close>, \<open>common_jni_util.c\<close>). File names below are relative
  to these two directories.

  \<^bold>\<open>The program.\<close> A test runs between a client and a server over one TCP control connection and some
  data streams. The command line (or Java) fills in a \<open>struct iperf_test\<close>; the client connects, sends
  a cookie and its parameters as JSON, both sides create the streams, and each then runs a \<open>select\<close>
  loop that handles one-byte messages on the control connection, sends or receives on the streams,
  and runs the due timers. Timers take statistics, print reports and end the test. At the end both
  sides exchange their results as JSON and print them; the client's Java side gets them through
  callbacks. The model has the build of this repository: only \<open>HAVE_SENDFILE\<close> is configured, Linux with
  \<open>TCP_INFO\<close>, 64-bit \<open>long\<close>.

  \<^bold>\<open>State and effects.\<close> \<open>Prelude\<close> has the C conversions (\<open>i32\<close>, \<open>u32\<close>, \<open>u64\<close>: values are \<open>int\<close>, and every
  place where C converts is written out), the state monad with its weakest preconditions, and byte
  orders. \<open>CDouble\<close> is IEEE arithmetic on rationals with infinities and NaN. \<open>OS\<close> makes every call that
  leaves the program a \<open>syscall\<close>, answered by an oracle, a function of the history; a theorem holds
  for every behaviour of the system unless it restricts the oracle. The record types are layered:
  \<open>world\<close> (history, \<open>errno\<close>, \<open>i_errno\<close>), \<open>tmr_state\<close> (the timer lists), \<open>iperf_state\<close> (the test \<open>tst\<close>, the
  streams \<open>strms\<close> by address). An early return is a branch, a null pointer that is dereferenced the
  event \<open>SCrash\<close>, a read or write out of bounds a value of its own (\<open>POob\<close>, \<open>None\<close>).

  \<^bold>\<open>Theories, by part of the program.\<close>
  \<^item> Timers: \<open>Timer\<close> (\<open>timer.c\<close> on sorted lists) and \<open>Timer_Heap\<close> (the same functions as assignments to
    \<open>prev\<close> and \<open>next\<close>). The locale \<open>timer_queue\<close> is the contract of the queue, interpreted on the lists
    (\<open>tq\<close>) and on the heap (\<open>hq\<close>). The locales \<open>timer_procs\<close>, \<open>firing_procs\<close> and \<open>blind_procs\<close> are what
    \<open>tmr_run\<close> asks of the procedures it calls, with what it promises then: it returns, fires every due
    timer, and leaves alone what the procedures leave alone.
  \<^item> Lists: \<open>Queue\<close> (the macros of \<open>queue.h\<close> the program uses, on pointers). The locale \<open>linked_list\<close> is
    their contract, interpreted on both kinds; all other theories use HOL lists in their place.
  \<^item> JSON (\<open>cjson.c\<close>): \<open>Cjson\<close> (items as trees, building, search, editing, copying), \<open>Cjson_Print\<close> (a block
    for each text), \<open>Cjson_Buffer\<close> (one growing buffer), \<open>Cjson_Parse\<close>, \<open>Cjson_Minify\<close>; facts in
    \<open>Cjson_Scan\<close>, \<open>Cjson_Text\<close> and \<open>Cjson_Roundtrip\<close>: parsing a printed document gives it back, both
    printers agree, minifying formatted text gives unformatted text, the parser returns on every text
    and its blocks are large enough, and where its string scanner leaves the text.
  \<^item> Numbers and text: \<open>Units\<close> (\<open>units.c\<close>), \<open>Printf\<close> (the formats of \<open>iperf_locale.c\<close> and the conversions
    they use), \<open>Util\<close> (\<open>iperf_util.c\<close>), \<open>Errors\<close> (\<open>iperf_error.c\<close>).
  \<^item> Sockets: \<open>Net\<close> (\<open>net.c\<close>: connecting, announcing, whole reads and writes, descriptors that leak or do
    not); \<open>Extras\<close> (functions without a caller: socket options in \<open>net.c\<close> and \<open>tcp_window_size.c\<close>, \<open>delay\<close>,
    \<open>iperf_dump_fdset\<close>, the stubs of \<open>iperf_sctp.c\<close>, and \<open>cJSON_Delete\<close>).
  \<^item> The test: \<open>Iperf\<close> (\<open>iperf.h\<close>, \<open>iperf_api.h\<close> and, of \<open>iperf_api.c\<close>, defaults, getters, setters, reset,
    output), \<open>Args\<close> (\<open>iperf_parse_arguments\<close> with \<open>getopt_long\<close>), \<open>Wire\<close> (\<open>JSON_read\<close>, \<open>JSON_write\<close>,
    \<open>send_parameters\<close>, \<open>get_parameters\<close>, \<open>send_results\<close>, \<open>get_results\<close>), \<open>Streams\<close> (\<open>iperf_tcp.c\<close>,
    \<open>iperf_udp.c\<close>, and creation of streams, sending, receiving and pacing in \<open>iperf_api.c\<close>), \<open>Stats\<close>
    (\<open>iperf_stats_callback\<close>, \<open>tcp_info.c\<close>), \<open>Report\<close> (\<open>iperf_reporter_callback\<close>).
  \<^item> The roles: \<open>Callbacks\<close> (the timer procedures), \<open>Client\<close> (\<open>iperf_client_api.c\<close>), \<open>Server\<close>
    (\<open>iperf_server_api.c\<close>), \<open>Main_Run\<close> (\<open>main.c\<close>, the termination signal, the Java methods).

  \<^bold>\<open>What the lemmas show.\<close> \<open>Frame\<close> holds, for every operation, what it leaves alone (\<open>calm\<close>: all control
  state; \<open>steady\<close>: role, state and control connection); the collection \<open>frames\<close> puts such facts together
  along the code. On it rest the theories named \<open>_Facts\<close>:
  \<^item> \<open>Stream_Facts\<close>: the locale \<open>transport\<close> is the contract of a protocol's \<open>send\<close> and \<open>recv\<close> and is met by
    TCP, UDP and the functions around \<open>-F\<close>; with it the totals of a test balance those of its streams.
    Also datagram headers, the counts of lost and late datagrams, the numbers of streams.
  \<^item> \<open>Stats\<close>, \<open>Report_Facts\<close>: intervals are contiguous and conserve the bytes; reports change no
    measurement; how often Java is called.
  \<^item> \<open>Timer_Facts\<close>: with the program's own procedures every run of the timers returns and the timer of
    the duration ends the test.
  \<^item> \<open>Wire\<close>, \<open>Results_Facts\<close>: what one side sends of its parameters and results the other side has.
  \<^item> \<open>Client_Facts\<close>, \<open>Server_Facts\<close>: state, result and error after every message, what is left of
    a server that returns, and that a busy server turns others away. \<open>Rounds\<close> has the locale \<open>event_loop\<close>,
    a loop and the step relation of its rounds; \<open>Client_Course\<close> and \<open>Server_Course\<close> interpret it and
    show that every run of the two loops follows the protocol (\<open>follows\<close>, \<open>server_path\<close>).
  \<^item> \<open>Args_Facts\<close>, \<open>Test_Types\<close>, \<open>Reset_Facts\<close>: limits of accepted arguments, ranges of the C types, and
    what the reset between two clients forgets.

  \<^bold>\<open>Loops.\<close> Loops over data are structural recursions. Those that need not end are partial functions whose
  value \<open>None\<close> is not returning: \<open>tmr_run_loop\<close>, \<open>client_loop\<close>, \<open>server_loop\<close>, \<open>serve_loop\<close> (\<open>run\<close> of a
  server), \<open>sleep_loop\<close> (\<open>delay\<close>), and the walks over links in \<open>Timer_Heap\<close>. Fuel stands for three
  bounded recursions: \<open>parse_fuel\<close>, twice the length of the text and two, which the theorem on the parser's
  return proves enough; \<open>announce_retry\<close> with 2, since the code retries at most once, with IPv4
  (\<open>announce_retry_enough\<close>); and the search for the decimal exponent with 400, beyond the range of a double (308 and -324).

  \<^bold>\<open>Not modelled.\<close> The bodies under \<open>HAVE_SCTP\<close> of \<open>iperf_sctp.c\<close>, which this build does not compile;
  the macros of \<open>queue.h\<close> nothing uses (\<open>LIST\<close>, \<open>SIMPLEQ\<close>, \<open>CIRCLEQ\<close>) and the platform headers; the test
  programs \<open>t_timer.c\<close>, \<open>t_units.c\<close>, \<open>t_uuid.c\<close>; the formats of \<open>iperf_locale.c\<close> nothing prints;
  \<open>build_tcpinfo_message\<close>; the messages \<open>getopt_long\<close> prints itself; log output of \<open>LOGD\<close>; the JNI
  functions, which are calls to the environment; the Java application. A termination signal is a
  function from any state, but its arrival between two arbitrary statements is not part of the loops.
  Allocation of JSON items succeeds. The allocator and the contents of fresh blocks are parameters of
  buffered printing (\<open>cJSON_InitHooks\<close>), and \<open>strlen\<close> there stops at the end of its block. The
  sign of a floating-point zero is not represented, and \<open>pow\<close> is taken as correctly rounded.
\<close>

end
